(* ===== verification/Prelude.thy ===== *)
theory Prelude
  imports Complex_Main "HOL-Library.Word"
begin

text \<open>
  Shared vocabulary of the development: the machine integer types of the firmware, the bit
  macros of \<open>nuts_bolts.h\<close>, the collections of simplification rules used by several components,
  generic facts about circular buffers indexed by natural numbers, and the interface locales
  of the byte and block queues.
\<close>

unbundle bit_operations_syntax

type_synonym u8 = "8 word"
type_synonym u16 = "16 word"
type_synonym u32 = "32 word"
type_synonym i8 = "8 word"
type_synonym i32 = "32 word"

named_theorems ring_simps \<open>facts about circular buffers\<close>
named_theorems mask_simps \<open>facts about bit masks\<close>
named_theorems frame_simps \<open>which fields an operation leaves alone\<close>

section \<open>Bit macros of nuts_bolts.h\<close>

definition bit_of :: "nat \<Rightarrow> 'a::len word" where
  "bit_of n = push_bit n 1"

definition bit_true :: "'a::len word \<Rightarrow> 'a word \<Rightarrow> 'a word" where
  "bit_true x m = x OR m"

definition bit_false :: "'a::len word \<Rightarrow> 'a word \<Rightarrow> 'a word" where
  "bit_false x m = x AND NOT m"

definition bit_istrue :: "'a::len word \<Rightarrow> 'a word \<Rightarrow> bool" where
  "bit_istrue x m = (x AND m \<noteq> 0)"

definition bit_isfalse :: "'a::len word \<Rightarrow> 'a word \<Rightarrow> bool" where
  "bit_isfalse x m = (x AND m = 0)"

lemma bit_isfalse_iff [mask_simps]: "bit_isfalse x m = (\<not> bit_istrue x m)"
  by (simp add: bit_isfalse_def bit_istrue_def)

lemma bit_istrue_ex: "bit_istrue x m \<longleftrightarrow> (\<exists>n. bit x n \<and> bit m n)"
  unfolding bit_istrue_def by (auto simp: bit_eq_iff bit_and_iff dest: bit_imp_le_length)

lemma bit_istrue_0 [simp]: "\<not> bit_istrue 0 m" "\<not> bit_istrue x 0"
  by (simp_all add: bit_istrue_def)

lemma bit_bit_of: "bit (bit_of n :: 'a::len word) k \<longleftrightarrow> k = n \<and> n < LENGTH('a)"
proof -
  have "bit (push_bit n (1 :: 'a word)) k \<longleftrightarrow> n \<le> k \<and> k - n = 0 \<and> k < LENGTH('a)"
    by (auto simp: bit_simps)
  then show ?thesis unfolding bit_of_def by auto
qed

lemma bit_istrue_bit_of [mask_simps]: "bit_istrue x (bit_of n) = bit x n"
  unfolding bit_istrue_ex bit_bit_of by (auto dest: bit_imp_le_length)

lemma bit_istrue_or [mask_simps]:
  "bit_istrue (bit_true x k) m \<longleftrightarrow> bit_istrue x m \<or> bit_istrue k m"
  unfolding bit_istrue_ex bit_true_def by (auto simp: bit_or_iff)

lemma bit_istrue_false_imp: "bit_istrue (bit_false x k) m \<Longrightarrow> bit_istrue x m"
  unfolding bit_istrue_ex bit_false_def by (auto simp: bit_and_iff)

lemma bit_false_clears [mask_simps]: "\<not> bit_istrue (bit_false x m) m"
  unfolding bit_istrue_ex bit_false_def by (auto simp: bit_and_iff bit_not_iff)

lemma bit_false_other [mask_simps]:
  "m AND k = 0 \<Longrightarrow> bit_istrue (bit_false x k) m = bit_istrue x m"
proof -
  assume disj: "m AND k = 0"
  have "\<not> (bit m n \<and> bit k n)" for n
    using disj by (metis bit_0_eq bit_and_iff bot_apply bot_bool_def)
  then show ?thesis
    unfolding bit_istrue_ex bit_false_def
    by (auto simp: bit_and_iff bit_not_iff dest: bit_imp_le_length)
qed

section \<open>Circular buffers\<close>

text \<open>
  Every buffer of the firmware is an array with a head and a tail index that wrap by a
  comparison with the size; one slot stays free so that \<open>head = tail\<close> means empty.
\<close>

definition ring_next :: "nat \<Rightarrow> nat \<Rightarrow> nat" where
  "ring_next n i = (if i + 1 = n then 0 else i + 1)"

definition ring_prev :: "nat \<Rightarrow> nat \<Rightarrow> nat" where
  "ring_prev n i = (if i = 0 then n - 1 else i - 1)"

definition ring_count :: "nat \<Rightarrow> nat \<Rightarrow> nat \<Rightarrow> nat" where
  "ring_count n h t = (if t \<le> h then h - t else n - (t - h))"

definition ring_list :: "'a list \<Rightarrow> nat \<Rightarrow> nat \<Rightarrow> 'a list" where
  "ring_list buf h t = map (\<lambda>k. buf ! ((t + k) mod length buf)) [0..<ring_count (length buf) h t]"

lemma ring_next_less [ring_simps]: "i < n \<Longrightarrow> ring_next n i < n"
  by (auto simp: ring_next_def)

lemma ring_prev_less [ring_simps]: "i < n \<Longrightarrow> ring_prev n i < n"
  by (auto simp: ring_prev_def)

lemma ring_next_prev [ring_simps]: "i < n \<Longrightarrow> ring_next n (ring_prev n i) = i"
  by (auto simp: ring_next_def ring_prev_def)

lemma ring_prev_next [ring_simps]: "i < n \<Longrightarrow> ring_prev n (ring_next n i) = i"
  by (auto simp: ring_next_def ring_prev_def)

lemma ring_next_mod: "i < n \<Longrightarrow> ring_next n i = (i + 1) mod n"
  by (auto simp: ring_next_def)

lemma ring_list_length [simp]: "length (ring_list buf h t) = ring_count (length buf) h t"
  by (simp add: ring_list_def)

lemma ring_list_empty [simp]: "ring_list buf t t = []"
  by (simp add: ring_list_def ring_count_def)

lemma ring_count_less: "h < n \<Longrightarrow> t < n \<Longrightarrow> ring_count n h t < n"
  by (auto simp: ring_count_def)

lemma ring_count_0_iff: "h < n \<Longrightarrow> t < n \<Longrightarrow> ring_count n h t = 0 \<longleftrightarrow> h = t"
  by (auto simp: ring_count_def)

lemma ring_count_full_iff:
  "h < n \<Longrightarrow> t < n \<Longrightarrow> ring_count n h t = n - Suc 0 \<longleftrightarrow> ring_next n h = t"
  by (auto simp: ring_count_def ring_next_def)

lemma ring_count_head:
  "h < n \<Longrightarrow> t < n \<Longrightarrow> ring_next n h \<noteq> t \<Longrightarrow> ring_count n (ring_next n h) t = Suc (ring_count n h t)"
  by (auto simp: ring_count_def ring_next_def split: if_splits)

lemma ring_count_tail:
  "h < n \<Longrightarrow> t < n \<Longrightarrow> h \<noteq> t \<Longrightarrow> ring_count n h t = Suc (ring_count n h (ring_next n t))"
  by (auto simp: ring_count_def ring_next_def split: if_splits)

lemma ring_index_head: "h < n \<Longrightarrow> t < n \<Longrightarrow> (t + ring_count n h t) mod n = h"
  by (auto simp: ring_count_def mod_if)

lemma ring_index_mod: "(t::nat) < n \<Longrightarrow> k < n \<Longrightarrow> (t + k) mod n = (if t + k < n then t + k else t + k - n)"
  by (auto simp: mod_if le_mod_geq)

lemma ring_index_ne_head:
  assumes "h < n" "t < n" "k < ring_count n h t"
  shows "(t + k) mod n \<noteq> h"
proof -
  have "k < n" using assms ring_count_less [of h n t] by simp
  then show ?thesis
    using assms by (auto simp: ring_index_mod ring_count_def split: if_splits)
qed

lemma ring_list_frame:
  "h < length buf \<Longrightarrow> t < length buf \<Longrightarrow> ring_list (buf[h := x]) h t = ring_list buf h t"
  unfolding ring_list_def by (rule nth_equalityI) (auto simp: nth_list_update_neq [OF not_sym [OF ring_index_ne_head]])

lemma ring_list_enqueue:
  assumes "h < length buf" "t < length buf" "ring_next (length buf) h \<noteq> t"
  shows "ring_list (buf[h := x]) (ring_next (length buf) h) t = ring_list buf h t @ [x]"
proof -
  have "ring_list (buf[h := x]) (ring_next (length buf) h) t
      = ring_list (buf[h := x]) h t @ [buf[h := x] ! ((t + ring_count (length buf) h t) mod length buf)]"
    using assms by (simp add: ring_list_def ring_count_head)
  then show ?thesis
    using assms by (simp add: ring_list_frame ring_index_head)
qed

lemma ring_list_dequeue:
  assumes "h < length buf" "t < length buf" "h \<noteq> t"
  shows "ring_list buf h t = buf ! t # ring_list buf h (ring_next (length buf) t)"
proof -
  have step: "(ring_next (length buf) t + k) mod length buf = (t + Suc k) mod length buf" for k
    using assms(2) by (simp add: ring_next_mod mod_add_left_eq)
  have "ring_list buf h t = map (\<lambda>k. buf ! ((t + k) mod length buf))
      (0 # map Suc [0..<ring_count (length buf) h (ring_next (length buf) t)])"
    using assms by (simp add: ring_list_def ring_count_tail upt_conv_Cons map_Suc_upt del: upt_Suc)
  then show ?thesis
    using assms(2) by (simp add: ring_list_def step)
qed

lemma ring_list_put:
  "length buf = n \<Longrightarrow> h < n \<Longrightarrow> t < n \<Longrightarrow> ring_next n h \<noteq> t \<Longrightarrow>
   ring_list (buf[h := x]) (ring_next n h) t = ring_list buf h t @ [x]"
  by (metis ring_list_enqueue)

lemma ring_list_get:
  "length buf = n \<Longrightarrow> h < n \<Longrightarrow> t < n \<Longrightarrow> h \<noteq> t \<Longrightarrow>
   ring_list buf h t = buf ! t # ring_list buf h (ring_next n t)"
  by (metis ring_list_dequeue)

lemma ring_list_nth:
  "k < ring_count (length buf) h t \<Longrightarrow> ring_list buf h t ! k = buf ! ((t + k) mod length buf)"
  by (simp add: ring_list_def)

section \<open>Queue interfaces\<close>

text \<open>
  What the clients of a buffer rely on: a bounded first-in first-out queue, seen through its
  abstraction to the list of pending elements.
\<close>

locale bounded_fifo =
  fixes inv :: "'s \<Rightarrow> bool"
    and contents :: "'s \<Rightarrow> 'a list"
    and cap :: nat
    and put :: "'a \<Rightarrow> 's \<Rightarrow> 's"
    and get :: "'s \<Rightarrow> 'a \<times> 's"
  assumes inv_put: "inv s \<Longrightarrow> length (contents s) < cap \<Longrightarrow> inv (put x s)"
    and contents_put: "inv s \<Longrightarrow> length (contents s) < cap \<Longrightarrow> contents (put x s) = contents s @ [x]"
    and inv_get: "inv s \<Longrightarrow> contents s \<noteq> [] \<Longrightarrow> inv (snd (get s))"
    and get_contents: "inv s \<Longrightarrow> contents s \<noteq> [] \<Longrightarrow> contents s = fst (get s) # contents (snd (get s))"
begin

lemma put_all:
  assumes "inv s" "length (contents s) + length xs \<le> cap"
  shows "inv (fold put xs s) \<and> contents (fold put xs s) = contents s @ xs"
  using assms
proof (induction xs arbitrary: s)
  case (Cons x xs)
  then show ?case using inv_put [of s x] contents_put [of s x] by simp
qed simp

lemma get_first: "inv s \<Longrightarrow> contents s = x # xs \<Longrightarrow> fst (get s) = x \<and> contents (snd (get s)) = xs"
  using get_contents [of s] by simp

lemma put_all_get:
  assumes "inv s" "contents s = []" "xs \<noteq> []" "length xs \<le> cap"
  shows "fst (get (fold put xs s)) = hd xs \<and> contents (snd (get (fold put xs s))) = tl xs"
proof -
  have "inv (fold put xs s)" "contents (fold put xs s) = xs"
    using put_all [of s xs] assms by auto
  then show ?thesis
    using get_first [of "fold put xs s" "hd xs" "tl xs"] assms(3) by simp
qed

lemma drain:
  assumes "inv s"
  shows "contents (((\<lambda>s. snd (get s)) ^^ length (contents s)) s) = []"
  using assms
proof (induction "length (contents s)" arbitrary: s)
  case (Suc n)
  then have ne: "contents s \<noteq> []" by auto
  have "n = length (contents (snd (get s)))"
    using get_contents [OF Suc.prems ne] Suc.hyps(2) by (metis length_Cons nat.inject)
  then have "contents (((\<lambda>s. snd (get s)) ^^ n) (snd (get s))) = []"
    using Suc.hyps(1) [of "snd (get s)"] inv_get [OF Suc.prems ne] by simp
  then show ?case
    using Suc.hyps(2) by (metis comp_apply funpow_Suc_right)
qed simp

end

text \<open>
  What the clients of a persistent store rely on: a record written under a key is the one read
  back, and the records under the other keys stay.
\<close>

locale keyed_store =
  fixes inv :: "'s \<Rightarrow> bool"
    and key_ok :: "'k \<Rightarrow> bool"
    and val_ok :: "'v \<Rightarrow> bool"
    and lookup :: "'k \<Rightarrow> 's \<Rightarrow> 'v option"
    and store :: "'k \<Rightarrow> 'v \<Rightarrow> 's \<Rightarrow> 's option"
  assumes store_ok: "inv s \<Longrightarrow> key_ok k \<Longrightarrow> val_ok v \<Longrightarrow> \<exists>s'. store k v s = Some s' \<and> inv s'"
    and lookup_same: "inv s \<Longrightarrow> key_ok k \<Longrightarrow> val_ok v \<Longrightarrow> store k v s = Some s' \<Longrightarrow> lookup k s' = Some v"
    and lookup_other: "inv s \<Longrightarrow> key_ok k \<Longrightarrow> val_ok v \<Longrightarrow> store k v s = Some s' \<Longrightarrow>
      key_ok k' \<Longrightarrow> k' \<noteq> k \<Longrightarrow> lookup k' s' = lookup k' s"
begin

fun store_all :: "('k \<times> 'v) list \<Rightarrow> 's \<Rightarrow> 's option" where
  "store_all [] s = Some s"
| "store_all ((k, v) # kvs) s = Option.bind (store k v s) (store_all kvs)"

lemma store_all_lookup:
  assumes "inv s" "\<forall>(k, v)\<in>set kvs. key_ok k \<and> val_ok v"
  shows "\<exists>s'. store_all kvs s = Some s' \<and> inv s' \<and>
    (\<forall>k. key_ok k \<longrightarrow> lookup k s' = (case map_of (rev kvs) k of None \<Rightarrow> lookup k s | Some v \<Rightarrow> Some v))"
  using assms
proof (induction kvs arbitrary: s)
  case (Cons kv kvs)
  obtain k v where kv: "kv = (k, v)" "key_ok k" "val_ok v" using Cons.prems(2) by (cases kv) auto
  obtain s1 where s1: "store k v s = Some s1" "inv s1" using store_ok [OF Cons.prems(1) kv(2,3)] by blast
  obtain s' where s': "store_all kvs s1 = Some s'" "inv s'"
    "\<And>k. key_ok k \<Longrightarrow> lookup k s' = (case map_of (rev kvs) k of None \<Rightarrow> lookup k s1 | Some v \<Rightarrow> Some v)"
    using Cons.IH [OF s1(2)] Cons.prems(2) by auto
  have "lookup k' s' = (case map_of (rev (kv # kvs)) k' of None \<Rightarrow> lookup k' s | Some v \<Rightarrow> Some v)" if "key_ok k'" for k'
    using s'(3) [OF that] lookup_same [OF Cons.prems(1) kv(2,3) s1(1)]
      lookup_other [OF Cons.prems(1) kv(2,3) s1(1) that]
    by (auto simp: kv(1) map_add_def split: option.splits)
  then show ?case using s' s1 by (auto simp: kv(1))
qed simp

end

end
