(* ===== verification/Flash.thy ===== *)
theory Flash
  imports Prelude
begin

text \<open>
  \<open>flash.c\<close>: the settings storage in two sectors of the on-chip flash.  The memory is a map from
  addresses to bytes; programming can only clear bits (the fact \<open>flash_verify_erase_need\<close> is
  about) and erasing a sector sets all its bytes to \<open>0xFF\<close>.  The state also logs the primitive
  operations, so that a loss of power between any two of them can be described.  An access of
  \<open>copy_from_main_to_copy\<close> beyond the end of the flash is the result \<open>None\<close>.
\<close>

type_synonym memory = "nat \<Rightarrow> u8"

definition MAIN_SECTOR :: u8 where "MAIN_SECTOR = 6"
definition COPY_SECTOR :: u8 where "COPY_SECTOR = 7"
definition EFLASH_MAIN_BASE_ADDRESS :: nat where "EFLASH_MAIN_BASE_ADDRESS = 0x08040000"
definition EFLASH_COPY_BASE_ADDRESS :: nat where "EFLASH_COPY_BASE_ADDRESS = 0x08060000"
definition FLASH_SECTOR_SIZE :: nat where "FLASH_SECTOR_SIZE = 0x20000"
definition FLASH_END :: nat where "FLASH_END = 0x08080000"

definition EFLASH_ADDR_GLOBAL_OFFSET :: nat where "EFLASH_ADDR_GLOBAL_OFFSET = 4"
definition EFLASH_ADDR_PARAMETERS_OFFSET :: nat where "EFLASH_ADDR_PARAMETERS_OFFSET = 512"
definition EFLASH_ADDR_STARTUP_BLOCK_OFFSET :: nat where "EFLASH_ADDR_STARTUP_BLOCK_OFFSET = 768"
definition EFLASH_ADDR_BUILD_INFO_OFFSET :: nat where "EFLASH_ADDR_BUILD_INFO_OFFSET = 944"
definition EFLASH_ERASE_AND_RESTORE_OFFSET :: nat where "EFLASH_ERASE_AND_RESTORE_OFFSET = 1020"

definition EFLASH_MAIN_SECTOR_STATUS :: nat where
  "EFLASH_MAIN_SECTOR_STATUS = EFLASH_MAIN_BASE_ADDRESS + EFLASH_ERASE_AND_RESTORE_OFFSET"

lemmas flash_addresses = EFLASH_MAIN_BASE_ADDRESS_def EFLASH_COPY_BASE_ADDRESS_def FLASH_SECTOR_SIZE_def
  FLASH_END_def EFLASH_ADDR_GLOBAL_OFFSET_def EFLASH_ADDR_PARAMETERS_OFFSET_def
  EFLASH_ADDR_STARTUP_BLOCK_OFFSET_def EFLASH_ADDR_BUILD_INFO_OFFSET_def
  EFLASH_ERASE_AND_RESTORE_OFFSET_def EFLASH_MAIN_SECTOR_STATUS_def

text \<open>\<open>eflash_restore_states\<close> of \<open>settings.h\<close>.\<close>

definition MAIN_SECTOR_COPIED :: u32 where "MAIN_SECTOR_COPIED = 0x000000FF"
definition MAIN_SECTOR_ERASED :: u32 where "MAIN_SECTOR_ERASED = 0xFFFFFFFF"
definition MAIN_SECTOR_RESTORED :: u32 where "MAIN_SECTOR_RESTORED = 0x00FFFFFF"
definition COPY_SECTOR_CLEARED :: u32 where "COPY_SECTOR_CLEARED = 0x0000FFFF"

lemmas sector_states = MAIN_SECTOR_COPIED_def MAIN_SECTOR_ERASED_def MAIN_SECTOR_RESTORED_def
  COPY_SECTOR_CLEARED_def

section \<open>Words in memory\<close>

definition byte_of :: "nat \<Rightarrow> u32 \<Rightarrow> u8" where
  "byte_of k w = ucast (drop_bit (8 * k) w)"

definition word_of_bytes :: "u8 \<Rightarrow> u8 \<Rightarrow> u8 \<Rightarrow> u8 \<Rightarrow> u32" where
  "word_of_bytes b0 b1 b2 b3 =
     ucast b0 OR push_bit 8 (ucast b1) OR push_bit 16 (ucast b2) OR push_bit 24 (ucast b3)"

definition mem_word :: "memory \<Rightarrow> nat \<Rightarrow> u32" where
  "mem_word m a = word_of_bytes (m a) (m (a + 1)) (m (a + 2)) (m (a + 3))"

section \<open>Primitive operations\<close>

datatype flash_op = ProgByte nat u8 | ProgWord nat u32 | EraseSector u8

definition sector_base :: "u8 \<Rightarrow> nat" where
  "sector_base s = (if s = MAIN_SECTOR then EFLASH_MAIN_BASE_ADDRESS else EFLASH_COPY_BASE_ADDRESS)"

fun apply_op :: "flash_op \<Rightarrow> memory \<Rightarrow> memory" where
  "apply_op (ProgByte a d) m = m(a := m a AND d)"
| "apply_op (ProgWord a w) m =
     (\<lambda>x. if a \<le> x \<and> x < a + 4 then m x AND byte_of (x - a) w else m x)"
| "apply_op (EraseSector s) m =
     (\<lambda>x. if sector_base s \<le> x \<and> x < sector_base s + FLASH_SECTOR_SIZE then 0xFF else m x)"

record flash =
  mem :: memory
  flog :: "flash_op list"

definition do_op :: "flash_op \<Rightarrow> flash \<Rightarrow> flash" where
  "do_op op f = f\<lparr>mem := apply_op op (mem f), flog := flog f @ [op]\<rparr>"

definition flash_program_byte_private :: "nat \<Rightarrow> u8 \<Rightarrow> flash \<Rightarrow> flash" where
  "flash_program_byte_private address d f = do_op (ProgByte address d) f"

definition flash_program_word_private :: "nat \<Rightarrow> u32 \<Rightarrow> flash \<Rightarrow> flash" where
  "flash_program_word_private address d f = do_op (ProgWord address d) f"

definition flash_erase_sector_private :: "u8 \<Rightarrow> flash \<Rightarrow> flash" where
  "flash_erase_sector_private sector f = do_op (EraseSector sector) f"

section \<open>Operations of flash.c\<close>

definition flash_get_char :: "nat \<Rightarrow> flash \<Rightarrow> u8" where
  "flash_get_char addr f = mem f addr"

definition flash_put_char :: "nat \<Rightarrow> u8 \<Rightarrow> flash \<Rightarrow> flash" where
  "flash_put_char addr new_value f = flash_program_byte_private addr new_value f"

definition checksum_step :: "u8 \<Rightarrow> u8 \<Rightarrow> u8" where
  "checksum_step c d = (push_bit 1 c OR drop_bit 7 c) + d"

fun verify_loop :: "memory \<Rightarrow> nat \<Rightarrow> u8 list \<Rightarrow> u8 \<Rightarrow> u8 \<Rightarrow> bool" where
  "verify_loop m dest [] old_ck new_ck = ((old_ck XOR new_ck) AND new_ck \<noteq> 0)"
| "verify_loop m dest (new # src) old_ck new_ck =
     (if (m dest XOR new) AND new \<noteq> 0 then True
      else verify_loop m (dest + 1) src (checksum_step old_ck (m dest)) (checksum_step new_ck new))"

definition flash_verify_erase_need :: "nat \<Rightarrow> u8 list \<Rightarrow> flash \<Rightarrow> bool" where
  "flash_verify_erase_need dest src f = verify_loop (mem f) dest src 0 0"

fun put_bytes :: "nat \<Rightarrow> u8 list \<Rightarrow> u8 \<Rightarrow> flash \<Rightarrow> flash" where
  "put_bytes dest [] ck f = flash_put_char dest ck f"
| "put_bytes dest (b # src) ck f = put_bytes (dest + 1) src (checksum_step ck b) (flash_put_char dest b f)"

definition memcpy_to_flash_with_checksum :: "nat \<Rightarrow> u8 list \<Rightarrow> flash \<Rightarrow> flash" where
  "memcpy_to_flash_with_checksum dest src f = put_bytes dest src 0 f"

fun get_bytes :: "nat \<Rightarrow> nat \<Rightarrow> u8 \<Rightarrow> flash \<Rightarrow> u8 list \<times> bool" where
  "get_bytes src 0 ck f = ([], ck = flash_get_char src f)"
| "get_bytes src (Suc n) ck f =
     (let d = flash_get_char src f; (ds, ok) = get_bytes (src + 1) n (checksum_step ck d) f in (d # ds, ok))"

definition memcpy_from_flash_with_checksum :: "nat \<Rightarrow> nat \<Rightarrow> flash \<Rightarrow> u8 list \<times> bool" where
  "memcpy_from_flash_with_checksum src sz f = get_bytes src sz 0 f"

definition update_main_sector_status :: "u32 \<Rightarrow> flash \<Rightarrow> flash" where
  "update_main_sector_status s f = flash_program_word_private EFLASH_MAIN_SECTOR_STATUS s f"

definition delete_main_sector :: "flash \<Rightarrow> flash" where
  "delete_main_sector f = flash_erase_sector_private MAIN_SECTOR f"

definition delete_copy_sector :: "flash \<Rightarrow> flash" where
  "delete_copy_sector f = flash_erase_sector_private COPY_SECTOR f"

function copy_words :: "nat \<Rightarrow> nat \<Rightarrow> nat \<Rightarrow> flash \<Rightarrow> flash option" where
  "copy_words start stop i f =
     (if start + 4 * i < stop then
        if start + 4 * i + EFLASH_MAIN_BASE_ADDRESS + 3 < FLASH_END
           \<and> start + 4 * i + EFLASH_COPY_BASE_ADDRESS + 3 < FLASH_END
        then copy_words start stop (i + 1)
               (flash_program_word_private (start + 4 * i + EFLASH_COPY_BASE_ADDRESS)
                 (mem_word (mem f) (start + EFLASH_MAIN_BASE_ADDRESS + 4 * i)) f)
        else None
      else Some f)"
  by pat_completeness auto
termination by (relation "measure (\<lambda>(start, stop, i, f). stop - (start + 4 * i))") auto

declare copy_words.simps [simp del]

definition copy_from_main_to_copy :: "nat \<Rightarrow> nat \<Rightarrow> flash \<Rightarrow> flash option" where
  "copy_from_main_to_copy start_address_offset end_address_offset f =
     copy_words start_address_offset end_address_offset 0 f"

fun restore_words :: "nat \<Rightarrow> flash \<Rightarrow> flash" where
  "restore_words 0 f = f"
| "restore_words (Suc i) f =
     (let f = restore_words i f in
      flash_program_word_private (4 * i + EFLASH_MAIN_BASE_ADDRESS)
        (mem_word (mem f) (EFLASH_COPY_BASE_ADDRESS + 4 * i)) f)"

text \<open>The loop counts words up to \<open>EFLASH_ERASE_AND_RESTORE_OFFSET\<close>, a number of bytes.\<close>

definition restore_main_sector :: "flash \<Rightarrow> flash" where
  "restore_main_sector f = restore_words EFLASH_ERASE_AND_RESTORE_OFFSET f"

definition finish_restore :: "flash \<Rightarrow> flash" where
  "finish_restore f = update_main_sector_status COPY_SECTOR_CLEARED (delete_copy_sector f)"

definition restore_default_sector_status :: "flash \<Rightarrow> flash" where
  "restore_default_sector_status f =
     (let status = mem_word (mem f) EFLASH_MAIN_SECTOR_STATUS in
      if status = MAIN_SECTOR_COPIED then finish_restore (restore_main_sector (delete_main_sector f))
      else if status = MAIN_SECTOR_ERASED then finish_restore (restore_main_sector f)
      else if status = MAIN_SECTOR_RESTORED then finish_restore f
      else if status = COPY_SECTOR_CLEARED then f
      else delete_copy_sector (delete_main_sector f))"

section \<open>Memory facts\<close>

named_theorems flash_ops \<open>unfolding the operations to primitive ones\<close>

declare flash_program_byte_private_def [flash_ops] flash_program_word_private_def [flash_ops]
  flash_erase_sector_private_def [flash_ops] flash_put_char_def [flash_ops]
  update_main_sector_status_def [flash_ops] delete_main_sector_def [flash_ops]
  delete_copy_sector_def [flash_ops]

lemma mem_do_op [simp]: "mem (do_op op f) = apply_op op (mem f)"
  by (simp add: do_op_def)

lemma flog_do_op [simp]: "flog (do_op op f) = flog f @ [op]"
  by (simp add: do_op_def)

lemma byte_of_word_of_bytes:
  "byte_of 0 (word_of_bytes b0 b1 b2 b3) = b0" "byte_of 1 (word_of_bytes b0 b1 b2 b3) = b1"
  "byte_of 2 (word_of_bytes b0 b1 b2 b3) = b2" "byte_of 3 (word_of_bytes b0 b1 b2 b3) = b3"
  by (rule bit_word_eqI; auto simp: byte_of_def word_of_bytes_def bit_simps dest: bit_imp_le_length)+

lemma word_of_bytes_of: "word_of_bytes (byte_of 0 w) (byte_of 1 w) (byte_of 2 w) (byte_of 3 w) = w"
proof (rule bit_word_eqI)
  fix n assume n: "n < LENGTH(32)"
  consider "n < 8" | "8 \<le> n" "n < 16" | "16 \<le> n" "n < 24" | "24 \<le> n" by linarith
  then show "bit (word_of_bytes (byte_of 0 w) (byte_of 1 w) (byte_of 2 w) (byte_of 3 w)) n = bit w n"
    using n by cases (auto simp: byte_of_def word_of_bytes_def bit_simps dest: bit_imp_le_length)
qed

lemma byte_of_mem_word: "k < 4 \<Longrightarrow> byte_of k (mem_word m a) = m (a + k)"
proof -
  assume "k < 4"
  then have "k = 0 \<or> k = 1 \<or> k = 2 \<or> k = 3" by auto
  then show ?thesis using byte_of_word_of_bytes by (auto simp: mem_word_def simp del: One_nat_def)
qed

lemma mem_word_cong: "(\<And>x. a \<le> x \<Longrightarrow> x < a + 4 \<Longrightarrow> m x = m' x) \<Longrightarrow> mem_word m a = mem_word m' a"
  by (simp add: mem_word_def)

text \<open>Copying a word programs each byte with the byte it comes from.\<close>

lemma apply_op_copy_word:
  "apply_op (ProgWord a (mem_word m' b)) m =
     (\<lambda>x. if a \<le> x \<and> x < a + 4 then m x AND m' (b + (x - a)) else m x)"
  by (rule ext) (auto simp: byte_of_mem_word)

lemma and_FF [simp]: "0xFF AND a = a" "a AND 0xFF = a" for a :: u8
proof -
  have "(0xFF :: u8) = - 1" by simp
  then show "0xFF AND a = a" "a AND 0xFF = a" by (simp_all only: and.left_neutral and.right_neutral)
qed

text \<open>What \<open>flash_verify_erase_need\<close> tests for a byte: programming would lose a set bit.\<close>

lemma loses_bit_iff: "((x XOR y) AND y \<noteq> 0) \<longleftrightarrow> x AND y \<noteq> y" for x y :: u8
proof -
  have "((x XOR y) AND y = 0) \<longleftrightarrow> (\<forall>n<8. bit y n \<longrightarrow> bit x n)"
    by (auto simp: bit_eq_iff bit_simps)
  moreover have "(x AND y = y) \<longleftrightarrow> (\<forall>n<8. bit y n \<longrightarrow> bit x n)"
    by (auto simp: bit_eq_iff bit_simps)
  ultimately show ?thesis by blast
qed

section \<open>Storing and reading payloads\<close>

definition mem_bytes :: "memory \<Rightarrow> nat \<Rightarrow> nat \<Rightarrow> u8 list" where
  "mem_bytes m a n = map (\<lambda>i. m (a + i)) [0..<n]"

definition checksum :: "u8 list \<Rightarrow> u8" where
  "checksum ds = foldl checksum_step 0 ds"

lemma mem_bytes_simps [simp]:
  "length (mem_bytes m a n) = n" "mem_bytes m a 0 = []" "i < n \<Longrightarrow> mem_bytes m a n ! i = m (a + i)"
  by (simp_all add: mem_bytes_def)

lemma mem_bytes_Suc: "mem_bytes m a (Suc n) = m a # mem_bytes m (a + 1) n"
  by (simp add: mem_bytes_def upt_conv_Cons map_Suc_upt [symmetric] del: upt_Suc)

lemma mem_bytes_cong: "(\<And>x. a \<le> x \<Longrightarrow> x < a + n \<Longrightarrow> m x = m' x) \<Longrightarrow> mem_bytes m a n = mem_bytes m' a n"
  by (simp add: mem_bytes_def)

lemma mem_bytes_eqI: "length ds = n \<Longrightarrow> (\<And>i. i < n \<Longrightarrow> m (a + i) = ds ! i) \<Longrightarrow> mem_bytes m a n = ds"
  by (rule nth_equalityI) simp_all

lemma get_bytes_eq:
  "get_bytes a n ck f = (mem_bytes (mem f) a n, foldl checksum_step ck (mem_bytes (mem f) a n) = mem f (a + n))"
  by (induction n arbitrary: a ck) (simp_all add: flash_get_char_def mem_bytes_Suc Let_def)

lemma memcpy_from_eq:
  "memcpy_from_flash_with_checksum a n f =
     (mem_bytes (mem f) a n, checksum (mem_bytes (mem f) a n) = mem f (a + n))"
  by (simp add: memcpy_from_flash_with_checksum_def get_bytes_eq checksum_def)

lemma put_bytes_mem:
  "mem (put_bytes a ds ck f) x =
     (if a \<le> x \<and> x < a + length ds then mem f x AND ds ! (x - a)
      else if x = a + length ds then mem f x AND foldl checksum_step ck ds else mem f x)"
proof (induction ds arbitrary: a ck f)
  case (Cons d ds)
  have "x - a = Suc (x - Suc a)" if "Suc a \<le> x" using that by simp
  then show ?case by (auto simp: Cons.IH flash_ops)
qed (auto simp: flash_ops)

lemma memcpy_to_mem:
  "mem (memcpy_to_flash_with_checksum a ds f) x =
     (if a \<le> x \<and> x < a + length ds then mem f x AND ds ! (x - a)
      else if x = a + length ds then mem f x AND checksum ds else mem f x)"
  by (simp add: memcpy_to_flash_with_checksum_def put_bytes_mem checksum_def)

definition programmable :: "memory \<Rightarrow> nat \<Rightarrow> u8 list \<Rightarrow> bool" where
  "programmable m a ds = (\<forall>i < length ds. m (a + i) AND ds ! i = ds ! i)"

lemma verify_loop_iff:
  "verify_loop m a ds oc nc \<longleftrightarrow> \<not> (programmable m a ds \<and>
     foldl checksum_step oc (mem_bytes m a (length ds)) AND foldl checksum_step nc ds = foldl checksum_step nc ds)"
proof (induction ds arbitrary: a oc nc)
  case (Cons d ds)
  have "programmable m a (d # ds) \<longleftrightarrow> m a AND d = d \<and> programmable m (a + 1) ds"
    by (auto simp: programmable_def nth_Cons less_Suc_eq_0_disj)
  then show ?case
    using Cons.IH [of "a + 1"] by (simp add: loses_bit_iff mem_bytes_Suc del: One_nat_def)
qed (simp add: programmable_def loses_bit_iff)

text \<open>
  C32: \<open>flash_verify_erase_need\<close> is exact: it returns 0 exactly when programming the payload and its
  checksum over a valid slot, without an erase, stores them; and then reading gives the payload back.
\<close>

theorem verify_erase_need_exact:
  assumes "checksum (mem_bytes (mem f) a (length ds)) = mem f (a + length ds)"
  shows "\<not> flash_verify_erase_need a ds f \<longleftrightarrow>
    memcpy_from_flash_with_checksum a (length ds) (memcpy_to_flash_with_checksum a ds f) = (ds, True)"
proof -
  let ?f = "memcpy_to_flash_with_checksum a ds f"
  have "mem_bytes (mem ?f) a (length ds) = ds \<longleftrightarrow> programmable (mem f) a ds"
    by (auto simp: list_eq_iff_nth_eq programmable_def memcpy_to_mem)
  moreover have "mem ?f (a + length ds) = mem f (a + length ds) AND checksum ds"
    by (simp add: memcpy_to_mem)
  ultimately show ?thesis
    using assms by (auto simp: flash_verify_erase_need_def verify_loop_iff memcpy_from_eq checksum_def)
qed

theorem verify_erase_need_exact_witness:
  "let f = \<lparr>mem = (\<lambda>a. if a = 2 then 0xFE else 0xFF), flog = []\<rparr> in
    \<not> flash_verify_erase_need 0 [7, 2] f \<and>
    memcpy_from_flash_with_checksum 0 2 (memcpy_to_flash_with_checksum 0 [7, 2] f) = ([7, 2], True)"
proof -
  let ?f = "\<lparr>mem = (\<lambda>a. if a = 2 then 0xFE else 0xFF), flog = []\<rparr>"
  have l: "length [7::u8, 2] = 2" by simp
  have "checksum (mem_bytes (mem ?f) 0 2) = mem ?f 2" by code_simp
  moreover have "\<not> flash_verify_erase_need 0 [7, 2] ?f" by code_simp
  ultimately show ?thesis using verify_erase_need_exact [of ?f 0 "[7, 2]"] by (simp only: l Let_def add_0)
qed

lemma memcpy_read_back:
  assumes "programmable (mem f) a ds" "mem f (a + length ds) AND checksum ds = checksum ds"
  shows "memcpy_from_flash_with_checksum a (length ds) (memcpy_to_flash_with_checksum a ds f) = (ds, True)"
proof -
  have "mem_bytes (mem (memcpy_to_flash_with_checksum a ds f)) a (length ds) = ds"
    using assms(1) by (intro mem_bytes_eqI) (simp_all add: programmable_def memcpy_to_mem)
  then show ?thesis using assms(2) by (simp add: memcpy_from_eq memcpy_to_mem)
qed

section \<open>The two sectors\<close>

abbreviation MB :: nat where "MB \<equiv> EFLASH_MAIN_BASE_ADDRESS"
abbreviation CB :: nat where "CB \<equiv> EFLASH_COPY_BASE_ADDRESS"

definition replay :: "flash_op list \<Rightarrow> memory \<Rightarrow> memory" where
  "replay ops m = fold apply_op ops m"

text \<open>\<open>f'\<close> is reached from \<open>f\<close> by the primitive operations \<open>ops\<close>.\<close>

definition extends :: "flash_op list \<Rightarrow> flash \<Rightarrow> flash \<Rightarrow> bool" where
  "extends ops f f' = (flog f' = flog f @ ops \<and> mem f' = replay ops (mem f))"

lemma extends_refl: "extends [] f f"
  by (simp add: extends_def replay_def)

lemma extends_trans: "extends ops f f' \<Longrightarrow> extends ops' f' f'' \<Longrightarrow> extends (ops @ ops') f f''"
  by (simp add: extends_def replay_def)

lemma extends_do_op: "extends [op] f (do_op op f)"
  by (simp add: extends_def replay_def)

text \<open>The operations that only touch the first 1020 bytes of the copy sector, or erase it.\<close>

fun copy_op :: "flash_op \<Rightarrow> bool" where
  "copy_op (ProgByte a d) = (CB \<le> a \<and> a < CB + EFLASH_ERASE_AND_RESTORE_OFFSET)"
| "copy_op (ProgWord a w) = (CB \<le> a \<and> a + 4 \<le> CB + EFLASH_ERASE_AND_RESTORE_OFFSET)"
| "copy_op (EraseSector s) = (s = COPY_SECTOR)"

lemma copy_op_main:
  "copy_op op \<Longrightarrow> x < CB \<Longrightarrow> apply_op op m x = m x"
  by (cases op) (auto simp: sector_base_def MAIN_SECTOR_def COPY_SECTOR_def)

lemma copy_ops_main:
  "list_all copy_op ops \<Longrightarrow> x < CB \<Longrightarrow> replay ops m x = m x"
  by (induction ops arbitrary: m) (auto simp: replay_def copy_op_main)

lemma copy_op_tail:
  "copy_op op \<Longrightarrow> CB + EFLASH_ERASE_AND_RESTORE_OFFSET \<le> x \<Longrightarrow> x < CB + FLASH_SECTOR_SIZE \<Longrightarrow> m x = 0xFF
   \<Longrightarrow> apply_op op m x = 0xFF"
  by (cases op) auto

lemma copy_ops_tail:
  "list_all copy_op ops \<Longrightarrow> CB + EFLASH_ERASE_AND_RESTORE_OFFSET \<le> x \<Longrightarrow> x < CB + FLASH_SECTOR_SIZE \<Longrightarrow>
   m x = 0xFF \<Longrightarrow> replay ops m x = 0xFF"
  by (induction ops arbitrary: m) (auto simp: replay_def copy_op_tail)

lemma put_bytes_extends:
  "\<exists>ops. extends ops f (put_bytes a ds ck f) \<and>
     (CB \<le> a \<and> a + length ds < CB + EFLASH_ERASE_AND_RESTORE_OFFSET \<longrightarrow> list_all copy_op ops)"
proof (induction ds arbitrary: a ck f)
  case Nil
  show ?case
    by (rule exI [of _ "[ProgByte a ck]"]) (simp add: flash_ops extends_do_op)
next
  case (Cons d ds)
  obtain ops where "extends ops (flash_put_char a d f) (put_bytes (a + 1) ds (checksum_step ck d) (flash_put_char a d f))"
    "CB \<le> a + 1 \<and> a + 1 + length ds < CB + EFLASH_ERASE_AND_RESTORE_OFFSET \<longrightarrow> list_all copy_op ops"
    using Cons.IH by blast
  then show ?case
    using extends_trans [OF extends_do_op [of "ProgByte a d" f]]
    by (intro exI [of _ "ProgByte a d # ops"]) (auto simp: flash_ops)
qed

text \<open>What the copy loop does: words \<open>i\<close> to \<open>n\<close> of the main sector are programmed into the copy.\<close>

lemma copy_words_step:
  assumes "start + 4 * i < stop" "start + 4 * i + 4 \<le> FLASH_SECTOR_SIZE"
  shows "copy_words start stop i f = copy_words start stop (i + 1)
      (do_op (ProgWord (start + 4 * i + CB) (mem_word (mem f) (start + MB + 4 * i))) f)"
  using assms by (subst copy_words.simps) (simp add: flash_ops flash_addresses)

lemma copy_words_correct:
  assumes n: "start + 4 * n \<le> EFLASH_ERASE_AND_RESTORE_OFFSET" "stop \<le> start + 4 * n" "\<forall>j<n. start + 4 * j < stop"
    and "i \<le> n"
  shows "\<exists>f' ops. copy_words start stop i f = Some f' \<and> extends ops f f' \<and> list_all copy_op ops \<and>
    (\<forall>x. mem f' x = (if CB + start + 4 * i \<le> x \<and> x < CB + start + 4 * n then mem f x AND mem f (x - CB + MB) else mem f x))"
  using assms(4)
proof (induction "n - i" arbitrary: i f)
  case 0
  then have "copy_words start stop i f = Some f" using n(2) by (subst copy_words.simps) simp
  then show ?case using 0 extends_refl by (intro exI [of _ f] exI [of _ "[]"]) auto
next
  case (Suc k)
  let ?op = "ProgWord (start + 4 * i + CB) (mem_word (mem f) (start + MB + 4 * i))"
  have i: "start + 4 * i < stop" "start + 4 * i + 4 \<le> EFLASH_ERASE_AND_RESTORE_OFFSET"
    using Suc.hyps(2) n by auto
  then have st: "copy_words start stop i f = copy_words start stop (i + 1) (do_op ?op f)"
    by (intro copy_words_step) (simp_all add: flash_addresses)
  obtain f' ops where f': "copy_words start stop (i + 1) (do_op ?op f) = Some f'"
    "extends ops (do_op ?op f) f'" "list_all copy_op ops"
    "\<And>x. mem f' x = (if CB + start + 4 * (i + 1) \<le> x \<and> x < CB + start + 4 * n
        then mem (do_op ?op f) x AND mem (do_op ?op f) (x - CB + MB) else mem (do_op ?op f) x)"
    using Suc.hyps(1) [of "i + 1" "do_op ?op f"] Suc.hyps(2) by force
  have "mem f' x = (if CB + start + 4 * i \<le> x \<and> x < CB + start + 4 * n then mem f x AND mem f (x - CB + MB) else mem f x)" for x
  proof -
    have o: "mem (do_op ?op f) = (\<lambda>x. if start + 4 * i + CB \<le> x \<and> x < start + 4 * i + CB + 4
        then mem f x AND mem f (start + MB + 4 * i + (x - (start + 4 * i + CB))) else mem f x)"
      by (simp only: mem_do_op apply_op_copy_word)
    show ?thesis
      using n Suc.hyps(2) unfolding f'(4) o by (auto simp: flash_addresses algebra_simps)
  qed
  moreover have "list_all copy_op (?op # ops)" using f'(3) i by simp
  moreover have "extends (?op # ops) f f'" using extends_trans [OF extends_do_op f'(2)] by simp
  ultimately show ?case using st f'(1) by metis
qed

lemma copy_from_main_to_copy_correct:
  assumes "start + 4 * n \<le> EFLASH_ERASE_AND_RESTORE_OFFSET" "stop \<le> start + 4 * n" "\<forall>j<n. start + 4 * j < stop"
  shows "\<exists>f' ops. copy_from_main_to_copy start stop f = Some f' \<and> extends ops f f' \<and> list_all copy_op ops \<and>
    (\<forall>x. mem f' x = (if CB + start \<le> x \<and> x < CB + start + 4 * n then mem f x AND mem f (x - CB + MB) else mem f x))"
  using copy_words_correct [OF assms, of 0 f] by (simp add: copy_from_main_to_copy_def)

text \<open>The restore loop.\<close>

definition restore_ops :: "memory \<Rightarrow> nat \<Rightarrow> flash_op list" where
  "restore_ops m n = map (\<lambda>i. ProgWord (4 * i + MB) (mem_word m (CB + 4 * i))) [0..<n]"

lemma restore_words_correct:
  assumes "4 * n \<le> FLASH_SECTOR_SIZE"
  shows "extends (restore_ops (mem f) n) f (restore_words n f)"
    and "mem (restore_words n f) x = (if MB \<le> x \<and> x < MB + 4 * n then mem f x AND mem f (CB + (x - MB)) else mem f x)"
proof -
  have "extends (restore_ops (mem f) n) f (restore_words n f) \<and>
    (\<forall>x. mem (restore_words n f) x = (if MB \<le> x \<and> x < MB + 4 * n then mem f x AND mem f (CB + (x - MB)) else mem f x))"
    using assms
  proof (induction n)
    case 0
    then show ?case by (auto simp: extends_refl restore_ops_def)
  next
    case (Suc n)
    let ?g = "restore_words n f"
    have ih: "extends (restore_ops (mem f) n) f ?g"
      "\<And>x. mem ?g x = (if MB \<le> x \<and> x < MB + 4 * n then mem f x AND mem f (CB + (x - MB)) else mem f x)"
      using Suc by auto
    have w: "mem_word (mem ?g) (CB + 4 * n) = mem_word (mem f) (CB + 4 * n)"
      using Suc.prems by (intro mem_word_cong) (auto simp: ih(2) flash_addresses)
    let ?op = "ProgWord (4 * n + MB) (mem_word (mem f) (CB + 4 * n))"
    have s: "restore_words (Suc n) f = do_op ?op ?g" by (simp add: Let_def flash_ops w)
    have "mem (restore_words (Suc n) f) x
        = (if MB \<le> x \<and> x < MB + 4 * Suc n then mem f x AND mem f (CB + (x - MB)) else mem f x)" for x
      unfolding s by (auto simp: apply_op_copy_word ih(2) algebra_simps simp del: apply_op.simps)
    moreover have "extends (restore_ops (mem f) (Suc n)) f (restore_words (Suc n) f)"
      using extends_trans [OF ih(1) extends_do_op [of ?op]] unfolding s by (simp add: restore_ops_def)
    ultimately show ?case by blast
  qed
  then show "extends (restore_ops (mem f) n) f (restore_words n f)"
    and "mem (restore_words n f) x = (if MB \<le> x \<and> x < MB + 4 * n then mem f x AND mem f (CB + (x - MB)) else mem f x)"
    by blast+
qed

section \<open>The status word and the recovery\<close>

declare apply_op.simps [simp del]

lemmas op_mem = apply_op.simps sector_base_def MAIN_SECTOR_def COPY_SECTOR_def

lemma byte_of_eqI: "(\<And>k. k < 4 \<Longrightarrow> byte_of k v = byte_of k w) \<Longrightarrow> v = w"
proof -
  assume h: "\<And>k. k < 4 \<Longrightarrow> byte_of k v = byte_of k w"
  have "word_of_bytes (byte_of 0 v) (byte_of 1 v) (byte_of 2 v) (byte_of 3 v)
      = word_of_bytes (byte_of 0 w) (byte_of 1 w) (byte_of 2 w) (byte_of 3 w)"
    using h [of 0] h [of 1] h [of 2] h [of 3] by simp
  then show ?thesis by (simp only: word_of_bytes_of)
qed

lemma byte_of_and: "byte_of k (v AND w) = byte_of k v AND byte_of k w"
  unfolding byte_of_def by (rule bit_word_eqI) (auto simp: bit_simps dest: bit_imp_le_length)

lemma mem_word_prog: "mem_word (apply_op (ProgWord a w) m) a = mem_word m a AND w"
  by (rule byte_of_eqI) (simp add: byte_of_mem_word byte_of_and op_mem)

definition sector_status :: "memory \<Rightarrow> u32" where
  "sector_status m = mem_word m EFLASH_MAIN_SECTOR_STATUS"

abbreviation set_status :: "u32 \<Rightarrow> memory \<Rightarrow> memory" where
  "set_status w m \<equiv> apply_op (ProgWord EFLASH_MAIN_SECTOR_STATUS w) m"

definition restore_mem :: "nat \<Rightarrow> memory \<Rightarrow> memory" where
  "restore_mem n m = (\<lambda>x. if MB \<le> x \<and> x < MB + 4 * n then m x AND m (CB + (x - MB)) else m x)"

definition finish_mem :: "memory \<Rightarrow> memory" where
  "finish_mem m = set_status COPY_SECTOR_CLEARED (apply_op (EraseSector COPY_SECTOR) m)"

definition recover :: "memory \<Rightarrow> memory" where
  "recover m = mem (restore_default_sector_status \<lparr>mem = m, flog = []\<rparr>)"

lemma restore_words_mem: "4 * n \<le> FLASH_SECTOR_SIZE \<Longrightarrow> mem (restore_words n f) = restore_mem n (mem f)"
  by (rule ext) (simp add: restore_words_correct(2) restore_mem_def)

lemma restore_status_mem:
  "mem (restore_default_sector_status f) =
     (let m = mem f; s = sector_status m; n = EFLASH_ERASE_AND_RESTORE_OFFSET in
      if s = MAIN_SECTOR_COPIED then finish_mem (restore_mem n (apply_op (EraseSector MAIN_SECTOR) m))
      else if s = MAIN_SECTOR_ERASED then finish_mem (restore_mem n m)
      else if s = MAIN_SECTOR_RESTORED then finish_mem m
      else if s = COPY_SECTOR_CLEARED then m
      else apply_op (EraseSector COPY_SECTOR) (apply_op (EraseSector MAIN_SECTOR) m))"
proof -
  have n: "4 * EFLASH_ERASE_AND_RESTORE_OFFSET \<le> FLASH_SECTOR_SIZE" by (simp add: flash_addresses)
  show ?thesis
    by (simp add: restore_default_sector_status_def sector_status_def Let_def finish_restore_def finish_mem_def
        restore_main_sector_def restore_words_mem [OF n] flash_ops)
qed

lemma recover_def2: "recover m = mem (restore_default_sector_status \<lparr>mem = m, flog = l\<rparr>)"
  by (simp add: recover_def restore_status_mem)

lemma sector_statusI:
  "(\<And>x. x \<in> {EFLASH_MAIN_SECTOR_STATUS..<EFLASH_MAIN_SECTOR_STATUS + 4} \<Longrightarrow> m x = 0xFF) \<Longrightarrow>
   sector_status m = MAIN_SECTOR_ERASED"
  by (simp add: sector_status_def mem_word_def word_of_bytes_def MAIN_SECTOR_ERASED_def)

lemma sector_status_set: "sector_status (set_status w m) = sector_status m AND w"
  unfolding sector_status_def by (rule mem_word_prog)

lemma set_status_other:
  "x < EFLASH_MAIN_SECTOR_STATUS \<or> EFLASH_MAIN_SECTOR_STATUS + 4 \<le> x \<Longrightarrow> set_status w m x = m x"
  by (auto simp: op_mem)

lemma finish_mem_main:
  "x < EFLASH_MAIN_SECTOR_STATUS \<Longrightarrow> finish_mem m x = m x"
  by (simp add: finish_mem_def op_mem flash_addresses)

text \<open>The first 1020 bytes of the two sectors.\<close>

definition main_data :: "memory \<Rightarrow> u8 list" where
  "main_data m = mem_bytes m MB EFLASH_ERASE_AND_RESTORE_OFFSET"

definition copy_data :: "memory \<Rightarrow> u8 list" where
  "copy_data m = mem_bytes m CB EFLASH_ERASE_AND_RESTORE_OFFSET"

lemma main_data_eqI: "(\<And>i. i < EFLASH_ERASE_AND_RESTORE_OFFSET \<Longrightarrow> m (MB + i) = m' (MB + i)) \<Longrightarrow> main_data m = main_data m'"
  by (simp add: main_data_def mem_bytes_def)

lemma main_copy_eqI: "(\<And>i. i < EFLASH_ERASE_AND_RESTORE_OFFSET \<Longrightarrow> m (MB + i) = m' (CB + i)) \<Longrightarrow> main_data m = copy_data m'"
  by (simp add: main_data_def copy_data_def mem_bytes_def)

text \<open>The copy sector is complete and the main sector still holds the old data.\<close>

definition staged :: "memory \<Rightarrow> bool" where
  "staged m = (sector_status m = COPY_SECTOR_CLEARED \<and>
     (\<forall>x. CB + EFLASH_ERASE_AND_RESTORE_OFFSET \<le> x \<and> x < CB + FLASH_SECTOR_SIZE \<longrightarrow> m x = 0xFF))"

text \<open>A memory met while the main sector is rewritten from \<open>m\<close>: \<open>j\<close> words are restored.\<close>

abbreviation restoring :: "nat \<Rightarrow> memory \<Rightarrow> memory" where
  "restoring j m \<equiv> restore_mem j (apply_op (EraseSector MAIN_SECTOR) (set_status MAIN_SECTOR_COPIED m))"

lemma restoring_copy: "CB \<le> x \<Longrightarrow> j \<le> EFLASH_ERASE_AND_RESTORE_OFFSET \<Longrightarrow> restoring j m x = m x"
  by (auto simp: restore_mem_def op_mem flash_addresses)

lemma restoring_main:
  "i < FLASH_SECTOR_SIZE \<Longrightarrow> j \<le> EFLASH_ERASE_AND_RESTORE_OFFSET \<Longrightarrow>
   restoring j m (MB + i) = (if i < 4 * j then m (CB + i) else 0xFF)"
  by (auto simp: restore_mem_def op_mem flash_addresses)

lemma restoring_status:
  assumes "staged m" "j \<le> EFLASH_ERASE_AND_RESTORE_OFFSET"
  shows "sector_status (restoring j m) = MAIN_SECTOR_ERASED"
proof (rule sector_statusI)
  fix x assume x: "x \<in> {EFLASH_MAIN_SECTOR_STATUS..<EFLASH_MAIN_SECTOR_STATUS + 4}"
  define i where "i = x - MB"
  have i: "x = MB + i" "EFLASH_ERASE_AND_RESTORE_OFFSET \<le> i" "i < FLASH_SECTOR_SIZE"
    using x by (auto simp: i_def flash_addresses)
  have "m (CB + i) = 0xFF" using assms(1) i by (simp add: staged_def)
  then show "restoring j m x = 0xFF" using i assms(2) by (simp add: restoring_main)
qed

lemma recover_copied:
  assumes "staged m"
  shows "main_data (recover (set_status MAIN_SECTOR_COPIED m)) = copy_data m"
proof (rule main_copy_eqI)
  fix i assume i: "i < EFLASH_ERASE_AND_RESTORE_OFFSET"
  have "sector_status (set_status MAIN_SECTOR_COPIED m) = MAIN_SECTOR_COPIED"
    using assms by (simp add: sector_status_set staged_def sector_states)
  then have "recover (set_status MAIN_SECTOR_COPIED m) = finish_mem (restoring EFLASH_ERASE_AND_RESTORE_OFFSET m)"
    by (simp add: recover_def restore_status_mem)
  moreover have "restoring EFLASH_ERASE_AND_RESTORE_OFFSET m (MB + i) = m (CB + i)"
    using i by (subst restoring_main) (simp_all add: flash_addresses)
  ultimately show "recover (set_status MAIN_SECTOR_COPIED m) (MB + i) = m (CB + i)"
    using i by (simp add: finish_mem_main flash_addresses)
qed

lemma recover_erased:
  assumes "sector_status m = MAIN_SECTOR_ERASED" "i < EFLASH_ERASE_AND_RESTORE_OFFSET"
  shows "recover m (MB + i) = m (MB + i) AND m (CB + i)"
proof -
  have "recover m = finish_mem (restore_mem EFLASH_ERASE_AND_RESTORE_OFFSET m)"
    using assms(1) by (simp add: recover_def restore_status_mem sector_states)
  then show ?thesis
    using assms(2) by (simp add: finish_mem_main flash_addresses) (simp add: restore_mem_def flash_addresses)
qed

lemma recover_restoring:
  assumes "staged m" "j \<le> EFLASH_ERASE_AND_RESTORE_OFFSET"
  shows "main_data (recover (restoring j m)) = copy_data m"
proof (rule main_copy_eqI)
  fix i assume i: "i < EFLASH_ERASE_AND_RESTORE_OFFSET"
  then have "i < FLASH_SECTOR_SIZE" by (simp add: flash_addresses)
  then show "recover (restoring j m) (MB + i) = m (CB + i)"
    using recover_erased [OF restoring_status [OF assms] i] assms(2) restoring_copy [of "CB + i" j m]
    by (simp add: restoring_main)
qed

lemma recover_copy_erased:
  assumes "staged m"
  shows "main_data (recover (apply_op (EraseSector COPY_SECTOR) (restoring EFLASH_ERASE_AND_RESTORE_OFFSET m))) = copy_data m"
    (is "main_data (recover ?m) = _")
proof (rule main_copy_eqI)
  let ?r = "restoring EFLASH_ERASE_AND_RESTORE_OFFSET m"
  fix i assume i: "i < EFLASH_ERASE_AND_RESTORE_OFFSET"
  have lo: "?m x = ?r x" if "x < CB" for x
    using that by (simp add: op_mem)
  have "sector_status ?m = sector_status ?r"
    unfolding sector_status_def by (rule mem_word_cong, rule lo) (simp add: flash_addresses)
  then have "sector_status ?m = MAIN_SECTOR_ERASED" using restoring_status [OF assms] by simp
  from recover_erased [OF this i]
  have "recover ?m (MB + i) = ?m (MB + i) AND ?m (CB + i)" .
  moreover have "?m (CB + i) = 0xFF"
    using i by (simp add: op_mem flash_addresses)
  moreover have "?m (MB + i) = ?r (MB + i)" using i by (intro lo) (simp add: flash_addresses)
  moreover have "?r (MB + i) = m (CB + i)" using i by (subst restoring_main) (simp_all add: flash_addresses)
  ultimately show "recover ?m (MB + i) = m (CB + i)" by simp
qed

lemma recover_done:
  assumes "staged m"
  shows "sector_status (finish_mem (restoring EFLASH_ERASE_AND_RESTORE_OFFSET m)) = COPY_SECTOR_CLEARED"
    and "main_data (recover (finish_mem (restoring EFLASH_ERASE_AND_RESTORE_OFFSET m))) = copy_data m"
proof -
  let ?r = "restoring EFLASH_ERASE_AND_RESTORE_OFFSET m"
  let ?m = "apply_op (EraseSector COPY_SECTOR) ?r"
  have "sector_status ?m = sector_status ?r"
    unfolding sector_status_def
    by (rule mem_word_cong) (simp add: op_mem flash_addresses)
  then have "sector_status ?m = MAIN_SECTOR_ERASED" using restoring_status [OF assms] by simp
  then show st: "sector_status (finish_mem ?r) = COPY_SECTOR_CLEARED"
    unfolding finish_mem_def sector_status_set by (simp add: sector_states)
  show "main_data (recover (finish_mem ?r)) = copy_data m"
  proof (rule main_copy_eqI)
    fix i assume i: "i < EFLASH_ERASE_AND_RESTORE_OFFSET"
    have "recover (finish_mem ?r) = finish_mem ?r"
      using st by (simp add: recover_def restore_status_mem sector_states)
    moreover have "?r (MB + i) = m (CB + i)" using i by (subst restoring_main) (simp_all add: flash_addresses)
    ultimately show "recover (finish_mem ?r) (MB + i) = m (CB + i)"
      using i by (simp add: finish_mem_main flash_addresses)
  qed
qed

section \<open>Loss of power while a sector is rewritten\<close>

text \<open>The end of every write that needs an erase: mark the copy complete and restore from it.\<close>

definition commit_copy :: "flash \<Rightarrow> flash" where
  "commit_copy f = restore_default_sector_status (update_main_sector_status MAIN_SECTOR_COPIED f)"

definition commit_ops :: "memory \<Rightarrow> flash_op list" where
  "commit_ops m = [ProgWord EFLASH_MAIN_SECTOR_STATUS MAIN_SECTOR_COPIED, EraseSector MAIN_SECTOR]
     @ restore_ops (apply_op (EraseSector MAIN_SECTOR) (set_status MAIN_SECTOR_COPIED m)) EFLASH_ERASE_AND_RESTORE_OFFSET
     @ [EraseSector COPY_SECTOR, ProgWord EFLASH_MAIN_SECTOR_STATUS COPY_SECTOR_CLEARED]"

lemma replay_append [simp]: "replay (xs @ ys) m = replay ys (replay xs m)"
  "replay [] m = m" "replay (op # ys) m = replay ys (apply_op op m)"
  by (simp_all add: replay_def)

lemma replay_restore_ops:
  "4 * n \<le> FLASH_SECTOR_SIZE \<Longrightarrow> replay (restore_ops m n) m = restore_mem n m"
  using restore_words_correct(1) [of n "\<lparr>mem = m, flog = []\<rparr>"] restore_words_mem [of n "\<lparr>mem = m, flog = []\<rparr>"]
  by (simp add: extends_def)

lemma take_restore_ops: "i \<le> n \<Longrightarrow> take i (restore_ops m n) = restore_ops m i"
  by (simp add: restore_ops_def take_map)

lemma commit_copy_extends:
  assumes "staged (mem f)"
  shows "extends (commit_ops (mem f)) f (commit_copy f)"
    and "mem (commit_copy f) = finish_mem (restoring EFLASH_ERASE_AND_RESTORE_OFFSET (mem f))"
proof -
  let ?n = EFLASH_ERASE_AND_RESTORE_OFFSET
  have n: "4 * ?n \<le> FLASH_SECTOR_SIZE" by (simp add: flash_addresses)
  let ?f1 = "do_op (ProgWord EFLASH_MAIN_SECTOR_STATUS MAIN_SECTOR_COPIED) f"
  let ?f2 = "do_op (EraseSector MAIN_SECTOR) ?f1"
  let ?f4 = "do_op (EraseSector COPY_SECTOR) (restore_words ?n ?f2)"
  have st: "mem_word (mem ?f1) EFLASH_MAIN_SECTOR_STATUS = MAIN_SECTOR_COPIED"
    using assms by (simp add: mem_word_prog staged_def sector_status_def sector_states)
  have c: "commit_copy f = do_op (ProgWord EFLASH_MAIN_SECTOR_STATUS COPY_SECTOR_CLEARED) ?f4"
    using st by (simp add: commit_copy_def restore_default_sector_status_def finish_restore_def
        restore_main_sector_def flash_ops Let_def)
  have "extends ([ProgWord EFLASH_MAIN_SECTOR_STATUS MAIN_SECTOR_COPIED] @ [EraseSector MAIN_SECTOR]
      @ restore_ops (mem ?f2) ?n @ [EraseSector COPY_SECTOR] @ [ProgWord EFLASH_MAIN_SECTOR_STATUS COPY_SECTOR_CLEARED])
      f (commit_copy f)"
    unfolding c
    by (rule extends_trans [OF extends_do_op extends_trans [OF extends_do_op
          extends_trans [OF restore_words_correct(1) [OF n] extends_trans [OF extends_do_op extends_do_op]]]])
  then show "extends (commit_ops (mem f)) f (commit_copy f)" by (simp add: commit_ops_def)
  show "mem (commit_copy f) = finish_mem (restoring ?n (mem f))"
    by (simp add: c restore_words_mem [OF n] finish_mem_def)
qed

lemma commit_prefix:
  assumes "staged m" "0 < j"
  shows "main_data (recover (replay (take j (commit_ops m)) m)) = copy_data m"
proof -
  let ?n = EFLASH_ERASE_AND_RESTORE_OFFSET
  let ?m = "apply_op (EraseSector MAIN_SECTOR) (set_status MAIN_SECTOR_COPIED m)"
  have len: "length (restore_ops ?m ?n) = ?n" by (simp add: restore_ops_def)
  have n: "4 * i \<le> FLASH_SECTOR_SIZE" if "i \<le> ?n" for i using that by (simp add: flash_addresses)
  consider "j = 1" | i where "j = 2 + i" "i \<le> ?n" | "j = 2 + ?n + 1" | "2 + ?n + 2 \<le> j"
    using assms(2) by (metis One_nat_def Suc_1 Suc_leI add_Suc_right add_leD1 le_Suc_ex le_eq_less_or_eq
        nat_add_left_cancel_le not_less_eq_eq add_2_eq_Suc add.commute)
  then show ?thesis
  proof cases
    case 1
    then show ?thesis using recover_copied [OF assms(1)] by (simp add: commit_ops_def)
  next
    case 2
    then have "replay (take j (commit_ops m)) m = restoring i m"
      by (simp add: commit_ops_def len take_restore_ops replay_restore_ops [OF n])
    then show ?thesis using recover_restoring [OF assms(1) 2(2)] by simp
  next
    case 3
    then have "replay (take j (commit_ops m)) m = apply_op (EraseSector COPY_SECTOR) (restoring ?n m)"
      by (simp add: commit_ops_def len replay_restore_ops [OF n])
    then show ?thesis using recover_copy_erased [OF assms(1)] by simp
  next
    case 4
    then have "take j (commit_ops m) = commit_ops m" by (simp add: commit_ops_def len)
    then have "replay (take j (commit_ops m)) m = finish_mem (restoring ?n m)"
      by (simp add: commit_ops_def replay_restore_ops [OF n] finish_mem_def)
    then show ?thesis using recover_done(2) [OF assms(1)] by simp
  qed
qed

lemma staged_write_power_safe:
  assumes cleared: "sector_status (mem f) = COPY_SECTOR_CLEARED"
    and ext: "extends ops (delete_copy_sector f) g" and cops: "list_all copy_op ops"
  shows "\<exists>all. extends all f (commit_copy g) \<and> main_data (mem (commit_copy g)) = copy_data (mem g)
    \<and> sector_status (mem (commit_copy g)) = COPY_SECTOR_CLEARED
    \<and> (\<forall>k. main_data (recover (replay (take k all) (mem f))) \<in> {main_data (mem f), main_data (mem (commit_copy g))})"
proof -
  let ?A = "EraseSector COPY_SECTOR # ops" and ?B = "commit_ops (mem g)"
  have A: "extends ?A f g" "list_all copy_op ?A"
    using extends_trans [OF extends_do_op ext [unfolded flash_ops]] cops by simp_all
  have g: "mem g = replay ?A (mem f)" using A(1) by (simp add: extends_def)
  have keep: "main_data (recover (replay as (mem f))) = main_data (mem f) \<and>
      sector_status (replay as (mem f)) = COPY_SECTOR_CLEARED" if "list_all copy_op as" for as
  proof -
    have "sector_status (replay as (mem f)) = sector_status (mem f)"
      unfolding sector_status_def by (rule mem_word_cong) (simp add: copy_ops_main that flash_addresses)
    then have s: "sector_status (replay as (mem f)) = COPY_SECTOR_CLEARED" using cleared by simp
    then have "recover (replay as (mem f)) = replay as (mem f)"
      by (simp add: recover_def restore_status_mem sector_states)
    then have "main_data (recover (replay as (mem f))) = main_data (mem f)"
      by (intro main_data_eqI) (simp add: copy_ops_main that flash_addresses)
    then show ?thesis using s by blast
  qed
  have tail: "mem g x = 0xFF" if x: "CB + EFLASH_ERASE_AND_RESTORE_OFFSET \<le> x" "x < CB + FLASH_SECTOR_SIZE" for x
  proof -
    have "apply_op (EraseSector COPY_SECTOR) (mem f) x = 0xFF"
      using x by (simp add: op_mem flash_addresses)
    then show ?thesis unfolding g replay_append by (rule copy_ops_tail [OF cops x])
  qed
  have st: "staged (mem g)"
    using keep [OF A(2)] tail g by (simp add: staged_def)
  note cc = commit_copy_extends [OF st]
  have new: "main_data (mem (commit_copy g)) = copy_data (mem g)"
    and cl: "sector_status (mem (commit_copy g)) = COPY_SECTOR_CLEARED"
  proof -
    show cl: "sector_status (mem (commit_copy g)) = COPY_SECTOR_CLEARED"
      using recover_done(1) [OF st] by (simp add: cc(2))
    then have "recover (mem (commit_copy g)) = mem (commit_copy g)"
      by (simp add: recover_def restore_status_mem sector_states)
    then show "main_data (mem (commit_copy g)) = copy_data (mem g)"
      using recover_done(2) [OF st] by (simp add: cc(2))
  qed
  have "main_data (recover (replay (take k (?A @ ?B)) (mem f))) \<in> {main_data (mem f), main_data (mem (commit_copy g))}" for k
  proof (cases "k \<le> length ?A")
    case True
    then have "take k (?A @ ?B) = take k ?A" by (simp only: take_append) simp
    then have "list_all copy_op (take k (?A @ ?B))"
      using A(2) by (metis in_set_takeD list_all_iff)
    then show ?thesis using keep by blast
  next
    case False
    then obtain j where j: "k = length ?A + j" "0 < j" by (metis less_imp_add_positive not_le)
    then have "replay (take k (?A @ ?B)) (mem f) = replay (take j ?B) (mem g)" by (simp add: g)
    then show ?thesis using commit_prefix [OF st j(2)] new by simp
  qed
  then show ?thesis
    using extends_trans [OF A(1) cc(1)] new cl by blast
qed

end
