(* ===== verification/Float32.thy ===== *)
theory Float32
  imports Prelude
begin

text \<open>
  The floating-point arithmetic the firmware is compiled to: IEEE 754 binary32 (C
  \<open>float\<close>) and binary64 (C \<open>double\<close>, the type of every unsuffixed literal), rounding to
  nearest even, over exact rationals.  A value is a finite rational, the negative zero, an
  infinity or not-a-number, so two floats are the same value exactly when they are equal here.
  The conversions to integers saturate and send not-a-number to 0, as the VCVT instruction of
  the Cortex-M4F does.  The trigonometric functions of libm are parameters of the functions
  that call them.
\<close>

datatype fl = Fin rat | NegZero | Inf bool | NaN

record fformat =
  prec :: nat
  emin :: int
  emax :: int

definition binary32 :: fformat where
  "binary32 = \<lparr>prec = 24, emin = -126, emax = 127\<rparr>"

definition binary64 :: fformat where
  "binary64 = \<lparr>prec = 53, emin = -1022, emax = 1023\<rparr>"

section \<open>Rounding\<close>

function blen :: "int \<Rightarrow> int" where
  "blen n = (if n \<le> 0 then 0 else 1 + blen (n div 2))"
  by pat_completeness auto
termination by (relation "measure nat") auto

declare blen.simps [simp del]

definition pow2 :: "int \<Rightarrow> rat" where
  "pow2 u = (if 0 \<le> u then of_int (2 ^ nat u) else Fract 1 (2 ^ nat (- u)))"

definition ilog2 :: "rat \<Rightarrow> int" where
  "ilog2 q = (let e = (case quotient_of q of (n, d) \<Rightarrow> blen n - blen d) in
     if pow2 e \<le> q then e else e - 1)"

definition round_even :: "rat \<Rightarrow> int" where
  "round_even x = (let f = \<lfloor>x\<rfloor>; r = x - of_int f in
     if r < 1 / 2 \<or> (r = 1 / 2 \<and> even f) then f else f + 1)"

definition ulp_exp :: "fformat \<Rightarrow> rat \<Rightarrow> int" where
  "ulp_exp F q = max (ilog2 \<bar>q\<bar>) (emin F) - (int (prec F) - 1)"

definition fl_round :: "fformat \<Rightarrow> bool \<Rightarrow> rat \<Rightarrow> fl" where
  "fl_round F neg0 q =
     (if q = 0 then (if neg0 then NegZero else Fin 0)
      else let u = ulp_exp F q; v = of_int (round_even (q / pow2 u)) * pow2 u in
        if pow2 (emax F + 1) \<le> \<bar>v\<bar> then Inf (q < 0)
        else if v = 0 \<and> q < 0 then NegZero else Fin v)"

section \<open>Operations\<close>

fun fl_val :: "fl \<Rightarrow> rat" where
  "fl_val (Fin q) = q"
| "fl_val _ = 0"

fun is_finite :: "fl \<Rightarrow> bool" where
  "is_finite (Fin q) = True"
| "is_finite NegZero = True"
| "is_finite _ = False"

fun is_nan :: "fl \<Rightarrow> bool" where
  "is_nan NaN = True"
| "is_nan _ = False"

fun signbit :: "fl \<Rightarrow> bool" where
  "signbit (Fin q) = (q < 0)"
| "signbit NegZero = True"
| "signbit (Inf s) = s"
| "signbit NaN = False"

fun fl_neg :: "fl \<Rightarrow> fl" where
  "fl_neg (Fin q) = (if q = 0 then NegZero else Fin (- q))"
| "fl_neg NegZero = Fin 0"
| "fl_neg (Inf s) = Inf (\<not> s)"
| "fl_neg NaN = NaN"

fun fl_abs :: "fl \<Rightarrow> fl" where
  "fl_abs (Fin q) = Fin \<bar>q\<bar>"
| "fl_abs NegZero = Fin 0"
| "fl_abs (Inf s) = Inf False"
| "fl_abs NaN = NaN"

definition fl_add :: "fformat \<Rightarrow> fl \<Rightarrow> fl \<Rightarrow> fl" where
  "fl_add F a b =
     (if is_nan a \<or> is_nan b then NaN
      else case (a, b) of
        (Inf s, Inf t) \<Rightarrow> (if s = t then Inf s else NaN)
      | (Inf s, _) \<Rightarrow> Inf s
      | (_, Inf t) \<Rightarrow> Inf t
      | _ \<Rightarrow> fl_round F (a = NegZero \<and> b = NegZero) (fl_val a + fl_val b))"

definition fl_sub :: "fformat \<Rightarrow> fl \<Rightarrow> fl \<Rightarrow> fl" where
  "fl_sub F a b = fl_add F a (fl_neg b)"

definition fl_mul :: "fformat \<Rightarrow> fl \<Rightarrow> fl \<Rightarrow> fl" where
  "fl_mul F a b =
     (let s = (signbit a \<noteq> signbit b) in
      if is_nan a \<or> is_nan b then NaN
      else if is_finite a \<and> is_finite b then fl_round F s (fl_val a * fl_val b)
      else if (is_finite a \<and> fl_val a = 0) \<or> (is_finite b \<and> fl_val b = 0) then NaN
      else Inf s)"

definition fl_div :: "fformat \<Rightarrow> fl \<Rightarrow> fl \<Rightarrow> fl" where
  "fl_div F a b =
     (let s = (signbit a \<noteq> signbit b) in
      if is_nan a \<or> is_nan b then NaN
      else if is_finite a then
        (if \<not> is_finite b then (if s then NegZero else Fin 0)
         else if fl_val b = 0 then (if fl_val a = 0 then NaN else Inf s)
         else fl_round F s (fl_val a / fl_val b))
      else if is_finite b then Inf s else NaN)"

text \<open>The integer square root, one result bit per step.\<close>

fun isqrt_bits :: "nat \<Rightarrow> int \<Rightarrow> int \<Rightarrow> int" where
  "isqrt_bits 0 n r = (if (r + 1) * (r + 1) \<le> n then r + 1 else r)"
| "isqrt_bits (Suc k) n r =
     isqrt_bits k n (if (r + 2 ^ Suc k) * (r + 2 ^ Suc k) \<le> n then r + 2 ^ Suc k else r)"

definition isqrt :: "int \<Rightarrow> int" where
  "isqrt n = isqrt_bits (nat (blen n div 2)) n 0"

text \<open>
  The scaled root keeps at least two bits more than the format holds; a sticky half stands for
  a non-zero remainder, so that rounding it rounds the exact root.
\<close>

fun fl_sqrt :: "fformat \<Rightarrow> fl \<Rightarrow> fl" where
  "fl_sqrt F (Fin q) =
     (if q < 0 then NaN else if q = 0 then Fin 0
      else let k = int (prec F) + 2 - ilog2 q div 2; s = q * pow2 (2 * k); m = isqrt \<lfloor>s\<rfloor>;
               r = (if of_int (m * m) = s then of_int m else of_int m + 1 / 2)
           in fl_round F False (r * pow2 (- k)))"
| "fl_sqrt F NegZero = NegZero"
| "fl_sqrt F (Inf s) = (if s then NaN else Inf False)"
| "fl_sqrt F NaN = NaN"

section \<open>Comparisons\<close>

fun fl_lt :: "fl \<Rightarrow> fl \<Rightarrow> bool" where
  "fl_lt NaN _ = False"
| "fl_lt _ NaN = False"
| "fl_lt (Inf s) (Inf t) = (s \<and> \<not> t)"
| "fl_lt (Inf s) _ = s"
| "fl_lt _ (Inf t) = (\<not> t)"
| "fl_lt a b = (fl_val a < fl_val b)"

definition fl_eq :: "fl \<Rightarrow> fl \<Rightarrow> bool" where
  "fl_eq a b = (\<not> is_nan a \<and> \<not> is_nan b \<and>
     (a = b \<or> (is_finite a \<and> is_finite b \<and> fl_val a = fl_val b)))"

definition fl_le :: "fl \<Rightarrow> fl \<Rightarrow> bool" where
  "fl_le a b = (fl_lt a b \<or> fl_eq a b)"

abbreviation fl_gt :: "fl \<Rightarrow> fl \<Rightarrow> bool" where
  "fl_gt a b \<equiv> fl_lt b a"

abbreviation fl_ge :: "fl \<Rightarrow> fl \<Rightarrow> bool" where
  "fl_ge a b \<equiv> fl_le b a"

text \<open>The macros \<open>min\<close> and \<open>max\<close> of nuts_bolts.h on floats.\<close>

definition fl_min :: "fl \<Rightarrow> fl \<Rightarrow> fl" where
  "fl_min a b = (if fl_lt a b then a else b)"

definition fl_max :: "fl \<Rightarrow> fl \<Rightarrow> fl" where
  "fl_max a b = (if fl_lt b a then a else b)"

section \<open>Conversions\<close>

definition to_f32 :: "fl \<Rightarrow> fl" where
  "to_f32 a = (if is_finite a then fl_round binary32 (a = NegZero) (fl_val a) else a)"

definition f32_of_int :: "int \<Rightarrow> fl" where
  "f32_of_int n = fl_round binary32 False (of_int n)"

definition f64_of_int :: "int \<Rightarrow> fl" where
  "f64_of_int n = fl_round binary64 False (of_int n)"

definition f64_lit :: "rat \<Rightarrow> fl" where
  "f64_lit q = fl_round binary64 False q"

definition rat_trunc :: "rat \<Rightarrow> int" where
  "rat_trunc q = (if q < 0 then \<lceil>q\<rceil> else \<lfloor>q\<rfloor>)"

definition clamp :: "int \<Rightarrow> int \<Rightarrow> int \<Rightarrow> int" where
  "clamp lo hi n = (if n < lo then lo else if hi < n then hi else n)"

fun fl_to_int :: "int \<Rightarrow> int \<Rightarrow> fl \<Rightarrow> int" where
  "fl_to_int lo hi (Fin q) = clamp lo hi (rat_trunc q)"
| "fl_to_int lo hi NegZero = 0"
| "fl_to_int lo hi (Inf s) = (if s then lo else hi)"
| "fl_to_int lo hi NaN = 0"

definition fl_to_i32 :: "fl \<Rightarrow> i32" where
  "fl_to_i32 a = word_of_int (fl_to_int (- (2 ^ 31)) (2 ^ 31 - 1) a)"

definition fl_to_u32 :: "fl \<Rightarrow> u32" where
  "fl_to_u32 a = word_of_int (fl_to_int 0 (2 ^ 32 - 1) a)"

text \<open>\<open>(uint8_t)x\<close> converts to a 32-bit register and keeps the low byte.\<close>

definition fl_to_u8 :: "fl \<Rightarrow> u8" where
  "fl_to_u8 a = ucast (fl_to_u32 a)"

fun fl_map_int :: "(rat \<Rightarrow> int) \<Rightarrow> fl \<Rightarrow> fl" where
  "fl_map_int f (Fin q) = (if f q = 0 \<and> q < 0 then NegZero else Fin (of_int (f q)))"
| "fl_map_int f a = a"

definition fl_trunc :: "fl \<Rightarrow> fl" where "fl_trunc = fl_map_int rat_trunc"
definition fl_floor :: "fl \<Rightarrow> fl" where "fl_floor = fl_map_int floor"
definition fl_ceil :: "fl \<Rightarrow> fl" where "fl_ceil = fl_map_int ceiling"

text \<open>\<open>round\<close> and \<open>lround\<close> of libm round halves away from zero.\<close>

definition rat_round_away :: "rat \<Rightarrow> int" where
  "rat_round_away q = (if q < 0 then - \<lfloor>1 / 2 - q\<rfloor> else \<lfloor>q + 1 / 2\<rfloor>)"

definition fl_round_away :: "fl \<Rightarrow> fl" where "fl_round_away = fl_map_int rat_round_away"

definition fl_lround :: "fl \<Rightarrow> i32" where
  "fl_lround a = fl_to_i32 (fl_round_away a)"

abbreviation f32_add :: "fl \<Rightarrow> fl \<Rightarrow> fl" where "f32_add \<equiv> fl_add binary32"
abbreviation f32_sub :: "fl \<Rightarrow> fl \<Rightarrow> fl" where "f32_sub \<equiv> fl_sub binary32"
abbreviation f32_mul :: "fl \<Rightarrow> fl \<Rightarrow> fl" where "f32_mul \<equiv> fl_mul binary32"
abbreviation f32_div :: "fl \<Rightarrow> fl \<Rightarrow> fl" where "f32_div \<equiv> fl_div binary32"
abbreviation f64_add :: "fl \<Rightarrow> fl \<Rightarrow> fl" where "f64_add \<equiv> fl_add binary64"
abbreviation f64_sub :: "fl \<Rightarrow> fl \<Rightarrow> fl" where "f64_sub \<equiv> fl_sub binary64"
abbreviation f64_mul :: "fl \<Rightarrow> fl \<Rightarrow> fl" where "f64_mul \<equiv> fl_mul binary64"
abbreviation f64_div :: "fl \<Rightarrow> fl \<Rightarrow> fl" where "f64_div \<equiv> fl_div binary64"
abbreviation f64_sqrt :: "fl \<Rightarrow> fl" where "f64_sqrt \<equiv> fl_sqrt binary64"

section \<open>Facts about rounding and order\<close>

lemma blen_pos: "0 < n \<Longrightarrow> 1 \<le> blen n \<and> 2 ^ nat (blen n - 1) \<le> n \<and> n < 2 ^ nat (blen n)"
proof (induction n rule: blen.induct)
  case (1 n)
  show ?case
  proof (cases "n = 1")
    case True
    have "blen 1 = 1" by (simp add: blen.simps [of 1] blen.simps [of 0])
    then show ?thesis using True by simp
  next
    case False
    then have d: "0 < n div 2" using 1 by auto
    have b: "blen n = 1 + blen (n div 2)" using 1 by (simp add: blen.simps [of n])
    let ?b = "blen (n div 2)"
    have ih: "1 \<le> ?b" "2 ^ nat (?b - 1) \<le> n div 2" "n div 2 < 2 ^ nat ?b"
      using 1 d by auto
    have e1: "(2::int) ^ nat ?b = 2 * 2 ^ nat (?b - 1)"
      using ih(1) by (simp flip: power_Suc add: Suc_nat_eq_nat_zadd1)
    have e2: "(2::int) ^ nat (1 + ?b) = 2 * 2 ^ nat ?b"
      using ih(1) by (simp add: nat_add_distrib)
    show ?thesis using ih e1 e2 b by simp linarith
  qed
qed

lemma pow2_powi: "pow2 u = 2 powi u"
  by (simp add: pow2_def power_int_def Fract_of_int_quotient inverse_eq_divide power_one_over)

lemma pow2_pos [simp]: "0 < pow2 u"
  by (simp add: pow2_powi)

lemma pow2_nz [simp]: "pow2 u \<noteq> 0"
  by (simp add: pow2_powi)

lemma pow2_add: "pow2 (a + b) = pow2 a * pow2 b"
  by (simp add: pow2_powi power_int_add)

lemma pow2_nat: "0 \<le> u \<Longrightarrow> pow2 u = of_int (2 ^ nat u)"
  by (simp add: pow2_def)

lemma pow2_less_iff [simp]: "pow2 a < pow2 b \<longleftrightarrow> a < b"
proof -
  have "a < b \<Longrightarrow> pow2 a < pow2 b" for a b
    unfolding pow2_powi by (rule power_int_strict_increasing) auto
  then show ?thesis by (metis not_less_iff_gr_or_eq)
qed

lemma pow2_le_iff [simp]: "pow2 a \<le> pow2 b \<longleftrightarrow> a \<le> b"
  by (simp flip: not_less)

lemma ilog2_bounds:
  assumes "0 < q"
  shows "pow2 (ilog2 q) \<le> q \<and> q < pow2 (ilog2 q + 1)"
proof -
  obtain n d where nd: "quotient_of q = (n, d)" by fastforce
  have d: "0 < d" using quotient_of_denom_pos [OF nd] .
  have q: "q = of_int n / of_int d" using quotient_of_div [OF nd] .
  have n: "0 < n" using assms q d by (simp add: zero_less_divide_iff)
  let ?e = "blen n - blen d"
  note bn = blen_pos [OF n] and bd = blen_pos [OF d]
  have n1: "pow2 (blen n - 1) \<le> of_int n" and n2: "of_int n < pow2 (blen n)"
    using bn by (simp_all add: pow2_nat del: of_int_power) 
  have d1: "pow2 (blen d - 1) \<le> of_int d" and d2: "of_int d < pow2 (blen d)"
    using bd by (simp_all add: pow2_nat del: of_int_power)
  have lo: "pow2 (?e - 1) < q"
  proof -
    have "pow2 (?e - 1) * of_int d < pow2 (?e - 1) * pow2 (blen d)"
      using d2 by simp
    also have "\<dots> = pow2 (blen n - 1)" by (simp flip: pow2_add)
    finally show ?thesis using n1 d by (simp add: q pos_less_divide_eq)
  qed
  have hi: "q < pow2 (?e + 1)"
  proof -
    have "of_int n < pow2 (?e + 1) * pow2 (blen d - 1)"
      using n2 by (simp flip: pow2_add)
    also have "\<dots> \<le> pow2 (?e + 1) * of_int d" using d1 by simp
    finally show ?thesis using d by (simp add: q pos_divide_less_eq)
  qed
  show ?thesis
    using lo hi by (simp add: ilog2_def nd Let_def)
qed

lemma ilog2_less: "0 < q \<Longrightarrow> q < pow2 k \<Longrightarrow> ilog2 q < k"
  using ilog2_bounds [of q] by (metis le_less_trans pow2_less_iff)

lemma round_even_int [simp]: "round_even (of_int n) = n"
  by (simp add: round_even_def)

lemma round_even_error: "\<bar>of_int (round_even x) - x\<bar> \<le> 1 / 2"
proof -
  have "of_int \<lfloor>x\<rfloor> \<le> x" "x < of_int \<lfloor>x\<rfloor> + 1" by linarith+
  then show ?thesis by (simp add: round_even_def Let_def abs_le_iff)
qed

lemma round_even_mono: "x \<le> y \<Longrightarrow> round_even x \<le> round_even y"
proof (rule ccontr)
  assume le: "x \<le> y" and "\<not> round_even x \<le> round_even y"
  then have gt: "round_even y + 1 \<le> round_even x" by simp
  have ex: "\<bar>of_int (round_even x) - x\<bar> \<le> 1 / 2" and ey: "\<bar>of_int (round_even y) - y\<bar> \<le> 1 / 2"
    by (rule round_even_error)+
  have "of_int (round_even y) + 1 \<le> (of_int (round_even x) :: rat)" using gt by (metis of_int_le_iff of_int_add of_int_1)
  then have "x = y" using le ex ey by linarith
  then show False using gt by simp
qed

lemma fl_round_exact:
  assumes q: "q = of_int m * pow2 k" and m: "\<bar>m\<bar> < 2 ^ prec F"
    and k: "emin F - (int (prec F) - 1) \<le> k" and r: "\<bar>q\<bar> < pow2 (emax F + 1)" and nz: "q \<noteq> 0"
  shows "fl_round F s q = Fin q"
proof -
  have "\<bar>q\<bar> < pow2 (int (prec F)) * pow2 k"
  proof -
    have "(of_int \<bar>m\<bar> :: rat) < of_int (2 ^ prec F)" using m by (simp only: of_int_less_iff)
    then have "\<bar>of_int m :: rat\<bar> < pow2 (int (prec F))" by (simp add: pow2_nat)
    then show ?thesis by (simp add: q abs_mult abs_of_pos [OF pow2_pos] mult_less_cancel_right_pos)
  qed
  then have "ilog2 \<bar>q\<bar> < int (prec F) + k"
    using nz by (intro ilog2_less) (simp_all add: pow2_add)
  then have "ulp_exp F q \<le> k" using k by (simp add: ulp_exp_def)
  then obtain j :: nat where "k = ulp_exp F q + int j" using zle_iff_zadd by blast
  then obtain u where u: "ulp_exp F q = u" and j: "k = u + int j" by blast
  have "q / pow2 u = of_int (m * 2 ^ j)" and v: "of_int (m * 2 ^ j) * pow2 u = q"
    unfolding q j by (simp_all add: pow2_add pow2_nat)
  then have "round_even (q / pow2 u) = m * 2 ^ j" by (simp only: round_even_int)
  then show ?thesis
    using nz r v by (simp add: fl_round_def Let_def u del: of_int_mult of_int_power)
qed

lemma fl_round_int:
  assumes "\<bar>n\<bar> < 2 ^ prec F" "emin F < int (prec F)" "int (prec F) \<le> emax F + 1" 
  shows "fl_round F False (of_int n) = Fin (of_int n)"
proof (cases "n = 0")
  case False
  have "\<bar>of_int n :: rat\<bar> < of_int (2 ^ prec F)" using assms(1) by (metis of_int_abs of_int_less_iff)
  also have "\<dots> = pow2 (int (prec F))" by (simp add: pow2_nat)
  also have "\<dots> \<le> pow2 (emax F + 1)" using assms(3) by simp
  finally show ?thesis
    using False assms(1,2) by (intro fl_round_exact [of _ n 0]) (simp_all add: pow2_def)
qed (simp add: fl_round_def)

lemma f32_of_int_exact: "\<bar>n\<bar> < 2 ^ 24 \<Longrightarrow> f32_of_int n = Fin (of_int n)"
  unfolding f32_of_int_def by (rule fl_round_int) (simp_all add: binary32_def)

lemma fl_lt_irrefl [simp]: "\<not> fl_lt a a"
  by (cases a) auto

lemma fl_lt_trans: "fl_lt a b \<Longrightarrow> fl_lt b c \<Longrightarrow> fl_lt a c"
  by (cases a; cases b; cases c) auto

lemma fl_lt_asym: "fl_lt a b \<Longrightarrow> \<not> fl_lt b a"
  using fl_lt_trans fl_lt_irrefl by blast

lemma fl_not_lt_trans:
  "\<not> fl_lt b a \<Longrightarrow> \<not> fl_lt c b \<Longrightarrow> \<not> is_nan b \<Longrightarrow> \<not> fl_lt c a"
  by (cases a; cases b; cases c) (auto split: if_splits)

lemma fl_lt_nan [simp]: "\<not> fl_lt a NaN" "\<not> fl_lt NaN a"
  by (cases a; simp)+

lemma fl_min_le: "\<not> fl_lt b (fl_min a b)" "\<not> is_nan b \<Longrightarrow> \<not> fl_lt a (fl_min a b)"
  unfolding fl_min_def using fl_lt_asym by auto

lemma is_nan_fl_min: "is_nan (fl_min a b) = is_nan b"
  by (cases a; cases b) (auto simp: fl_min_def)

section \<open>The 32-bit representation\<close>

text \<open>The bits of a \<open>float\<close> in memory; every not-a-number is written as the default quiet one.\<close>

fun f32_bits :: "fl \<Rightarrow> u32" where
  "f32_bits (Fin q) =
     (if q = 0 then 0
      else let s = (if q < 0 then 2 ^ 31 else 0); e = max (ilog2 \<bar>q\<bar>) (- 126); m = \<lfloor>\<bar>q\<bar> / pow2 (e - 23)\<rfloor>
        in if m < 2 ^ 23 then word_of_int (s + m) else word_of_int (s + (e + 127) * 2 ^ 23 + (m - 2 ^ 23)))"
| "f32_bits NegZero = 0x80000000"
| "f32_bits (Inf s) = (if s then 0xFF800000 else 0x7F800000)"
| "f32_bits NaN = 0x7FC00000"

definition f32_of_parts :: "bool \<Rightarrow> int \<Rightarrow> int \<Rightarrow> fl" where
  "f32_of_parts s e f =
     (if e = 255 then (if f = 0 then Inf s else NaN)
      else if e = 0 \<and> f = 0 then (if s then NegZero else Fin 0)
      else let v = (if e = 0 then of_int f * pow2 (- 149) else of_int (2 ^ 23 + f) * pow2 (e - 150))
        in Fin (if s then - v else v))"

definition f32_of_bits :: "u32 \<Rightarrow> fl" where
  "f32_of_bits w = f32_of_parts (2 ^ 31 \<le> uint w) (uint w div 2 ^ 23 mod 256) (uint w mod 2 ^ 23)"

text \<open>The values a \<open>float\<close> variable can hold.\<close>

definition is_f32 :: "fl \<Rightarrow> bool" where
  "is_f32 x = (f32_of_bits (f32_bits x) = x)"

lemma ilog2_unique: "pow2 e \<le> q \<Longrightarrow> q < pow2 (e + 1) \<Longrightarrow> ilog2 q = e"
proof -
  assume a: "pow2 e \<le> q" "q < pow2 (e + 1)"
  then have "0 < q" using pow2_pos [of e] by linarith
  from ilog2_bounds [OF this] a have "pow2 (ilog2 q) < pow2 (e + 1)" "pow2 e < pow2 (ilog2 q + 1)" by linarith+
  then show ?thesis by simp
qed

lemma uint_word32: "0 \<le> n \<Longrightarrow> n < 2 ^ 32 \<Longrightarrow> uint (word_of_int n :: u32) = n"
  by (simp add: uint_word_of_int)

lemma f32_of_bits_parts:
  assumes "0 \<le> e" "e < 256" "0 \<le> f" "f < 2 ^ 23"
  shows "f32_of_bits (word_of_int ((if s then 2 ^ 31 else 0) + e * 2 ^ 23 + f)) = f32_of_parts s e f"
proof -
  let ?n = "(if s then 2 ^ 31 else 0) + e * 2 ^ 23 + f"
  have b: "0 \<le> ?n" "?n < 2 ^ 32" using assms by simp_all
  have d: "?n div 2 ^ 23 = (if s then 256 else 0) + e" "?n mod 2 ^ 23 = f"
  proof -
    have "?n = f + ((if s then 256 else 0) + e) * 2 ^ 23" by simp
    then show "?n div 2 ^ 23 = (if s then 256 else 0) + e" "?n mod 2 ^ 23 = f"
      using assms(3,4) by (simp_all only: div_mult_self1 mod_mult_self1 mod_pos_pos_trivial div_pos_pos_trivial)
  qed
  have m: "((if s then 256 else 0) + e) mod 256 = e" using assms(1,2) by auto
  have sg: "2 ^ 31 \<le> ?n \<longleftrightarrow> s" using assms by auto
  show ?thesis unfolding f32_of_bits_def uint_word32 [OF b] d m sg ..
qed

lemma is_f32_representable:
  assumes q: "q = of_int m * pow2 u" and m: "\<bar>m\<bar> \<le> 2 ^ 24" and u: "- 149 \<le> u"
    and r: "\<bar>q\<bar> < pow2 128" and nz: "q \<noteq> 0"
  shows "is_f32 (Fin q)"
proof -
  let ?a = "\<bar>q\<bar>"
  define e where "e = max (ilog2 ?a) (- 126)"
  have a: "0 < ?a" "?a = of_int \<bar>m\<bar> * pow2 u" using nz by (simp_all add: q abs_mult abs_of_pos [OF pow2_pos])
  note lg = ilog2_bounds [OF a(1)]
  have hi: "?a < pow2 (e + 1)"
  proof -
    have "pow2 (ilog2 ?a + 1) \<le> pow2 (e + 1)" by (simp add: e_def)
    then show ?thesis using lg by linarith
  qed
  have e127: "e \<le> 127" using ilog2_less [OF a(1) r] by (simp add: e_def)
  obtain M where M: "?a / pow2 (e - 23) = of_int M"
  proof (cases "e - 23 \<le> u")
    case True
    then obtain j :: nat where "u = e - 23 + int j" using zle_iff_zadd by blast
    then have "?a / pow2 (e - 23) = of_int (\<bar>m\<bar> * 2 ^ j)" by (simp add: a(2) pow2_add pow2_nat)
    then show ?thesis using that by blast
  next
    case False
    then have e: "e = ilog2 ?a" using u by (simp add: e_def)
    have "pow2 (u + 24) \<le> pow2 e" using False by simp
    also have "\<dots> \<le> ?a" using lg e by simp
    finally have "of_int (2 ^ 24) * pow2 u \<le> of_int \<bar>m\<bar> * pow2 u" using a(2) by (simp add: pow2_add pow2_nat)
    then have "(of_int (2 ^ 24) :: rat) \<le> of_int \<bar>m\<bar>" by (rule mult_right_le_imp_le) simp
    then have "\<bar>m\<bar> = 2 ^ 24" using m by (simp only: of_int_le_iff)
    then have a24: "?a = pow2 (u + 24)" by (simp add: a(2) pow2_add pow2_nat)
    have "ilog2 (pow2 (u + 24)) = u + 24" by (rule ilog2_unique) simp_all
    then have "e = u + 24" unfolding e a24 .
    then have "?a / pow2 (e - 23) = of_int (2 ^ 23)"
      using pow2_add [of "u + 1" 23] by (simp add: a24 pow2_nat add.commute)
    then show ?thesis using that by blast
  qed
  then have aM: "?a = of_int M * pow2 (e - 23)" by (simp add: field_simps)
  have M24: "M < 2 ^ 24"
  proof -
    have "of_int M * pow2 (e - 23) < of_int (2 ^ 24) * pow2 (e - 23)"
      using hi aM pow2_add [of 24 "e - 23"] by (simp add: pow2_nat add.commute)
    then have "(of_int M :: rat) < of_int (2 ^ 24)" by (rule mult_right_less_imp_less) (simp add: less_imp_le)
    then show ?thesis by (simp only: of_int_less_iff)
  qed
  have M0: "0 < M"
  proof -
    have "0 < of_int M * pow2 (e - 23)" using a(1) aM by simp
    then show ?thesis using pow2_pos [of "e - 23"] by (auto simp: zero_less_mult_iff dest: less_asym)
  qed
  have Mlo: "M < 2 ^ 23 \<Longrightarrow> e = - 126"
  proof (rule ccontr)
    assume M: "M < 2 ^ 23" and "e \<noteq> - 126"
    then have "e = ilog2 ?a" by (simp add: e_def max_def split: if_splits)
    then have "pow2 e \<le> ?a" using lg by simp
    then have "of_int (2 ^ 23) * pow2 (e - 23) \<le> of_int M * pow2 (e - 23)"
      using aM pow2_add [of 23 "e - 23"] by (simp add: pow2_nat)
    then have "(of_int (2 ^ 23) :: rat) \<le> of_int M" by (rule mult_right_le_imp_le) simp
    then show False using M by (simp only: of_int_le_iff)
  qed
  have e_low: "- 126 \<le> e" by (simp add: e_def)
  have fl: "\<lfloor>?a / pow2 (e - 23)\<rfloor> = M" by (simp add: M)
  let ?s = "q < 0"
  have sgn: "(if ?s then - (of_int M * pow2 (e - 23)) else of_int M * pow2 (e - 23)) = q"
    unfolding aM [symmetric] by simp
  show ?thesis
  proof (cases "M < 2 ^ 23")
    case True
    then have "f32_bits (Fin q) = word_of_int ((if ?s then 2 ^ 31 else 0) + 0 * 2 ^ 23 + M)"
      unfolding f32_bits.simps Let_def e_def [symmetric] fl using nz by simp
    moreover have "f32_of_parts ?s 0 M = Fin q"
      using M0 sgn [unfolded Mlo [OF True]] by (auto simp: f32_of_parts_def Let_def split: if_splits)
    ultimately show ?thesis
      using f32_of_bits_parts [of 0 M ?s] M0 True unfolding is_f32_def by simp
  next
    case False
    then have "f32_bits (Fin q) = word_of_int ((if ?s then 2 ^ 31 else 0) + (e + 127) * 2 ^ 23 + (M - 2 ^ 23))"
      unfolding f32_bits.simps Let_def e_def [symmetric] fl using nz by simp
    moreover have "f32_of_parts ?s (e + 127) (M - 2 ^ 23) = Fin q"
      using e127 e_low sgn by (auto simp: f32_of_parts_def Let_def split: if_splits)
    moreover have "0 \<le> e + 127" using e_low by simp
    ultimately show ?thesis
      using f32_of_bits_parts [of "e + 127" "M - 2 ^ 23" ?s] e127 False M24 unfolding is_f32_def by simp
  qed
qed

lemma is_f32_special [simp]: "is_f32 NegZero" "is_f32 (Inf s)" "is_f32 NaN" "is_f32 (Fin 0)"
  by (cases s; simp add: is_f32_def f32_of_bits_def f32_of_parts_def)+

lemma is_f32_round: "is_f32 (fl_round binary32 n q)"
proof (cases "q = 0")
  case False
  let ?u = "ulp_exp binary32 q"
  let ?m = "round_even (q / pow2 ?u)"
  let ?v = "of_int ?m * pow2 ?u"
  have a: "0 < \<bar>q\<bar>" using False by simp
  have u: "- 149 \<le> ?u" "ilog2 \<bar>q\<bar> - 23 \<le> ?u" by (simp_all add: ulp_exp_def binary32_def)
  have "\<bar>q\<bar> < pow2 (ilog2 \<bar>q\<bar> + 1)" using ilog2_bounds [OF a] by simp
  also have "\<dots> \<le> pow2 (24 + ?u)" using u(2) by simp
  also have "\<dots> = of_int (2 ^ 24) * pow2 ?u" by (simp only: pow2_add pow2_nat) (simp add: pow2_nat)
  finally have "\<bar>q / pow2 ?u\<bar> < of_int (2 ^ 24)"
    by (simp add: abs_divide abs_of_pos [OF pow2_pos] pos_divide_less_eq)
  then have b: "q / pow2 ?u \<le> of_int (2 ^ 24)" "of_int (- (2 ^ 24)) \<le> q / pow2 ?u"
    unfolding abs_less_iff by (simp_all only: of_int_minus, linarith+)
  have "?m \<le> 2 ^ 24" "- (2 ^ 24) \<le> ?m"
    using round_even_mono [OF b(1)] round_even_mono [OF b(2)] by (simp_all only: round_even_int)
  then have m: "\<bar>?m\<bar> \<le> 2 ^ 24" by linarith
  show ?thesis
  proof (cases "?v = 0 \<or> pow2 128 \<le> \<bar>?v\<bar>")
    case True
    then show ?thesis using False by (auto simp: fl_round_def Let_def binary32_def)
  next
    case v: False
    then have "is_f32 (Fin ?v)" using is_f32_representable [OF refl m u(1)] by simp
    then show ?thesis using False v by (auto simp: fl_round_def Let_def)
  qed
qed (simp add: fl_round_def)

lemma is_f32_of_int: "is_f32 (f32_of_int n)"
  by (simp add: f32_of_int_def is_f32_round)

lemma f32_parts_representable:
  assumes p: "f32_of_parts s e f = Fin q" and e: "0 \<le> e" "e < 256" and f: "0 \<le> f" "f < 2 ^ 23"
  obtains m u where "q = of_int m * pow2 u" "\<bar>m\<bar> \<le> 2 ^ 24" "- 149 \<le> u" "\<bar>q\<bar> < pow2 128"
proof -
  define m where "m = (if e = 0 then f else 2 ^ 23 + f)"
  define u where "u = (if e = 0 then - 149 else e - 150)"
  have ne: "e \<noteq> 255" using p by (auto simp: f32_of_parts_def split: if_splits)
  have m: "0 \<le> m" "m < 2 ^ 24" using f by (auto simp: m_def)
  have u: "- 149 \<le> u" "u \<le> 104" using e ne by (auto simp: u_def)
  have q: "q = (if s then - (of_int m * pow2 u) else of_int m * pow2 u)"
    using p ne by (cases "e = 0"; cases "f = 0"; cases s; simp add: f32_of_parts_def Let_def m_def u_def)
  have "\<bar>q\<bar> = of_int m * pow2 u" using m(1) by (simp add: q abs_mult abs_of_pos [OF pow2_pos])
  also have "\<dots> < of_int (2 ^ 24) * pow2 u" using m(2) by (intro mult_strict_right_mono) (simp_all only: of_int_less_iff pow2_pos)
  also have "\<dots> = pow2 (24 + u)" by (simp only: pow2_add pow2_nat [of 24], simp add: pow2_nat)
  also have "\<dots> \<le> pow2 128" using u by simp
  finally have "\<bar>q\<bar> < pow2 128" .
  moreover have "q = of_int (if s then - m else m) * pow2 u" by (simp add: q)
  moreover have "\<bar>if s then - m else m\<bar> \<le> 2 ^ 24" using m by simp
  ultimately show ?thesis using that u(1) by blast
qed

lemma is_f32_fl_mul: "is_f32 (f32_mul a b)"
  by (auto simp: fl_mul_def Let_def is_f32_round)

lemma is_f32_neg: "is_f32 x \<Longrightarrow> is_f32 (fl_neg x)"
proof (cases x)
  case (Fin q)
  assume "is_f32 x"
  then have "f32_of_bits (f32_bits (Fin q)) = Fin q" using Fin by (simp add: is_f32_def)
  then have "f32_of_parts (2 ^ 31 \<le> uint (f32_bits (Fin q))) (uint (f32_bits (Fin q)) div 2 ^ 23 mod 256)
      (uint (f32_bits (Fin q)) mod 2 ^ 23) = Fin q" by (simp only: f32_of_bits_def)
  then obtain m u where r: "q = of_int m * pow2 u" "\<bar>m\<bar> \<le> 2 ^ 24" "- 149 \<le> u" "\<bar>q\<bar> < pow2 128"
    by (rule f32_parts_representable) simp_all
  show ?thesis
  proof (cases "q = 0")
    case False
    have "is_f32 (Fin (- q))"
      by (rule is_f32_representable [of _ "- m" u]) (use r False in simp_all)
    then show ?thesis using Fin False by simp
  qed (simp add: Fin)
qed auto

end
