(* ===== verification/Settings.thy ===== *)
theory Settings
  imports Flash Float32
begin

text \<open>
  \<open>settings.h\<close> and \<open>settings.c\<close>: the settings structure, its layout in the flash, the reading
  and writing of settings, coordinate data, startup lines and build info, the \<open>$\<close> settings
  command and the axis pin masks.  A result \<open>None\<close> is a fault on an access outside the flash.
\<close>

section \<open>Data\<close>

type_synonym 'a vec = "'a list"

definition N_AXIS :: nat where "N_AXIS = 3"
definition X_AXIS :: nat where [simp]: "X_AXIS = 0"
definition Y_AXIS :: nat where [simp]: "Y_AXIS = 1"
definition Z_AXIS :: nat where [simp]: "Z_AXIS = 2"

record settings_t =
  steps_per_mm :: "fl vec"
  max_rate :: "fl vec"
  acceleration :: "fl vec"
  max_travel :: "fl vec"
  pulse_microseconds :: u8
  step_invert_mask :: u8
  dir_invert_mask :: u8
  stepper_idle_lock_time :: u8
  status_report_mask :: u8
  junction_deviation :: fl
  arc_tolerance :: fl
  flags :: u8
  homing_dir_mask :: u8
  homing_feed_rate :: fl
  homing_seek_rate :: fl
  homing_debounce_delay :: u16
  homing_pulloff :: fl
  spindle_pwm_period :: u32
  spindle_pwm_max_time_on :: u32
  spindle_pwm_min_time_on :: u32
  spindle_pwm_enable_at_start :: u32

definition SETTINGS_VERSION :: u8 where "SETTINGS_VERSION = 9"

definition BITFLAG_REPORT_INCHES :: u8 where "BITFLAG_REPORT_INCHES = bit_of 0"
definition BITFLAG_INVERT_ST_ENABLE :: u8 where "BITFLAG_INVERT_ST_ENABLE = bit_of 2"
definition BITFLAG_HARD_LIMIT_ENABLE :: u8 where "BITFLAG_HARD_LIMIT_ENABLE = bit_of 3"
definition BITFLAG_HOMING_ENABLE :: u8 where "BITFLAG_HOMING_ENABLE = bit_of 4"
definition BITFLAG_SOFT_LIMIT_ENABLE :: u8 where "BITFLAG_SOFT_LIMIT_ENABLE = bit_of 5"
definition BITFLAG_INVERT_LIMIT_PINS :: u8 where "BITFLAG_INVERT_LIMIT_PINS = bit_of 6"
definition BITFLAG_INVERT_PROBE_PIN :: u8 where "BITFLAG_INVERT_PROBE_PIN = bit_of 7"

lemmas bitflags = BITFLAG_REPORT_INCHES_def BITFLAG_INVERT_ST_ENABLE_def BITFLAG_HARD_LIMIT_ENABLE_def
  BITFLAG_HOMING_ENABLE_def BITFLAG_SOFT_LIMIT_ENABLE_def BITFLAG_INVERT_LIMIT_PINS_def
  BITFLAG_INVERT_PROBE_PIN_def

definition SETTINGS_RESTORE_ALL :: u8 where "SETTINGS_RESTORE_ALL = 0xFF"
definition SETTINGS_RESTORE_DEFAULTS :: u8 where "SETTINGS_RESTORE_DEFAULTS = bit_of 0"
definition SETTINGS_RESTORE_PARAMETERS :: u8 where "SETTINGS_RESTORE_PARAMETERS = bit_of 1"
definition SETTINGS_RESTORE_STARTUP_LINES :: u8 where "SETTINGS_RESTORE_STARTUP_LINES = bit_of 2"
definition SETTINGS_RESTORE_BUILD_INFO :: u8 where "SETTINGS_RESTORE_BUILD_INFO = bit_of 3"

definition N_COORDINATE_SYSTEM :: u8 where "N_COORDINATE_SYSTEM = 6"
definition SETTING_INDEX_NCOORD :: u8 where "SETTING_INDEX_NCOORD = N_COORDINATE_SYSTEM + 1"
definition SETTING_INDEX_G28 :: u8 where "SETTING_INDEX_G28 = N_COORDINATE_SYSTEM"
definition SETTING_INDEX_G30 :: u8 where "SETTING_INDEX_G30 = N_COORDINATE_SYSTEM + 1"

definition LINE_BUFFER_SIZE :: nat where "LINE_BUFFER_SIZE = 80"
definition N_STARTUP_LINE :: nat where "N_STARTUP_LINE = 2"

definition EFLASH_ADDR_GLOBAL_MAIN :: nat where
  "EFLASH_ADDR_GLOBAL_MAIN = MB + EFLASH_ADDR_GLOBAL_OFFSET"
definition EFLASH_ADDR_GLOBAL_COPY :: nat where
  "EFLASH_ADDR_GLOBAL_COPY = CB + EFLASH_ADDR_GLOBAL_OFFSET"
definition EFLASH_ADDR_PARAMETERS_MAIN :: nat where
  "EFLASH_ADDR_PARAMETERS_MAIN = MB + EFLASH_ADDR_PARAMETERS_OFFSET"
definition EFLASH_ADDR_PARAMETERS_COPY :: nat where
  "EFLASH_ADDR_PARAMETERS_COPY = CB + EFLASH_ADDR_PARAMETERS_OFFSET"
definition EFLASH_ADDR_STARTUP_BLOCK_MAIN :: nat where
  "EFLASH_ADDR_STARTUP_BLOCK_MAIN = MB + EFLASH_ADDR_STARTUP_BLOCK_OFFSET"
definition EFLASH_ADDR_STARTUP_BLOCK_COPY :: nat where
  "EFLASH_ADDR_STARTUP_BLOCK_COPY = CB + EFLASH_ADDR_STARTUP_BLOCK_OFFSET"
definition EFLASH_ADDR_BUILD_INFO_MAIN :: nat where
  "EFLASH_ADDR_BUILD_INFO_MAIN = MB + EFLASH_ADDR_BUILD_INFO_OFFSET"
definition EFLASH_ADDR_BUILD_INFO_COPY :: nat where
  "EFLASH_ADDR_BUILD_INFO_COPY = CB + EFLASH_ADDR_BUILD_INFO_OFFSET"

lemmas slot_addresses = EFLASH_ADDR_GLOBAL_MAIN_def EFLASH_ADDR_GLOBAL_COPY_def
  EFLASH_ADDR_PARAMETERS_MAIN_def EFLASH_ADDR_PARAMETERS_COPY_def EFLASH_ADDR_STARTUP_BLOCK_MAIN_def
  EFLASH_ADDR_STARTUP_BLOCK_COPY_def EFLASH_ADDR_BUILD_INFO_MAIN_def EFLASH_ADDR_BUILD_INFO_COPY_def
  N_AXIS_def LINE_BUFFER_SIZE_def

section \<open>Memory layout of the data\<close>

definition word_bytes :: "u32 \<Rightarrow> u8 list" where
  "word_bytes w = [byte_of 0 w, byte_of 1 w, byte_of 2 w, byte_of 3 w]"

definition word_at :: "u8 list \<Rightarrow> nat \<Rightarrow> u32" where
  "word_at bs i = word_of_bytes (bs ! i) (bs ! (i + 1)) (bs ! (i + 2)) (bs ! (i + 3))"

definition f32_bytes :: "fl \<Rightarrow> u8 list" where
  "f32_bytes x = word_bytes (f32_bits x)"

definition f32_at :: "u8 list \<Rightarrow> nat \<Rightarrow> fl" where
  "f32_at bs i = f32_of_bits (word_at bs i)"

definition vec_bytes :: "fl vec \<Rightarrow> u8 list" where
  "vec_bytes v = concat (map f32_bytes v)"

definition vec_at :: "u8 list \<Rightarrow> nat \<Rightarrow> fl vec" where
  "vec_at bs i = [f32_at bs i, f32_at bs (i + 4), f32_at bs (i + 8)]"

text \<open>The padding bytes of the structure are zero: \<open>settings\<close> is a global.\<close>

definition settings_bytes :: "settings_t \<Rightarrow> u8 list" where
  "settings_bytes s =
     vec_bytes (steps_per_mm s) @ vec_bytes (max_rate s) @ vec_bytes (acceleration s) @ vec_bytes (max_travel s) @
     [pulse_microseconds s, step_invert_mask s, dir_invert_mask s, stepper_idle_lock_time s] @
     [status_report_mask s, 0, 0, 0] @
     f32_bytes (junction_deviation s) @ f32_bytes (arc_tolerance s) @
     [flags s, homing_dir_mask s, 0, 0] @
     f32_bytes (homing_feed_rate s) @ f32_bytes (homing_seek_rate s) @
     word_bytes (ucast (homing_debounce_delay s)) @
     f32_bytes (homing_pulloff s) @
     word_bytes (spindle_pwm_period s) @ word_bytes (spindle_pwm_max_time_on s) @
     word_bytes (spindle_pwm_min_time_on s) @ word_bytes (spindle_pwm_enable_at_start s)"

definition settings_of_bytes :: "u8 list \<Rightarrow> settings_t" where
  "settings_of_bytes bs = \<lparr>
     steps_per_mm = vec_at bs 0, max_rate = vec_at bs 12, acceleration = vec_at bs 24, max_travel = vec_at bs 36,
     pulse_microseconds = bs ! 48, step_invert_mask = bs ! 49, dir_invert_mask = bs ! 50,
     stepper_idle_lock_time = bs ! 51, status_report_mask = bs ! 52,
     junction_deviation = f32_at bs 56, arc_tolerance = f32_at bs 60,
     flags = bs ! 64, homing_dir_mask = bs ! 65,
     homing_feed_rate = f32_at bs 68, homing_seek_rate = f32_at bs 72,
     homing_debounce_delay = ucast (word_at bs 76), homing_pulloff = f32_at bs 80,
     spindle_pwm_period = word_at bs 84, spindle_pwm_max_time_on = word_at bs 88,
     spindle_pwm_min_time_on = word_at bs 92, spindle_pwm_enable_at_start = word_at bs 96\<rparr>"

definition SIZEOF_SETTINGS :: nat where "SIZEOF_SETTINGS = 100"
definition SIZEOF_VECTOR :: nat where "SIZEOF_VECTOR = 12"

section \<open>Writing\<close>

definition write_global_settings :: "settings_t \<Rightarrow> flash \<Rightarrow> flash option" where
  "write_global_settings s f =
     (if \<not> flash_verify_erase_need EFLASH_MAIN_BASE_ADDRESS (settings_bytes s) f then
        Some (memcpy_to_flash_with_checksum EFLASH_ADDR_GLOBAL_MAIN (settings_bytes s)
          (flash_put_char EFLASH_MAIN_BASE_ADDRESS SETTINGS_VERSION f))
      else
        let f = delete_copy_sector f;
            f = flash_put_char EFLASH_COPY_BASE_ADDRESS SETTINGS_VERSION f;
            f = memcpy_to_flash_with_checksum EFLASH_ADDR_GLOBAL_COPY (settings_bytes s) f
        in Option.bind (copy_from_main_to_copy EFLASH_ADDR_PARAMETERS_OFFSET EFLASH_ERASE_AND_RESTORE_OFFSET f)
             (\<lambda>f. Some (restore_default_sector_status (update_main_sector_status MAIN_SECTOR_COPIED f))))"

definition settings_write_coord_data :: "u8 \<Rightarrow> fl vec \<Rightarrow> flash \<Rightarrow> flash option" where
  "settings_write_coord_data coord_select coord_data f =
     (let off = unat coord_select * (4 * (N_AXIS + 1));
          addr = off + EFLASH_ADDR_PARAMETERS_MAIN; addr_copy = off + EFLASH_ADDR_PARAMETERS_COPY in
      if \<not> flash_verify_erase_need addr (vec_bytes coord_data) f then
        Some (memcpy_to_flash_with_checksum addr (vec_bytes coord_data) f)
      else
        let f = delete_copy_sector f; f = memcpy_to_flash_with_checksum addr_copy (vec_bytes coord_data) f
        in Option.bind (copy_from_main_to_copy 0 (EFLASH_ADDR_PARAMETERS_OFFSET + off) f) (\<lambda>f.
           Option.bind (copy_from_main_to_copy
             (EFLASH_ADDR_PARAMETERS_OFFSET + (unat coord_select + 1) * 4 * (N_AXIS + 1)) EFLASH_ERASE_AND_RESTORE_OFFSET f) (\<lambda>f.
           Some (restore_default_sector_status (update_main_sector_status MAIN_SECTOR_COPIED f)))))"

text \<open>A line is the array of \<open>LINE_BUFFER_SIZE\<close> bytes at the pointer.\<close>

definition settings_store_startup_line :: "nat \<Rightarrow> u8 list \<Rightarrow> flash \<Rightarrow> flash option" where
  "settings_store_startup_line n line f =
     (let off = n * (LINE_BUFFER_SIZE + 4);
          addr = off + EFLASH_ADDR_STARTUP_BLOCK_MAIN; addr_copy = off + EFLASH_ADDR_STARTUP_BLOCK_COPY in
      if \<not> flash_verify_erase_need addr line f then
        Some (memcpy_to_flash_with_checksum addr line f)
      else
        let f = delete_copy_sector f; f = memcpy_to_flash_with_checksum addr_copy line f
        in Option.bind (copy_from_main_to_copy 0 (EFLASH_ADDR_STARTUP_BLOCK_OFFSET + off - 1) f) (\<lambda>f.
           Option.bind (copy_from_main_to_copy
             (off + LINE_BUFFER_SIZE + EFLASH_ADDR_STARTUP_BLOCK_OFFSET) EFLASH_ERASE_AND_RESTORE_OFFSET f) (\<lambda>f.
           Some (restore_default_sector_status (update_main_sector_status MAIN_SECTOR_COPIED f)))))"

definition settings_store_build_info :: "u8 list \<Rightarrow> flash \<Rightarrow> flash option" where
  "settings_store_build_info line f =
     (let addr = EFLASH_ADDR_BUILD_INFO_MAIN; addr_copy = EFLASH_ADDR_BUILD_INFO_COPY in
      if \<not> flash_verify_erase_need addr line f then
        Some (memcpy_to_flash_with_checksum addr line f)
      else
        let f = delete_copy_sector f; f = memcpy_to_flash_with_checksum addr_copy line f
        in Option.bind (copy_from_main_to_copy 0 addr f) (\<lambda>f.
           Some (restore_default_sector_status (update_main_sector_status MAIN_SECTOR_COPIED f))))"

section \<open>Reading\<close>

definition settings_read_startup_line :: "nat \<Rightarrow> flash \<Rightarrow> (bool \<times> u8 list \<times> flash) option" where
  "settings_read_startup_line n f =
     (case memcpy_from_flash_with_checksum (n * (LINE_BUFFER_SIZE + 4) + EFLASH_ADDR_STARTUP_BLOCK_MAIN) LINE_BUFFER_SIZE f of
        (line, True) \<Rightarrow> Some (True, line, f)
      | (line, False) \<Rightarrow>
          let line = line[0 := 0] in
          Option.bind (settings_store_startup_line n line f) (\<lambda>f. Some (False, line, f)))"

definition settings_read_build_info :: "flash \<Rightarrow> (bool \<times> u8 list \<times> flash) option" where
  "settings_read_build_info f =
     (case memcpy_from_flash_with_checksum EFLASH_ADDR_BUILD_INFO_MAIN LINE_BUFFER_SIZE f of
        (line, True) \<Rightarrow> Some (True, line, f)
      | (line, False) \<Rightarrow>
          let line = line[0 := 0] in
          Option.bind (settings_store_build_info line f) (\<lambda>f. Some (False, line, f)))"

definition zero_vec :: "fl vec" where "zero_vec = [Fin 0, Fin 0, Fin 0]"

definition settings_read_coord_data :: "u8 \<Rightarrow> flash \<Rightarrow> (bool \<times> fl vec \<times> flash) option" where
  "settings_read_coord_data coord_select f =
     (case memcpy_from_flash_with_checksum
             (unat coord_select * (4 * (N_AXIS + 1)) + EFLASH_ADDR_PARAMETERS_MAIN) SIZEOF_VECTOR f of
        (bs, True) \<Rightarrow> Some (True, vec_at bs 0, f)
      | (bs, False) \<Rightarrow>
          Option.bind (settings_write_coord_data coord_select zero_vec f) (\<lambda>f. Some (False, zero_vec, f)))"

text \<open>On a bad checksum the structure has been overwritten all the same.\<close>

definition read_global_settings :: "settings_t \<Rightarrow> flash \<Rightarrow> bool \<times> settings_t" where
  "read_global_settings s f =
     (if flash_get_char EFLASH_MAIN_BASE_ADDRESS f = SETTINGS_VERSION then
        case memcpy_from_flash_with_checksum EFLASH_ADDR_GLOBAL_MAIN SIZEOF_SETTINGS f of
          (bs, ok) \<Rightarrow> (ok, settings_of_bytes bs)
      else (False, s))"

section \<open>Pin masks\<close>

definition get_step_pin_mask :: "nat \<Rightarrow> u16" where
  "get_step_pin_mask axis_idx = (if axis_idx = X_AXIS then bit_of 10 else if axis_idx = Y_AXIS then bit_of 3 else bit_of 5)"

definition get_direction_pin_mask :: "nat \<Rightarrow> u16" where
  "get_direction_pin_mask axis_idx = (if axis_idx = X_AXIS then bit_of 4 else if axis_idx = Y_AXIS then bit_of 10 else bit_of 8)"

definition get_limit_pin_mask :: "nat \<Rightarrow> u16" where
  "get_limit_pin_mask axis_idx = (if axis_idx = X_AXIS then bit_of 7 else if axis_idx = Y_AXIS then bit_of 6 else bit_of 0)"

definition port_mask :: "u8 \<Rightarrow> (nat \<Rightarrow> u16) \<Rightarrow> u16" where
  "port_mask m pin = fold (\<lambda>idx acc. if bit_istrue m (bit_of idx) then acc OR pin idx else acc) [0..<N_AXIS] 0"

text \<open>\<open>st_generate_step_dir_invert_masks\<close> of \<open>stepper.c\<close>: the step and direction port masks.\<close>

definition st_generate_step_dir_invert_masks :: "settings_t \<Rightarrow> u16 \<times> u16" where
  "st_generate_step_dir_invert_masks s =
     (port_mask (step_invert_mask s) get_step_pin_mask, port_mask (dir_invert_mask s) get_direction_pin_mask)"

text \<open>The settings with what their commands change: the flash, the stepper port masks and the
  enabling of the limit pin interrupts (\<open>limits_init\<close>, \<open>limits_disable\<close>).\<close>

record settings_env =
  settings :: settings_t
  nvm :: flash
  step_port_invert_mask :: u16
  dir_port_invert_mask :: u16
  limit_irq_enabled :: bool

definition limits_disable :: "settings_env \<Rightarrow> settings_env" where
  "limits_disable e = e\<lparr>limit_irq_enabled := False\<rparr>"

definition limits_init :: "settings_env \<Rightarrow> settings_env" where
  "limits_init e =
     (if bit_istrue (flags (settings e)) BITFLAG_HARD_LIMIT_ENABLE then e\<lparr>limit_irq_enabled := True\<rparr>
      else limits_disable e)"

definition regenerate_masks :: "settings_env \<Rightarrow> settings_env" where
  "regenerate_masks e =
     (case st_generate_step_dir_invert_masks (settings e) of
        (st, dir) \<Rightarrow> e\<lparr>step_port_invert_mask := st, dir_port_invert_mask := dir\<rparr>)"

section \<open>Restoring defaults\<close>

definition f32_lit :: "rat \<Rightarrow> fl" where
  "f32_lit q = to_f32 (f64_lit q)"

text \<open>The values of \<open>defaults_cpcb.h\<close> and \<open>pwm_spindle_params_afro20.h\<close>.\<close>

definition DEFAULT_X_STEPS_PER_MM :: rat where "DEFAULT_X_STEPS_PER_MM = 100"
definition DEFAULT_Y_STEPS_PER_MM :: rat where "DEFAULT_Y_STEPS_PER_MM = 100"
definition DEFAULT_Z_STEPS_PER_MM :: rat where "DEFAULT_Z_STEPS_PER_MM = 100"
definition DEFAULT_X_MAX_RATE :: rat where "DEFAULT_X_MAX_RATE = 1000"
definition DEFAULT_Y_MAX_RATE :: rat where "DEFAULT_Y_MAX_RATE = 1000"
definition DEFAULT_Z_MAX_RATE :: rat where "DEFAULT_Z_MAX_RATE = 500"
definition DEFAULT_X_ACCELERATION :: rat where "DEFAULT_X_ACCELERATION = 10 * 60 * 60"
definition DEFAULT_Y_ACCELERATION :: rat where "DEFAULT_Y_ACCELERATION = 10 * 60 * 60"
definition DEFAULT_Z_ACCELERATION :: rat where "DEFAULT_Z_ACCELERATION = 10 * 60 * 60"
definition DEFAULT_X_MAX_TRAVEL :: rat where "DEFAULT_X_MAX_TRAVEL = 200"
definition DEFAULT_Y_MAX_TRAVEL :: rat where "DEFAULT_Y_MAX_TRAVEL = 200"
definition DEFAULT_Z_MAX_TRAVEL :: rat where "DEFAULT_Z_MAX_TRAVEL = 200"
definition DEFAULT_STEP_PULSE_MICROSECONDS :: u8 where "DEFAULT_STEP_PULSE_MICROSECONDS = 10"
definition DEFAULT_STEPPING_INVERT_MASK :: u8 where "DEFAULT_STEPPING_INVERT_MASK = 0"
definition DEFAULT_DIRECTION_INVERT_MASK :: u8 where "DEFAULT_DIRECTION_INVERT_MASK = 0"
definition DEFAULT_STEPPER_IDLE_LOCK_TIME :: u8 where "DEFAULT_STEPPER_IDLE_LOCK_TIME = 255"
definition DEFAULT_STATUS_REPORT_MASK :: u8 where "DEFAULT_STATUS_REPORT_MASK = bit_of 0 OR bit_of 1"
definition DEFAULT_JUNCTION_DEVIATION :: rat where "DEFAULT_JUNCTION_DEVIATION = 1 / 100"
definition DEFAULT_ARC_TOLERANCE :: rat where "DEFAULT_ARC_TOLERANCE = 2 / 1000"
definition DEFAULT_REPORT_INCHES :: bool where "DEFAULT_REPORT_INCHES = False"
definition DEFAULT_INVERT_ST_ENABLE :: bool where "DEFAULT_INVERT_ST_ENABLE = False"
definition DEFAULT_INVERT_LIMIT_PINS :: bool where "DEFAULT_INVERT_LIMIT_PINS = False"
definition DEFAULT_SOFT_LIMIT_ENABLE :: bool where "DEFAULT_SOFT_LIMIT_ENABLE = False"
definition DEFAULT_HARD_LIMIT_ENABLE :: bool where "DEFAULT_HARD_LIMIT_ENABLE = True"
definition DEFAULT_HOMING_ENABLE :: bool where "DEFAULT_HOMING_ENABLE = True"
definition DEFAULT_HOMING_DIR_MASK :: u8 where "DEFAULT_HOMING_DIR_MASK = 0"
definition DEFAULT_HOMING_FEED_RATE :: rat where "DEFAULT_HOMING_FEED_RATE = 25"
definition DEFAULT_HOMING_SEEK_RATE :: rat where "DEFAULT_HOMING_SEEK_RATE = 500"
definition DEFAULT_HOMING_DEBOUNCE_DELAY :: u16 where "DEFAULT_HOMING_DEBOUNCE_DELAY = 250"
definition DEFAULT_HOMING_PULLOFF :: rat where "DEFAULT_HOMING_PULLOFF = 1"

definition DEFAULT_SPINDLE_PWM_PERIOD :: u32 where "DEFAULT_SPINDLE_PWM_PERIOD = 20000"
definition DEFAULT_SPINDLE_PWM_MAX_TIME_ON :: u32 where "DEFAULT_SPINDLE_PWM_MAX_TIME_ON = 1860"
definition DEFAULT_SPINDLE_PWM_MIN_TIME_ON :: u32 where "DEFAULT_SPINDLE_PWM_MIN_TIME_ON = 1060"
definition DEFAULT_SPINDLE_PWM_ENABLE_AT_START :: u32 where "DEFAULT_SPINDLE_PWM_ENABLE_AT_START = 1"

lemmas default_values = DEFAULT_X_STEPS_PER_MM_def DEFAULT_Y_STEPS_PER_MM_def DEFAULT_Z_STEPS_PER_MM_def DEFAULT_X_MAX_RATE_def
  DEFAULT_Y_MAX_RATE_def DEFAULT_Z_MAX_RATE_def DEFAULT_X_ACCELERATION_def DEFAULT_Y_ACCELERATION_def
  DEFAULT_Z_ACCELERATION_def DEFAULT_X_MAX_TRAVEL_def DEFAULT_Y_MAX_TRAVEL_def DEFAULT_Z_MAX_TRAVEL_def
  DEFAULT_STEP_PULSE_MICROSECONDS_def DEFAULT_STEPPING_INVERT_MASK_def DEFAULT_DIRECTION_INVERT_MASK_def DEFAULT_STEPPER_IDLE_LOCK_TIME_def
  DEFAULT_STATUS_REPORT_MASK_def DEFAULT_JUNCTION_DEVIATION_def DEFAULT_ARC_TOLERANCE_def DEFAULT_REPORT_INCHES_def
  DEFAULT_INVERT_ST_ENABLE_def DEFAULT_INVERT_LIMIT_PINS_def DEFAULT_SOFT_LIMIT_ENABLE_def DEFAULT_HARD_LIMIT_ENABLE_def
  DEFAULT_HOMING_ENABLE_def DEFAULT_HOMING_DIR_MASK_def DEFAULT_HOMING_FEED_RATE_def DEFAULT_HOMING_SEEK_RATE_def
  DEFAULT_HOMING_DEBOUNCE_DELAY_def DEFAULT_HOMING_PULLOFF_def DEFAULT_SPINDLE_PWM_PERIOD_def DEFAULT_SPINDLE_PWM_MAX_TIME_ON_def
  DEFAULT_SPINDLE_PWM_MIN_TIME_ON_def DEFAULT_SPINDLE_PWM_ENABLE_AT_START_def

text \<open>The probe pin flag is cleared with the rest of \<open>flags\<close>.\<close>

definition default_flags :: u8 where
  "default_flags =
     (let f = 0;
          f = (if DEFAULT_REPORT_INCHES then bit_true f BITFLAG_REPORT_INCHES else f);
          f = (if DEFAULT_INVERT_ST_ENABLE then bit_true f BITFLAG_INVERT_ST_ENABLE else f);
          f = (if DEFAULT_INVERT_LIMIT_PINS then bit_true f BITFLAG_INVERT_LIMIT_PINS else f);
          f = (if DEFAULT_SOFT_LIMIT_ENABLE then bit_true f BITFLAG_SOFT_LIMIT_ENABLE else f);
          f = (if DEFAULT_HARD_LIMIT_ENABLE then bit_true f BITFLAG_HARD_LIMIT_ENABLE else f)
      in if DEFAULT_HOMING_ENABLE then bit_true f BITFLAG_HOMING_ENABLE else f)"

definition default_settings :: settings_t where
  "default_settings = \<lparr>
     steps_per_mm = map f32_lit [DEFAULT_X_STEPS_PER_MM, DEFAULT_Y_STEPS_PER_MM, DEFAULT_Z_STEPS_PER_MM],
     max_rate = map f32_lit [DEFAULT_X_MAX_RATE, DEFAULT_Y_MAX_RATE, DEFAULT_Z_MAX_RATE],
     acceleration = map f32_lit [DEFAULT_X_ACCELERATION, DEFAULT_Y_ACCELERATION, DEFAULT_Z_ACCELERATION],
     max_travel = map f32_lit [- DEFAULT_X_MAX_TRAVEL, - DEFAULT_Y_MAX_TRAVEL, - DEFAULT_Z_MAX_TRAVEL],
     pulse_microseconds = DEFAULT_STEP_PULSE_MICROSECONDS, step_invert_mask = DEFAULT_STEPPING_INVERT_MASK,
     dir_invert_mask = DEFAULT_DIRECTION_INVERT_MASK, stepper_idle_lock_time = DEFAULT_STEPPER_IDLE_LOCK_TIME,
     status_report_mask = DEFAULT_STATUS_REPORT_MASK,
     junction_deviation = f32_lit DEFAULT_JUNCTION_DEVIATION, arc_tolerance = f32_lit DEFAULT_ARC_TOLERANCE,
     flags = default_flags, homing_dir_mask = DEFAULT_HOMING_DIR_MASK,
     homing_feed_rate = f32_lit DEFAULT_HOMING_FEED_RATE, homing_seek_rate = f32_lit DEFAULT_HOMING_SEEK_RATE,
     homing_debounce_delay = DEFAULT_HOMING_DEBOUNCE_DELAY, homing_pulloff = f32_lit DEFAULT_HOMING_PULLOFF,
     spindle_pwm_period = DEFAULT_SPINDLE_PWM_PERIOD, spindle_pwm_max_time_on = DEFAULT_SPINDLE_PWM_MAX_TIME_ON,
     spindle_pwm_min_time_on = DEFAULT_SPINDLE_PWM_MIN_TIME_ON,
     spindle_pwm_enable_at_start = DEFAULT_SPINDLE_PWM_ENABLE_AT_START\<rparr>"

fun restore_coords :: "nat \<Rightarrow> flash \<Rightarrow> flash option" where
  "restore_coords 0 f = Some f"
| "restore_coords (Suc i) f =
     Option.bind (restore_coords i f) (\<lambda>f. settings_write_coord_data (of_nat i) zero_vec f)"

definition settings_restore :: "u8 \<Rightarrow> settings_env \<Rightarrow> settings_env option" where
  "settings_restore restore_flag e =
     Option.bind
       (if bit_istrue restore_flag SETTINGS_RESTORE_DEFAULTS then
          Option.bind (write_global_settings default_settings (nvm e))
            (\<lambda>f. Some (e\<lparr>settings := default_settings, nvm := f\<rparr>))
        else Some e) (\<lambda>e.
     Option.bind
       (if bit_istrue restore_flag SETTINGS_RESTORE_PARAMETERS then
          Option.bind (restore_coords (unat SETTING_INDEX_NCOORD + 1) (nvm e)) (\<lambda>f. Some (e\<lparr>nvm := f\<rparr>))
        else Some e) (\<lambda>e.
     let f = nvm e;
         f = (if bit_istrue restore_flag SETTINGS_RESTORE_STARTUP_LINES then
                flash_put_char (EFLASH_ADDR_STARTUP_BLOCK_MAIN + (LINE_BUFFER_SIZE + 4)) 0
                  (flash_put_char EFLASH_ADDR_STARTUP_BLOCK_MAIN 0 f)
              else f);
         f = (if bit_istrue restore_flag SETTINGS_RESTORE_BUILD_INFO then
                flash_put_char EFLASH_ADDR_BUILD_INFO_MAIN 0 f
              else f)
     in Some (e\<lparr>nvm := f\<rparr>)))"

text \<open>\<open>settings_init\<close>; the first component tells whether the settings had to be restored, in which
  case the read failure and the settings are reported.\<close>

definition settings_init :: "settings_env \<Rightarrow> (bool \<times> settings_env) option" where
  "settings_init e =
     (let f = restore_default_sector_status (nvm e);
          (ok, s) = read_global_settings (settings e) f;
          e = e\<lparr>nvm := f, settings := s\<rparr> in
      if \<not> ok then Option.bind (settings_restore SETTINGS_RESTORE_ALL e) (\<lambda>e. Some (True, e))
      else Some (False, e))"

section \<open>The settings command\<close>

definition STATUS_OK :: u8 where "STATUS_OK = 0"
definition STATUS_INVALID_STATEMENT :: u8 where "STATUS_INVALID_STATEMENT = 3"
definition STATUS_NEGATIVE_VALUE :: u8 where "STATUS_NEGATIVE_VALUE = 4"
definition STATUS_SETTING_STEP_PULSE_MIN :: u8 where "STATUS_SETTING_STEP_PULSE_MIN = 6"
definition STATUS_SETTING_READ_FAIL :: u8 where "STATUS_SETTING_READ_FAIL = 7"
definition STATUS_SOFT_LIMIT_ERROR :: u8 where "STATUS_SOFT_LIMIT_ERROR = 10"

definition AXIS_N_SETTINGS :: nat where "AXIS_N_SETTINGS = 4"
definition AXIS_SETTINGS_START_VAL :: u8 where "AXIS_SETTINGS_START_VAL = 100"
definition AXIS_SETTINGS_INCREMENT :: u8 where "AXIS_SETTINGS_INCREMENT = 10"

text \<open>The search of the axis setting: the setting index and the axis.  The first argument counts
  the turns that remain before \<open>set_idx\<close> is \<open>AXIS_N_SETTINGS\<close>.\<close>

fun find_axis_setting :: "nat \<Rightarrow> nat \<Rightarrow> u8 \<Rightarrow> (nat \<times> nat) option" where
  "find_axis_setting 0 set_idx parameter = None"
| "find_axis_setting (Suc n) set_idx parameter =
     (if parameter < of_nat N_AXIS then Some (set_idx, unat parameter)
      else if parameter < AXIS_SETTINGS_INCREMENT \<or> set_idx + 1 = AXIS_N_SETTINGS then None
      else find_axis_setting n (set_idx + 1) (parameter - AXIS_SETTINGS_INCREMENT))"

definition set_axis :: "nat \<Rightarrow> nat \<Rightarrow> fl \<Rightarrow> settings_t \<Rightarrow> settings_t" where
  "set_axis set_idx axis v s =
     (if set_idx = 0 then s\<lparr>steps_per_mm := (steps_per_mm s)[axis := v]\<rparr>
      else if set_idx = 1 then s\<lparr>max_rate := (max_rate s)[axis := v]\<rparr>
      else if set_idx = 2 then
        s\<lparr>acceleration := (acceleration s)[axis := f32_mul (f32_mul v (f32_of_int 60)) (f32_of_int 60)]\<rparr>
      else s\<lparr>max_travel := (max_travel s)[axis := fl_neg v]\<rparr>)"

definition put_flag :: "bool \<Rightarrow> u8 \<Rightarrow> settings_t \<Rightarrow> settings_t" where
  "put_flag b m s = s\<lparr>flags := (if b then bit_true (flags s) m else bit_false (flags s) m)\<rparr>"

text \<open>The switch over the other parameters: an error code, or the new state.\<close>

definition set_parameter :: "u8 \<Rightarrow> fl \<Rightarrow> settings_env \<Rightarrow> u8 + settings_env" where
  "set_parameter parameter v e =
     (let int_value = fl_to_u8 (fl_trunc v); int_value16 = ucast (fl_to_u32 (fl_trunc v)) :: u16;
          int_value32 = fl_to_u32 (fl_trunc v); b = (int_value \<noteq> 0); s = settings e;
          upd = (\<lambda>s. Inr (e\<lparr>settings := s\<rparr>)) in
      if parameter = 0 then
        if int_value < 3 then Inl STATUS_SETTING_STEP_PULSE_MIN else upd (s\<lparr>pulse_microseconds := int_value\<rparr>)
      else if parameter = 1 then upd (s\<lparr>stepper_idle_lock_time := int_value\<rparr>)
      else if parameter = 2 then Inr (regenerate_masks (e\<lparr>settings := s\<lparr>step_invert_mask := int_value\<rparr>\<rparr>))
      else if parameter = 3 then Inr (regenerate_masks (e\<lparr>settings := s\<lparr>dir_invert_mask := int_value\<rparr>\<rparr>))
      else if parameter = 4 then upd (put_flag b BITFLAG_INVERT_ST_ENABLE s)
      else if parameter = 5 then upd (put_flag b BITFLAG_INVERT_LIMIT_PINS s)
      else if parameter = 6 then upd (put_flag b BITFLAG_INVERT_PROBE_PIN s)
      else if parameter = 10 then upd (s\<lparr>status_report_mask := int_value\<rparr>)
      else if parameter = 11 then upd (s\<lparr>junction_deviation := v\<rparr>)
      else if parameter = 12 then upd (s\<lparr>arc_tolerance := v\<rparr>)
      else if parameter = 13 then upd (put_flag b BITFLAG_REPORT_INCHES s)
      else if parameter = 20 then
        if b \<and> bit_isfalse (flags s) BITFLAG_HOMING_ENABLE then Inl STATUS_SOFT_LIMIT_ERROR
        else upd (put_flag b BITFLAG_SOFT_LIMIT_ENABLE s)
      else if parameter = 21 then Inr (limits_init (e\<lparr>settings := put_flag b BITFLAG_HARD_LIMIT_ENABLE s\<rparr>))
      else if parameter = 22 then
        if b then upd (put_flag True BITFLAG_HOMING_ENABLE s)
        else upd (put_flag False BITFLAG_SOFT_LIMIT_ENABLE (put_flag False BITFLAG_HOMING_ENABLE s))
      else if parameter = 23 then upd (s\<lparr>homing_dir_mask := int_value\<rparr>)
      else if parameter = 24 then upd (s\<lparr>homing_feed_rate := v\<rparr>)
      else if parameter = 25 then upd (s\<lparr>homing_seek_rate := v\<rparr>)
      else if parameter = 26 then upd (s\<lparr>homing_debounce_delay := int_value16\<rparr>)
      else if parameter = 27 then upd (s\<lparr>homing_pulloff := v\<rparr>)
      else if parameter = 28 then upd (s\<lparr>spindle_pwm_period := int_value32\<rparr>)
      else if parameter = 29 then upd (s\<lparr>spindle_pwm_max_time_on := int_value32\<rparr>)
      else if parameter = 30 then upd (s\<lparr>spindle_pwm_min_time_on := int_value32\<rparr>)
      else if parameter = 31 then upd (s\<lparr>spindle_pwm_enable_at_start := int_value32\<rparr>)
      else Inl STATUS_INVALID_STATEMENT)"

definition settings_store_global_setting :: "u8 \<Rightarrow> fl \<Rightarrow> settings_env \<Rightarrow> (u8 \<times> settings_env) option" where
  "settings_store_global_setting parameter v e =
     (if fl_lt v (Fin 0) then Some (STATUS_NEGATIVE_VALUE, e)
      else case
        (if parameter \<ge> AXIS_SETTINGS_START_VAL then
           (case find_axis_setting AXIS_N_SETTINGS 0 (parameter - AXIS_SETTINGS_START_VAL) of
              None \<Rightarrow> Inl STATUS_INVALID_STATEMENT
            | Some (set_idx, axis) \<Rightarrow> Inr (e\<lparr>settings := set_axis set_idx axis v (settings e)\<rparr>))
         else set_parameter parameter v e) of
        Inl status \<Rightarrow> Some (status, e)
      | Inr e \<Rightarrow> Option.bind (write_global_settings (settings e) (nvm e)) (\<lambda>f. Some (STATUS_OK, e\<lparr>nvm := f\<rparr>)))"

section \<open>The layout round trip\<close>

definition vec_wf :: "fl vec \<Rightarrow> bool" where
  "vec_wf v = (length v = N_AXIS \<and> list_all is_f32 v)"

definition settings_wf :: "settings_t \<Rightarrow> bool" where
  "settings_wf s = (vec_wf (steps_per_mm s) \<and> vec_wf (max_rate s) \<and> vec_wf (acceleration s) \<and> vec_wf (max_travel s) \<and>
     is_f32 (junction_deviation s) \<and> is_f32 (arc_tolerance s) \<and> is_f32 (homing_feed_rate s) \<and>
     is_f32 (homing_seek_rate s) \<and> is_f32 (homing_pulloff s))"

lemma vec_wf_cases: "vec_wf v \<Longrightarrow> \<exists>x y z. v = [x, y, z] \<and> is_f32 x \<and> is_f32 y \<and> is_f32 z"
  by (auto simp: vec_wf_def N_AXIS_def length_Suc_conv numeral_3_eq_3)

lemma word_of_word_bytes: "word_of_bytes (byte_of 0 w) (byte_of (Suc 0) w) (byte_of 2 w) (byte_of 3 w) = w"
  using word_of_bytes_of by simp

lemma ucast_up_down: "ucast (ucast (d :: u16) :: u32) = d"
  by transfer simp

lemma vec_round_trip:
  assumes "vec_wf v"
  shows "vec_at (vec_bytes v) 0 = v" "length (vec_bytes v) = SIZEOF_VECTOR"
proof -
  obtain x y z where v: "v = [x, y, z]" "is_f32 x" "is_f32 y" "is_f32 z" using vec_wf_cases [OF assms] by blast
  show "vec_at (vec_bytes v) 0 = v" "length (vec_bytes v) = SIZEOF_VECTOR"
    using v(2-4) by (simp_all add: v(1) vec_at_def vec_bytes_def f32_at_def f32_bytes_def word_at_def word_bytes_def
        word_of_word_bytes is_f32_def SIZEOF_VECTOR_def)
qed

lemma settings_round_trip:
  assumes "settings_wf s"
  shows "settings_of_bytes (settings_bytes s) = s" "length (settings_bytes s) = SIZEOF_SETTINGS"
proof -
  obtain a1 a2 a3 b1 b2 b3 c1 c2 c3 d1 d2 d3 where v: "steps_per_mm s = [a1, a2, a3]" "max_rate s = [b1, b2, b3]"
    "acceleration s = [c1, c2, c3]" "max_travel s = [d1, d2, d3]"
    and f: "is_f32 a1" "is_f32 a2" "is_f32 a3" "is_f32 b1" "is_f32 b2" "is_f32 b3" "is_f32 c1" "is_f32 c2" "is_f32 c3"
    "is_f32 d1" "is_f32 d2" "is_f32 d3"
    using assms unfolding settings_wf_def by (metis vec_wf_cases)
  have b: "settings_bytes s =
     f32_bytes a1 @ f32_bytes a2 @ f32_bytes a3 @ f32_bytes b1 @ f32_bytes b2 @ f32_bytes b3 @
     f32_bytes c1 @ f32_bytes c2 @ f32_bytes c3 @ f32_bytes d1 @ f32_bytes d2 @ f32_bytes d3 @
     [pulse_microseconds s, step_invert_mask s, dir_invert_mask s, stepper_idle_lock_time s] @
     [status_report_mask s, 0, 0, 0] @
     f32_bytes (junction_deviation s) @ f32_bytes (arc_tolerance s) @ [flags s, homing_dir_mask s, 0, 0] @
     f32_bytes (homing_feed_rate s) @ f32_bytes (homing_seek_rate s) @ word_bytes (ucast (homing_debounce_delay s)) @
     f32_bytes (homing_pulloff s) @ word_bytes (spindle_pwm_period s) @ word_bytes (spindle_pwm_max_time_on s) @
     word_bytes (spindle_pwm_min_time_on s) @ word_bytes (spindle_pwm_enable_at_start s)"
    by (simp add: settings_bytes_def v vec_bytes_def)
  show "length (settings_bytes s) = SIZEOF_SETTINGS"
    by (simp add: b f32_bytes_def word_bytes_def SIZEOF_SETTINGS_def)
  have g: "is_f32 (junction_deviation s)" "is_f32 (arc_tolerance s)" "is_f32 (homing_feed_rate s)"
    "is_f32 (homing_seek_rate s)" "is_f32 (homing_pulloff s)"
    using assms by (simp_all add: settings_wf_def)
  show "settings_of_bytes (settings_bytes s) = s"
    using f g unfolding is_f32_def
    by (simp add: b settings_of_bytes_def vec_at_def f32_at_def word_at_def f32_bytes_def word_bytes_def
        word_of_word_bytes ucast_up_down v)
qed

lemma is_f32_lit: "is_f32 (f32_lit q)"
  by (auto simp: f32_lit_def to_f32_def f64_lit_def is_f32_round split: if_splits)
     (cases "fl_round binary64 False q"; simp)

lemma default_settings_wf: "settings_wf default_settings"
  by (simp add: settings_wf_def default_settings_def vec_wf_def is_f32_lit N_AXIS_def)

lemma zero_vec_wf: "vec_wf zero_vec"
  by (simp add: vec_wf_def zero_vec_def N_AXIS_def)

section \<open>Slots of the flash\<close>

text \<open>A slot holds a valid record, or its checksum byte is still erased.\<close>

definition slot_ok :: "memory \<Rightarrow> nat \<Rightarrow> nat \<Rightarrow> bool" where
  "slot_ok m a n = (checksum (mem_bytes m a n) = m (a + n) \<or> m (a + n) = 0xFF)"

lemma in_place_read_back:
  assumes "slot_ok (mem f) a (length ds)" "\<not> flash_verify_erase_need a ds f"
  shows "memcpy_from_flash_with_checksum a (length ds) (memcpy_to_flash_with_checksum a ds f) = (ds, True)"
proof (rule memcpy_read_back)
  show "programmable (mem f) a ds" "mem f (a + length ds) AND checksum ds = checksum ds"
    using assms by (auto simp: slot_ok_def flash_verify_erase_need_def verify_loop_iff checksum_def)
qed

lemma slot_ok_read: "memcpy_from_flash_with_checksum a n f = (ds, True) \<Longrightarrow> slot_ok (mem f) a n"
  by (auto simp: memcpy_from_eq slot_ok_def)

lemma mem_delete_copy:
  "mem (delete_copy_sector f) x = (if CB \<le> x \<and> x < CB + FLASH_SECTOR_SIZE then 0xFF else mem f x)"
  by (simp add: flash_ops op_mem)

lemma memcpy_to_extends:
  assumes "CB \<le> a" "a + length ds < CB + EFLASH_ERASE_AND_RESTORE_OFFSET"
  shows "\<exists>ops. extends ops f (memcpy_to_flash_with_checksum a ds f) \<and> list_all copy_op ops"
  using put_bytes_extends [of f a ds 0] assms by (auto simp: memcpy_to_flash_with_checksum_def)

lemma main_eq_copy: "main_data m = copy_data m' \<Longrightarrow> i < EFLASH_ERASE_AND_RESTORE_OFFSET \<Longrightarrow> m (MB + i) = m' (CB + i)"
  by (metis copy_data_def main_data_def mem_bytes_simps(3))

text \<open>The complete rewrite with the new payload placed at offset \<open>p\<close>, between the parts copied
  from the main sector.\<close>

lemma rewrite_around:
  assumes cleared: "sector_status (mem f) = COPY_SECTOR_CLEARED"
    and p: "4 * n1 \<le> p + length ds" "p + length ds < EFLASH_ERASE_AND_RESTORE_OFFSET"
    and s1: "stop1 \<le> 4 * n1" "\<forall>j<n1. 4 * j < stop1"
    and s2: "start2 = p + length ds + gap" "EFLASH_ERASE_AND_RESTORE_OFFSET = start2 + 4 * m2"
    and g: "g = memcpy_to_flash_with_checksum (CB + p) ds (delete_copy_sector f)"
  shows "\<exists>h f' all. Option.bind (copy_from_main_to_copy 0 stop1 g)
        (\<lambda>f. copy_from_main_to_copy start2 EFLASH_ERASE_AND_RESTORE_OFFSET f) = Some h
    \<and> f' = commit_copy h
    \<and> extends all f f' \<and> sector_status (mem f') = COPY_SECTOR_CLEARED
    \<and> (\<forall>i<EFLASH_ERASE_AND_RESTORE_OFFSET. mem f' (MB + i) =
         (let old = mem f (MB + i);
              new = (if p \<le> i \<and> i < p + length ds then ds ! (i - p) else if i = p + length ds then checksum ds else 0xFF)
          in if i < 4 * n1 \<or> start2 \<le> i then new AND old else new))
    \<and> (\<forall>k. main_data (recover (replay (take k all) (mem f))) \<in> {main_data (mem f), main_data (mem f')})"
proof -
  let ?n = EFLASH_ERASE_AND_RESTORE_OFFSET
  have pn: "p + length ds < ?n" by (rule p(2))
  obtain o1 where o1: "extends o1 (delete_copy_sector f) g" "list_all copy_op o1"
    using memcpy_to_extends [of "CB + p" ds "delete_copy_sector f"] pn by (auto simp: g)
  obtain h1 o2 where h1: "copy_from_main_to_copy 0 stop1 g = Some h1" "extends o2 g h1" "list_all copy_op o2"
    "\<And>x. mem h1 x = (if CB \<le> x \<and> x < CB + 4 * n1 then mem g x AND mem g (x - CB + MB) else mem g x)"
    using copy_from_main_to_copy_correct [of 0 n1 stop1 g] s1 p pn by auto
  obtain h2 o3 where h2: "copy_from_main_to_copy start2 ?n h1 = Some h2" "extends o3 h1 h2" "list_all copy_op o3"
    "\<And>x. mem h2 x = (if CB + start2 \<le> x \<and> x < CB + start2 + 4 * m2 then mem h1 x AND mem h1 (x - CB + MB) else mem h1 x)"
    using copy_from_main_to_copy_correct [of start2 m2 ?n h1] s2(2) by auto
  have "extends (o1 @ o2 @ o3) (delete_copy_sector f) h2" "list_all copy_op (o1 @ o2 @ o3)"
    using extends_trans [OF o1(1) extends_trans [OF h1(2) h2(2)]] o1(2) h1(3) h2(3) by simp_all
  note ps = staged_write_power_safe [OF cleared this]
  let ?f = "commit_copy h2"
  have low: "mem g x = mem f x" "mem h1 x = mem f x" if "x < CB" for x
  proof -
    show "mem g x = mem f x" using that pn by (simp add: g memcpy_to_mem mem_delete_copy)
    then show "mem h1 x = mem f x" using that by (simp add: h1(4))
  qed
  have eff: "mem ?f (MB + i) = (let old = mem f (MB + i);
        new = (if p \<le> i \<and> i < p + length ds then ds ! (i - p) else if i = p + length ds then checksum ds else 0xFF)
      in if i < 4 * n1 \<or> start2 \<le> i then new AND old else new)" if i: "i < ?n" for i
  proof -
    have "mem ?f (MB + i) = mem h2 (CB + i)" using ps i main_eq_copy by blast
    moreover have gc: "mem g (CB + i) = (if p \<le> i \<and> i < p + length ds then ds ! (i - p) else if i = p + length ds then checksum ds else 0xFF)"
      using i by (auto simp: g memcpy_to_mem mem_delete_copy flash_addresses)
    moreover have gm: "mem g (MB + i) = mem f (MB + i)" "mem h1 (MB + i) = mem f (MB + i)"
      using i by (intro low; simp add: flash_addresses)+
    moreover have "mem h1 (CB + i) = (if i < 4 * n1 then mem g (CB + i) AND mem g (MB + i) else mem g (CB + i))"
      using h1(4) [of "CB + i"] by (simp add: add.commute)
    moreover have "mem h2 (CB + i) = (if start2 \<le> i then mem h1 (CB + i) AND mem h1 (MB + i) else mem h1 (CB + i))"
      using h2(4) [of "CB + i"] i s2(2) by (simp add: add.commute)
    moreover have "\<not> (i < 4 * n1 \<and> start2 \<le> i)" using p(1) s2(1) by auto
    ultimately show ?thesis unfolding Let_def by presburger
  qed
  obtain all where all: "extends all f ?f" "sector_status (mem ?f) = COPY_SECTOR_CLEARED"
    "\<forall>k. main_data (recover (replay (take k all) (mem f))) \<in> {main_data (mem f), main_data (mem ?f)}"
    using ps by blast
  have "Option.bind (copy_from_main_to_copy 0 stop1 g) (\<lambda>f. copy_from_main_to_copy start2 ?n f) = Some h2"
    using h1(1) h2(1) by simp
  then show ?thesis using all eff by blast
qed

text \<open>Writing coordinate data \<open>coord_select\<close> through an erase of the main sector.\<close>

lemma commit_copy_fold:
  "restore_default_sector_status (update_main_sector_status MAIN_SECTOR_COPIED f) = commit_copy f"
  by (simp add: commit_copy_def)

lemma bind_commit: "Option.bind x (\<lambda>f. Some (commit_copy f)) = map_option commit_copy x"
  by (cases x) simp_all

lemma bind_map: "Option.bind x (\<lambda>f. map_option g (k f)) = map_option g (Option.bind x k)"
  by (cases x) simp_all

lemma coord_erase_path:
  assumes cs: "unat cs \<le> 7" and v: "vec_wf v" and cleared: "sector_status (mem f) = COPY_SECTOR_CLEARED"
    and need: "flash_verify_erase_need (unat cs * 16 + EFLASH_ADDR_PARAMETERS_MAIN) (vec_bytes v) f"
  shows "\<exists>f' all. settings_write_coord_data cs v f = Some f' \<and> extends all f f'
    \<and> sector_status (mem f') = COPY_SECTOR_CLEARED
    \<and> (\<forall>i<EFLASH_ERASE_AND_RESTORE_OFFSET. mem f' (MB + i) =
        (let p = EFLASH_ADDR_PARAMETERS_OFFSET + unat cs * 16 in
         if p \<le> i \<and> i < p + 12 then vec_bytes v ! (i - p) else if i = p + 12 then checksum (vec_bytes v)
         else if p \<le> i \<and> i < p + 16 then 0xFF else mem f (MB + i)))
    \<and> (\<forall>k. main_data (recover (replay (take k all) (mem f))) \<in> {main_data (mem f), main_data (mem f')})"
proof -
  let ?p = "EFLASH_ADDR_PARAMETERS_OFFSET + unat cs * 16"
  have len: "length (vec_bytes v) = 12" using vec_round_trip(2) [OF v] by (simp add: SIZEOF_VECTOR_def)
  let ?n1 = "128 + 4 * unat cs" and ?m2 = "123 - 4 * unat cs"
  have a: "4 * ?n1 \<le> ?p + length (vec_bytes v)" "?p + length (vec_bytes v) < EFLASH_ERASE_AND_RESTORE_OFFSET"
    "?p \<le> 4 * ?n1" "\<forall>j<?n1. 4 * j < ?p" "?p + 16 = ?p + length (vec_bytes v) + 4"
    "EFLASH_ERASE_AND_RESTORE_OFFSET = ?p + 16 + 4 * ?m2"
    using cs len by (simp_all add: EFLASH_ADDR_PARAMETERS_OFFSET_def EFLASH_ERASE_AND_RESTORE_OFFSET_def)
  obtain h f' all where h: "Option.bind (copy_from_main_to_copy 0 ?p
          (memcpy_to_flash_with_checksum (CB + ?p) (vec_bytes v) (delete_copy_sector f)))
        (\<lambda>f. copy_from_main_to_copy (?p + 16) EFLASH_ERASE_AND_RESTORE_OFFSET f) = Some h"
    "f' = commit_copy h" "extends all f f'" "sector_status (mem f') = COPY_SECTOR_CLEARED"
    and eff: "\<forall>i<EFLASH_ERASE_AND_RESTORE_OFFSET. mem f' (MB + i) =
         (let old = mem f (MB + i);
              new = (if ?p \<le> i \<and> i < ?p + length (vec_bytes v) then vec_bytes v ! (i - ?p)
                else if i = ?p + length (vec_bytes v) then checksum (vec_bytes v) else 0xFF)
          in if i < 4 * (128 + 4 * unat cs) \<or> ?p + 16 \<le> i then new AND old else new)"
    and ps: "\<forall>k. main_data (recover (replay (take k all) (mem f))) \<in> {main_data (mem f), main_data (mem f')}"
    using rewrite_around [OF cleared a refl] by blast
  have "settings_write_coord_data cs v f = Some f'"
    using h(1,2) need unfolding settings_write_coord_data_def commit_copy_fold
    by (simp add: Let_def N_AXIS_def EFLASH_ADDR_PARAMETERS_COPY_def bind_commit bind_map algebra_simps)
  moreover have "mem f' (MB + i) = (let p = ?p in
         if p \<le> i \<and> i < p + 12 then vec_bytes v ! (i - p) else if i = p + 12 then checksum (vec_bytes v)
         else if p \<le> i \<and> i < p + 16 then 0xFF else mem f (MB + i))" if i: "i < EFLASH_ERASE_AND_RESTORE_OFFSET" for i
    using eff [rule_format, OF i] by (auto simp: Let_def len EFLASH_ADDR_PARAMETERS_OFFSET_def)
  ultimately show ?thesis using h(3,4) ps by blast
qed

section \<open>Coordinate data as a store\<close>

definition coord_addr :: "u8 \<Rightarrow> nat" where
  "coord_addr cs = unat cs * 16 + EFLASH_ADDR_PARAMETERS_MAIN"

definition coord_lookup :: "u8 \<Rightarrow> flash \<Rightarrow> fl vec option" where
  "coord_lookup cs f = (case memcpy_from_flash_with_checksum (coord_addr cs) SIZEOF_VECTOR f of
     (bs, ok) \<Rightarrow> if ok then Some (vec_at bs 0) else None)"

definition coord_inv :: "flash \<Rightarrow> bool" where
  "coord_inv f = (sector_status (mem f) = COPY_SECTOR_CLEARED \<and>
     (\<forall>cs. unat cs \<le> 7 \<longrightarrow> slot_ok (mem f) (coord_addr cs) SIZEOF_VECTOR))"

definition coord_key :: "u8 \<Rightarrow> bool" where "coord_key cs = (cs \<le> SETTING_INDEX_NCOORD)"

lemma coord_key_iff: "coord_key cs \<longleftrightarrow> unat cs \<le> 7"
  by (simp add: coord_key_def SETTING_INDEX_NCOORD_def N_COORDINATE_SYSTEM_def word_le_nat_alt)

text \<open>The slot of \<open>cs'\<close> and the status word are the same in two memories.\<close>

lemma coord_slot_frame:
  assumes "\<And>i. EFLASH_ADDR_PARAMETERS_OFFSET + unat cs * 16 \<le> i \<Longrightarrow> i < EFLASH_ADDR_PARAMETERS_OFFSET + unat cs * 16 + 13 \<Longrightarrow>
      mem f' (MB + i) = mem f (MB + i)"
  shows "memcpy_from_flash_with_checksum (coord_addr cs) SIZEOF_VECTOR f' = memcpy_from_flash_with_checksum (coord_addr cs) SIZEOF_VECTOR f"
    and "slot_ok (mem f') (coord_addr cs) SIZEOF_VECTOR = slot_ok (mem f) (coord_addr cs) SIZEOF_VECTOR"
proof -
  have e: "mem f' x = mem f x" if "coord_addr cs \<le> x" "x < coord_addr cs + 13" for x
    using assms [of "x - MB"] that by (simp add: coord_addr_def EFLASH_ADDR_PARAMETERS_MAIN_def add.commute)
  have b: "mem_bytes (mem f') (coord_addr cs) SIZEOF_VECTOR = mem_bytes (mem f) (coord_addr cs) SIZEOF_VECTOR"
    by (rule mem_bytes_cong) (simp add: e SIZEOF_VECTOR_def)
  have c: "mem f' (coord_addr cs + SIZEOF_VECTOR) = mem f (coord_addr cs + SIZEOF_VECTOR)"
    by (rule e) (simp_all add: SIZEOF_VECTOR_def)
  show "memcpy_from_flash_with_checksum (coord_addr cs) SIZEOF_VECTOR f' = memcpy_from_flash_with_checksum (coord_addr cs) SIZEOF_VECTOR f"
    "slot_ok (mem f') (coord_addr cs) SIZEOF_VECTOR = slot_ok (mem f) (coord_addr cs) SIZEOF_VECTOR"
    by (simp_all add: memcpy_from_eq slot_ok_def b c)
qed

lemma coord_write:
  assumes inv: "coord_inv f" and cs: "unat cs \<le> 7" and v: "vec_wf v"
  shows "\<exists>f'. settings_write_coord_data cs v f = Some f' \<and> sector_status (mem f') = COPY_SECTOR_CLEARED \<and>
    memcpy_from_flash_with_checksum (coord_addr cs) SIZEOF_VECTOR f' = (vec_bytes v, True) \<and>
    (\<forall>i<EFLASH_ERASE_AND_RESTORE_OFFSET. \<not> (EFLASH_ADDR_PARAMETERS_OFFSET + unat cs * 16 \<le> i \<and>
        i < EFLASH_ADDR_PARAMETERS_OFFSET + unat cs * 16 + 16) \<longrightarrow> mem f' (MB + i) = mem f (MB + i))"
proof (cases "flash_verify_erase_need (coord_addr cs) (vec_bytes v) f")
  case True
  have len: "length (vec_bytes v) = 12" using vec_round_trip(2) [OF v] by (simp add: SIZEOF_VECTOR_def)
  obtain f' where f': "settings_write_coord_data cs v f = Some f'" "sector_status (mem f') = COPY_SECTOR_CLEARED"
    and eff: "\<And>i. i < EFLASH_ERASE_AND_RESTORE_OFFSET \<Longrightarrow> mem f' (MB + i) =
        (let p = EFLASH_ADDR_PARAMETERS_OFFSET + unat cs * 16 in
         if p \<le> i \<and> i < p + 12 then vec_bytes v ! (i - p) else if i = p + 12 then checksum (vec_bytes v)
         else if p \<le> i \<and> i < p + 16 then 0xFF else mem f (MB + i))"
    using coord_erase_path [OF cs v _ True [unfolded coord_addr_def]] inv by (auto simp: coord_inv_def)
  let ?p = "EFLASH_ADDR_PARAMETERS_OFFSET + unat cs * 16"
  have a: "coord_addr cs = MB + ?p" by (simp add: coord_addr_def EFLASH_ADDR_PARAMETERS_MAIN_def)
  have p: "?p + 12 < EFLASH_ERASE_AND_RESTORE_OFFSET"
    using cs by (simp add: EFLASH_ADDR_PARAMETERS_OFFSET_def EFLASH_ERASE_AND_RESTORE_OFFSET_def)
  have "mem_bytes (mem f') (coord_addr cs) 12 = vec_bytes v"
  proof (rule mem_bytes_eqI [OF len])
    fix i assume "i < (12::nat)"
    then show "mem f' (coord_addr cs + i) = vec_bytes v ! i"
      using eff [of "?p + i"] p by (simp add: a add.assoc)
  qed
  moreover have "mem f' (coord_addr cs + 12) = checksum (vec_bytes v)"
    using eff [of "?p + 12"] p by (simp add: a add.assoc)
  ultimately have "memcpy_from_flash_with_checksum (coord_addr cs) SIZEOF_VECTOR f' = (vec_bytes v, True)"
    by (simp add: memcpy_from_eq SIZEOF_VECTOR_def)
  then show ?thesis using f' eff by (auto simp: Let_def)
next
  case False
  let ?f = "memcpy_to_flash_with_checksum (coord_addr cs) (vec_bytes v) f"
  have len: "length (vec_bytes v) = SIZEOF_VECTOR" using vec_round_trip(2) [OF v] .
  have "settings_write_coord_data cs v f = Some ?f"
    using False by (simp add: settings_write_coord_data_def coord_addr_def N_AXIS_def Let_def)
  moreover have "memcpy_from_flash_with_checksum (coord_addr cs) SIZEOF_VECTOR ?f = (vec_bytes v, True)"
    using in_place_read_back [of f "coord_addr cs" "vec_bytes v"] inv cs False by (simp add: coord_inv_def len)
  moreover have other: "mem ?f x = mem f x" if "x < coord_addr cs \<or> coord_addr cs + 12 < x" for x
    using that by (auto simp: memcpy_to_mem len SIZEOF_VECTOR_def)
  moreover have "sector_status (mem ?f) = sector_status (mem f)"
    unfolding sector_status_def using cs
    by (intro mem_word_cong other) (auto simp: coord_addr_def EFLASH_ADDR_PARAMETERS_MAIN_def flash_addresses)
  moreover have "mem ?f (MB + i) = mem f (MB + i)"
    if "\<not> (EFLASH_ADDR_PARAMETERS_OFFSET + unat cs * 16 \<le> i \<and> i < EFLASH_ADDR_PARAMETERS_OFFSET + unat cs * 16 + 16)" for i
    using that by (intro other) (auto simp: coord_addr_def EFLASH_ADDR_PARAMETERS_MAIN_def)
  ultimately show ?thesis using inv by (auto simp: coord_inv_def)
qed

lemma coord_write_store:
  assumes inv: "coord_inv f" and cs: "unat cs \<le> 7" and v: "vec_wf v" and w: "settings_write_coord_data cs v f = Some f'"
  shows "coord_inv f'" "coord_lookup cs f' = Some v" "unat cs' \<le> 7 \<Longrightarrow> cs' \<noteq> cs \<Longrightarrow> coord_lookup cs' f' = coord_lookup cs' f"
proof -
  have st: "sector_status (mem f') = COPY_SECTOR_CLEARED"
    and rd: "memcpy_from_flash_with_checksum (coord_addr cs) SIZEOF_VECTOR f' = (vec_bytes v, True)"
    and fr: "\<And>i. i < EFLASH_ERASE_AND_RESTORE_OFFSET \<Longrightarrow> \<not> (EFLASH_ADDR_PARAMETERS_OFFSET + unat cs * 16 \<le> i \<and>
        i < EFLASH_ADDR_PARAMETERS_OFFSET + unat cs * 16 + 16) \<Longrightarrow> mem f' (MB + i) = mem f (MB + i)"
    using coord_write [OF inv cs v] w by auto
  have other: "mem f' (MB + i) = mem f (MB + i)"
    if "unat cs' \<le> 7" "cs' \<noteq> cs" "EFLASH_ADDR_PARAMETERS_OFFSET + unat cs' * 16 \<le> i"
      "i < EFLASH_ADDR_PARAMETERS_OFFSET + unat cs' * 16 + 13" for i cs'
  proof (rule fr)
    have "unat cs' \<noteq> unat cs" using that(2) by (simp add: word_unat_eq_iff)
    then show "i < EFLASH_ERASE_AND_RESTORE_OFFSET" "\<not> (EFLASH_ADDR_PARAMETERS_OFFSET + unat cs * 16 \<le> i \<and>
        i < EFLASH_ADDR_PARAMETERS_OFFSET + unat cs * 16 + 16)"
      using that by (auto simp: EFLASH_ADDR_PARAMETERS_OFFSET_def EFLASH_ERASE_AND_RESTORE_OFFSET_def)
  qed
  show "coord_lookup cs f' = Some v" by (simp add: coord_lookup_def rd vec_round_trip(1) [OF v])
  show "coord_lookup cs' f' = coord_lookup cs' f" if "unat cs' \<le> 7" "cs' \<noteq> cs"
    using coord_slot_frame(1) [OF other [OF that]] by (simp add: coord_lookup_def)
  have "slot_ok (mem f') (coord_addr cs') SIZEOF_VECTOR" if "unat cs' \<le> 7" for cs'
  proof (cases "cs' = cs")
    case True
    then show ?thesis using rd slot_ok_read by blast
  next
    case False
    then show ?thesis using coord_slot_frame(2) [OF other [OF that False]] inv that by (simp add: coord_inv_def)
  qed
  then show "coord_inv f'" using st by (simp add: coord_inv_def)
qed

interpretation coords: keyed_store coord_inv coord_key vec_wf coord_lookup settings_write_coord_data
proof unfold_locales
  fix s k v assume "coord_inv s" "coord_key k" "vec_wf v"
  then show "\<exists>s'. settings_write_coord_data k v s = Some s' \<and> coord_inv s'"
    using coord_write [of s k v] coord_write_store(1) [of s k v] by (auto simp: coord_key_iff)
qed (simp_all add: coord_write_store coord_key_iff)

section \<open>Properties of the storage\<close>

text \<open>
  C26: Coordinate data written with \<open>settings_write_coord_data\<close> is what \<open>settings_read_coord_data\<close> returns,
  bit for bit, whether the write was done in place or by rewriting the sector, and the data of
  the other coordinate systems stays as it was.
\<close>

theorem coord_data_round_trip:
  assumes "coord_inv f" "cs \<le> SETTING_INDEX_NCOORD" "vec_wf v"
  shows "\<exists>f'. settings_write_coord_data cs v f = Some f' \<and> coord_inv f' \<and>
    settings_read_coord_data cs f' = Some (True, v, f') \<and>
    (\<forall>cs'\<le>SETTING_INDEX_NCOORD. cs' \<noteq> cs \<longrightarrow> coord_lookup cs' f' = coord_lookup cs' f)"
proof -
  have k: "coord_key cs" using assms(2) by (simp add: coord_key_def)
  obtain f' where f': "settings_write_coord_data cs v f = Some f'" "coord_inv f'"
    using coords.store_ok [OF assms(1) k assms(3)] by blast
  have "coord_lookup cs f' = Some v" using coords.lookup_same [OF assms(1) k assms(3) f'(1)] .
  then have "settings_read_coord_data cs f' = Some (True, v, f')"
    by (auto simp: settings_read_coord_data_def coord_lookup_def coord_addr_def N_AXIS_def split: prod.splits bool.splits if_splits)
  then show ?thesis
    using f' coords.lookup_other [OF assms(1) k assms(3) f'(1)] by (auto simp: coord_key_def)
qed

text \<open>A flash whose storage holds no record yet: all bytes erased but the status word.\<close>

definition fresh_flash :: flash where
  "fresh_flash = \<lparr>mem = (\<lambda>x. if x = EFLASH_MAIN_SECTOR_STATUS + 2 \<or> x = EFLASH_MAIN_SECTOR_STATUS + 3 then 0 else 0xFF), flog = []\<rparr>"

lemma fresh_flash_status: "sector_status (mem fresh_flash) = COPY_SECTOR_CLEARED"
  by (simp add: fresh_flash_def sector_status_def mem_word_def word_of_bytes_def COPY_SECTOR_CLEARED_def)

lemma fresh_flash_coord_inv: "coord_inv fresh_flash"
proof -
  have "mem fresh_flash (coord_addr cs + SIZEOF_VECTOR) = 0xFF" if "unat cs \<le> 7" for cs
    using that by (auto simp: fresh_flash_def coord_addr_def EFLASH_ADDR_PARAMETERS_MAIN_def flash_addresses SIZEOF_VECTOR_def)
  then show ?thesis by (simp add: coord_inv_def fresh_flash_status slot_ok_def)
qed

theorem coord_data_round_trip_witness:
  "\<exists>f'. settings_write_coord_data 2 zero_vec fresh_flash = Some f' \<and> settings_read_coord_data 2 f' = Some (True, zero_vec, f')"
  using coord_data_round_trip [OF fresh_flash_coord_inv _ zero_vec_wf, of 2]
  by (auto simp: SETTING_INDEX_NCOORD_def N_COORDINATE_SYSTEM_def)


text \<open>A flash whose storage is programmed to zero everywhere but the status word.\<close>

definition zeroed_flash :: flash where
  "zeroed_flash = \<lparr>mem = (\<lambda>x. if x = EFLASH_MAIN_SECTOR_STATUS \<or> x = EFLASH_MAIN_SECTOR_STATUS + 1 then 0xFF else 0), flog = []\<rparr>"

lemma zeroed_flash_status: "sector_status (mem zeroed_flash) = COPY_SECTOR_CLEARED"
  by (simp add: zeroed_flash_def sector_status_def mem_word_def word_of_bytes_def COPY_SECTOR_CLEARED_def)

lemma zeroed_flash_need:
  assumes "\<exists>i<length ds. ds ! i \<noteq> 0" "a + length ds \<le> EFLASH_MAIN_SECTOR_STATUS"
  shows "flash_verify_erase_need a ds zeroed_flash"
proof -
  obtain i where "i < length ds" "ds ! i \<noteq> 0" using assms(1) by blast
  then have "\<not> programmable (mem zeroed_flash) a ds"
    using assms(2) by (auto simp: programmable_def zeroed_flash_def intro!: exI [of _ i])
  then show ?thesis by (simp add: flash_verify_erase_need_def verify_loop_iff)
qed


text \<open>
  C33: A startup line stored through an erase keeps its text, but its checksum byte ends up masked
  with the old one, because the copy of the rest of the sector starts on it: the line reads back
  as valid only if every bit of its checksum was set in the checksum it replaces.
\<close>

theorem startup_line_checksum_masked:
  assumes "n < N_STARTUP_LINE" "length line = LINE_BUFFER_SIZE" "sector_status (mem f) = COPY_SECTOR_CLEARED"
    and "flash_verify_erase_need (n * (LINE_BUFFER_SIZE + 4) + EFLASH_ADDR_STARTUP_BLOCK_MAIN) line f"
  shows "\<exists>f'. settings_store_startup_line n line f = Some f' \<and>
    memcpy_from_flash_with_checksum (n * (LINE_BUFFER_SIZE + 4) + EFLASH_ADDR_STARTUP_BLOCK_MAIN) LINE_BUFFER_SIZE f' =
      (line, checksum line AND mem f (n * (LINE_BUFFER_SIZE + 4) + EFLASH_ADDR_STARTUP_BLOCK_MAIN + LINE_BUFFER_SIZE) = checksum line)"
proof -
  let ?p = "EFLASH_ADDR_STARTUP_BLOCK_OFFSET + n * 84"
  let ?n1 = "192 + 21 * n" and ?m2 = "43 - 21 * n"
  have n: "n = 0 \<or> n = 1" and len: "length line = 80"
    using assms(1,2) by (auto simp: N_STARTUP_LINE_def LINE_BUFFER_SIZE_def)
  have a: "4 * ?n1 \<le> ?p + length line" "?p + length line < EFLASH_ERASE_AND_RESTORE_OFFSET"
    "?p - 1 \<le> 4 * ?n1" "\<forall>j<?n1. 4 * j < ?p - 1" "?p + 80 = ?p + length line + 0"
    "EFLASH_ERASE_AND_RESTORE_OFFSET = ?p + 80 + 4 * ?m2"
    using n len by (auto simp: EFLASH_ADDR_STARTUP_BLOCK_OFFSET_def EFLASH_ERASE_AND_RESTORE_OFFSET_def)
  obtain h f' all where h: "Option.bind (copy_from_main_to_copy 0 (?p - 1)
          (memcpy_to_flash_with_checksum (CB + ?p) line (delete_copy_sector f)))
        (\<lambda>f. copy_from_main_to_copy (?p + 80) EFLASH_ERASE_AND_RESTORE_OFFSET f) = Some h" "f' = commit_copy h"
    and eff: "\<forall>i<EFLASH_ERASE_AND_RESTORE_OFFSET. mem f' (MB + i) =
         (let old = mem f (MB + i);
              new = (if ?p \<le> i \<and> i < ?p + length line then line ! (i - ?p)
                else if i = ?p + length line then checksum line else 0xFF)
          in if i < 4 * ?n1 \<or> ?p + 80 \<le> i then new AND old else new)"
    using rewrite_around [OF assms(3) a refl] by blast
  have s: "settings_store_startup_line n line f = Some f'"
    using h assms(4) unfolding settings_store_startup_line_def commit_copy_fold
    by (simp add: Let_def LINE_BUFFER_SIZE_def EFLASH_ADDR_STARTUP_BLOCK_COPY_def bind_commit bind_map algebra_simps)
  have addr: "n * (LINE_BUFFER_SIZE + 4) + EFLASH_ADDR_STARTUP_BLOCK_MAIN = MB + ?p"
    by (simp add: LINE_BUFFER_SIZE_def EFLASH_ADDR_STARTUP_BLOCK_MAIN_def)
  have lt: "?p + i < EFLASH_ERASE_AND_RESTORE_OFFSET" "\<not> ?p + i < 4 * ?n1" if "i \<le> 80" for i
    using that n by (auto simp: EFLASH_ADDR_STARTUP_BLOCK_OFFSET_def EFLASH_ERASE_AND_RESTORE_OFFSET_def)
  have "mem_bytes (mem f') (MB + ?p) 80 = line"
  proof (rule mem_bytes_eqI [OF len])
    fix i assume "i < (80::nat)"
    then show "mem f' (MB + ?p + i) = line ! i"
      using eff [rule_format, of "?p + i"] lt [of i] len by (simp add: Let_def add.assoc)
  qed
  moreover have "mem f' (MB + ?p + 80) = checksum line AND mem f (MB + ?p + 80)"
    using eff [rule_format, of "?p + 80"] lt [of 80] len by (simp add: Let_def add.assoc)
  ultimately show ?thesis
    using s unfolding addr by (auto simp: memcpy_from_eq LINE_BUFFER_SIZE_def)
qed

theorem startup_line_checksum_masked_witness:
  "\<exists>f'. settings_store_startup_line 0 (71 # replicate 79 0) zeroed_flash = Some f' \<and>
    memcpy_from_flash_with_checksum EFLASH_ADDR_STARTUP_BLOCK_MAIN 80 zeroed_flash = (replicate 80 0, True) \<and>
    snd (memcpy_from_flash_with_checksum EFLASH_ADDR_STARTUP_BLOCK_MAIN 80 f') = False"
proof -
  let ?line = "71 # replicate 79 0 :: u8 list"
  have need: "flash_verify_erase_need (0 * (LINE_BUFFER_SIZE + 4) + EFLASH_ADDR_STARTUP_BLOCK_MAIN) ?line zeroed_flash"
    by (rule zeroed_flash_need) (auto simp: EFLASH_ADDR_STARTUP_BLOCK_MAIN_def flash_addresses intro: exI [of _ 0])
  have ck: "checksum ?line \<noteq> 0" by code_simp
  have z: "mem_bytes (mem zeroed_flash) EFLASH_ADDR_STARTUP_BLOCK_MAIN 80 = replicate 80 0"
    by (rule mem_bytes_eqI) (auto simp: zeroed_flash_def EFLASH_ADDR_STARTUP_BLOCK_MAIN_def flash_addresses)
  have c0: "checksum (replicate 80 0) = 0" by code_simp
  have m0: "mem zeroed_flash (EFLASH_ADDR_STARTUP_BLOCK_MAIN + 80) = 0"
    by (simp add: zeroed_flash_def EFLASH_ADDR_STARTUP_BLOCK_MAIN_def flash_addresses)
  show ?thesis
    using startup_line_checksum_masked [OF _ _ zeroed_flash_status need] ck m0
    by (auto simp: N_STARTUP_LINE_def LINE_BUFFER_SIZE_def memcpy_from_eq z c0)
qed

text \<open>The copy loop runs off the flash when its end offset is beyond the sector.\<close>

lemma copy_words_fault:
  assumes "start + 4 * i < stop" "FLASH_SECTOR_SIZE < stop" "4 dvd start"
  shows "copy_words start stop i f = None"
  using assms(1)
proof (induction "FLASH_SECTOR_SIZE - (start + 4 * i)" arbitrary: i f rule: less_induct)
  case less
  show ?case
  proof (cases "start + 4 * i < FLASH_SECTOR_SIZE")
    case False
    then show ?thesis using less.prems by (subst copy_words.simps) (simp add: flash_addresses)
  next
    case True
    obtain s where s: "start = 4 * s" using assms(3) by blast
    have "start + 4 * (i + 1) \<le> FLASH_SECTOR_SIZE" using True unfolding s FLASH_SECTOR_SIZE_def by presburger
    then have "start + 4 * (i + 1) < stop" using assms(2) by linarith
    moreover have "FLASH_SECTOR_SIZE - (start + 4 * (i + 1)) < FLASH_SECTOR_SIZE - (start + 4 * i)" using True by simp
    ultimately show ?thesis
      using less.hyps [of "i + 1"] less.prems by (subst copy_words.simps) (simp add: Let_def)
  qed
qed

text \<open>
  C34: Storing a build info line that needs an erase never completes: the copy of the main sector is
  given the absolute address of the line as its end offset and runs off the end of the flash.
\<close>

theorem build_info_store_faults:
  assumes "flash_verify_erase_need EFLASH_ADDR_BUILD_INFO_MAIN line f"
  shows "settings_store_build_info line f = None"
proof -
  have "copy_from_main_to_copy 0 EFLASH_ADDR_BUILD_INFO_MAIN g = None" for g
    unfolding copy_from_main_to_copy_def
    by (rule copy_words_fault) (simp_all add: EFLASH_ADDR_BUILD_INFO_MAIN_def flash_addresses)
  then show ?thesis using assms by (simp add: settings_store_build_info_def)
qed

theorem build_info_store_faults_witness:
  "settings_store_build_info (71 # replicate 79 0) zeroed_flash = None"
proof (rule build_info_store_faults)
  have "mem zeroed_flash EFLASH_ADDR_BUILD_INFO_MAIN = 0"
    by (simp add: zeroed_flash_def EFLASH_ADDR_BUILD_INFO_MAIN_def flash_addresses)
  then show "flash_verify_erase_need EFLASH_ADDR_BUILD_INFO_MAIN (71 # replicate 79 0) zeroed_flash"
    by (simp add: flash_verify_erase_need_def)
qed

section \<open>Global settings\<close>

lemma global_erase_path:
  assumes cleared: "sector_status (mem f) = COPY_SECTOR_CLEARED" and wf: "settings_wf s"
    and need: "flash_verify_erase_need MB (settings_bytes s) f"
  shows "\<exists>f'. write_global_settings s f = Some f' \<and> sector_status (mem f') = COPY_SECTOR_CLEARED \<and>
    (\<forall>i<EFLASH_ERASE_AND_RESTORE_OFFSET. mem f' (MB + i) =
       (if i = 0 then SETTINGS_VERSION
        else if 4 \<le> i \<and> i < 104 then settings_bytes s ! (i - 4)
        else if i = 104 then checksum (settings_bytes s)
        else if i < EFLASH_ADDR_PARAMETERS_OFFSET then 0xFF else mem f (MB + i)))"
proof -
  let ?n = EFLASH_ERASE_AND_RESTORE_OFFSET
  have len: "length (settings_bytes s) = 100" using settings_round_trip(2) [OF wf] by (simp add: SIZEOF_SETTINGS_def)
  let ?f1 = "delete_copy_sector f"
  let ?f2 = "flash_put_char CB SETTINGS_VERSION ?f1"
  let ?g = "memcpy_to_flash_with_checksum EFLASH_ADDR_GLOBAL_COPY (settings_bytes s) ?f2"
  have o1: "extends [ProgByte CB SETTINGS_VERSION] ?f1 ?f2" by (simp add: flash_ops extends_do_op)
  obtain o2 where o2: "extends o2 ?f2 ?g" "list_all copy_op o2"
    using memcpy_to_extends [of EFLASH_ADDR_GLOBAL_COPY "settings_bytes s" ?f2] len
    by (auto simp: EFLASH_ADDR_GLOBAL_COPY_def EFLASH_ADDR_GLOBAL_OFFSET_def EFLASH_ERASE_AND_RESTORE_OFFSET_def)
  have a: "EFLASH_ADDR_PARAMETERS_OFFSET + 4 * 127 \<le> ?n" "?n \<le> EFLASH_ADDR_PARAMETERS_OFFSET + 4 * 127"
    "\<forall>j<127. EFLASH_ADDR_PARAMETERS_OFFSET + 4 * j < ?n"
    by (simp_all add: EFLASH_ADDR_PARAMETERS_OFFSET_def EFLASH_ERASE_AND_RESTORE_OFFSET_def)
  obtain h o3 where h: "copy_from_main_to_copy EFLASH_ADDR_PARAMETERS_OFFSET ?n ?g = Some h" "extends o3 ?g h" "list_all copy_op o3"
    "\<And>x. mem h x = (if CB + EFLASH_ADDR_PARAMETERS_OFFSET \<le> x \<and> x < CB + EFLASH_ADDR_PARAMETERS_OFFSET + 4 * 127
        then mem ?g x AND mem ?g (x - CB + MB) else mem ?g x)"
    using copy_from_main_to_copy_correct [OF a, of ?g] by auto
  have "extends ([ProgByte CB SETTINGS_VERSION] @ o2 @ o3) ?f1 h" "list_all copy_op ([ProgByte CB SETTINGS_VERSION] @ o2 @ o3)"
    using extends_trans [OF o1 extends_trans [OF o2(1) h(2)]] o2(2) h(3)
    by (simp_all add: EFLASH_ERASE_AND_RESTORE_OFFSET_def)
  note ps = staged_write_power_safe [OF cleared this]
  let ?f = "commit_copy h"
  have gx: "mem ?g x = (if CB + 4 \<le> x \<and> x < CB + 104 then mem ?f2 x AND settings_bytes s ! (x - (CB + 4))
      else if x = CB + 104 then mem ?f2 x AND checksum (settings_bytes s) else mem ?f2 x)" for x
    by (simp add: memcpy_to_mem len EFLASH_ADDR_GLOBAL_COPY_def EFLASH_ADDR_GLOBAL_OFFSET_def)
  have f2: "mem ?f2 x = (if x = CB then SETTINGS_VERSION else if CB \<le> x \<and> x < CB + FLASH_SECTOR_SIZE then 0xFF else mem f x)" for x
    by (simp add: flash_ops op_mem flash_addresses)
  have "mem ?f (MB + i) =
       (if i = 0 then SETTINGS_VERSION
        else if 4 \<le> i \<and> i < 104 then settings_bytes s ! (i - 4)
        else if i = 104 then checksum (settings_bytes s)
        else if i < EFLASH_ADDR_PARAMETERS_OFFSET then 0xFF else mem f (MB + i))" if i: "i < ?n" for i
  proof -
    have "mem ?f (MB + i) = mem h (CB + i)" using ps i main_eq_copy by blast
    moreover have "mem ?g (MB + i) = mem f (MB + i)" using i by (simp add: gx f2) (simp add: flash_addresses)
    moreover have "mem h (CB + i) = (if EFLASH_ADDR_PARAMETERS_OFFSET \<le> i then mem ?g (CB + i) AND mem ?g (MB + i) else mem ?g (CB + i))"
      using h(4) [of "CB + i"] i a by (simp add: add.commute)
    moreover have "mem ?g (CB + i) = (if i = 0 then SETTINGS_VERSION else if 4 \<le> i \<and> i < 104 then settings_bytes s ! (i - 4)
        else if i = 104 then checksum (settings_bytes s) else 0xFF)"
      using i by (simp add: gx f2 FLASH_SECTOR_SIZE_def EFLASH_ERASE_AND_RESTORE_OFFSET_def)
    ultimately show ?thesis by (auto simp: EFLASH_ADDR_PARAMETERS_OFFSET_def)
  qed
  moreover have "write_global_settings s f = Some ?f"
    using need h(1) unfolding write_global_settings_def commit_copy_fold
    by (simp add: Let_def bind_commit)
  ultimately show ?thesis using ps by blast
qed

text \<open>
  C29: Global settings written through an erase of the sector are what the next start reads, field
  by field, and neither the coordinate data nor the sector status is disturbed.
\<close>

theorem global_settings_round_trip:
  assumes "sector_status (mem f) = COPY_SECTOR_CLEARED" "settings_wf s" "flash_verify_erase_need MB (settings_bytes s) f"
  shows "\<exists>f'. write_global_settings s f = Some f' \<and> read_global_settings s0 f' = (True, s) \<and>
    sector_status (mem f') = COPY_SECTOR_CLEARED \<and>
    (\<forall>cs\<le>SETTING_INDEX_NCOORD. coord_lookup cs f' = coord_lookup cs f)"
proof -
  obtain f' where f': "write_global_settings s f = Some f'" "sector_status (mem f') = COPY_SECTOR_CLEARED"
    and eff: "\<And>i. i < EFLASH_ERASE_AND_RESTORE_OFFSET \<Longrightarrow> mem f' (MB + i) =
       (if i = 0 then SETTINGS_VERSION
        else if 4 \<le> i \<and> i < 104 then settings_bytes s ! (i - 4)
        else if i = 104 then checksum (settings_bytes s)
        else if i < EFLASH_ADDR_PARAMETERS_OFFSET then 0xFF else mem f (MB + i))"
    using global_erase_path [OF assms] by blast
  have len: "length (settings_bytes s) = 100" using settings_round_trip(2) [OF assms(2)] by (simp add: SIZEOF_SETTINGS_def)
  have b: "mem_bytes (mem f') EFLASH_ADDR_GLOBAL_MAIN 100 = settings_bytes s"
  proof (rule mem_bytes_eqI [OF len])
    fix i assume "i < (100::nat)"
    then show "mem f' (EFLASH_ADDR_GLOBAL_MAIN + i) = settings_bytes s ! i"
      using eff [of "4 + i"]
      by (simp add: EFLASH_ADDR_GLOBAL_MAIN_def EFLASH_ADDR_GLOBAL_OFFSET_def EFLASH_ERASE_AND_RESTORE_OFFSET_def add.assoc)
  qed
  have "mem f' (EFLASH_ADDR_GLOBAL_MAIN + 100) = checksum (settings_bytes s)" "mem f' MB = SETTINGS_VERSION"
    using eff [of 104] eff [of 0]
    by (simp_all add: EFLASH_ADDR_GLOBAL_MAIN_def EFLASH_ADDR_GLOBAL_OFFSET_def EFLASH_ERASE_AND_RESTORE_OFFSET_def add.commute [of MB])
  then have "read_global_settings s0 f' = (True, s)"
    using settings_round_trip(1) [OF assms(2)]
    by (simp add: read_global_settings_def flash_get_char_def memcpy_from_eq SIZEOF_SETTINGS_def b)
  moreover have "coord_lookup cs f' = coord_lookup cs f" if "cs \<le> SETTING_INDEX_NCOORD" for cs
  proof -
    have "unat cs \<le> 7" using that coord_key_iff by (simp add: coord_key_def)
    then have "mem f' (MB + i) = mem f (MB + i)"
      if "EFLASH_ADDR_PARAMETERS_OFFSET + unat cs * 16 \<le> i" "i < EFLASH_ADDR_PARAMETERS_OFFSET + unat cs * 16 + 13" for i
      using that eff [of i] by (simp add: EFLASH_ADDR_PARAMETERS_OFFSET_def EFLASH_ERASE_AND_RESTORE_OFFSET_def)
    from coord_slot_frame(1) [OF this] show ?thesis by (simp add: coord_lookup_def)
  qed
  ultimately show ?thesis using f' by blast
qed

lemma settings_need:
  assumes wf: "settings_wf s" and nz: "pulse_microseconds s \<noteq> 0"
  shows "flash_verify_erase_need MB (settings_bytes s) zeroed_flash"
proof (rule zeroed_flash_need)
  have len: "length (settings_bytes s) = 100"
    using settings_round_trip(2) [OF wf] by (simp add: SIZEOF_SETTINGS_def)
  show "MB + length (settings_bytes s) \<le> EFLASH_MAIN_SECTOR_STATUS"
    by (simp add: len flash_addresses)
  have v: "length (vec_bytes (steps_per_mm s)) = 12" "length (vec_bytes (max_rate s)) = 12"
    "length (vec_bytes (acceleration s)) = 12" "length (vec_bytes (max_travel s)) = 12"
    using wf by (simp_all add: settings_wf_def vec_round_trip(2) SIZEOF_VECTOR_def)
  have "settings_bytes s ! 48 = pulse_microseconds s"
    by (simp add: settings_bytes_def nth_append v)
  then show "\<exists>i<length (settings_bytes s). settings_bytes s ! i \<noteq> 0"
    using nz by (intro exI [of _ 48]) (simp add: len)
qed

lemma default_settings_need: "flash_verify_erase_need MB (settings_bytes default_settings) zeroed_flash"
  by (rule settings_need [OF default_settings_wf]) (simp add: default_settings_def default_values)

theorem global_settings_round_trip_witness:
  "\<exists>f'. write_global_settings default_settings zeroed_flash = Some f' \<and>
    read_global_settings default_settings f' = (True, default_settings)"
  using global_settings_round_trip [OF zeroed_flash_status default_settings_wf default_settings_need] by blast

section \<open>Properties of the settings command\<close>

lemma find_axis_setting_div:
  "set_idx + n = AXIS_N_SETTINGS \<Longrightarrow> 0 < n \<Longrightarrow>
   find_axis_setting n set_idx q =
     (if unat q div 10 < n \<and> unat q mod 10 < N_AXIS then Some (set_idx + unat q div 10, unat q mod 10) else None)"
proof (induction n arbitrary: set_idx q)
  case (Suc n)
  have q3: "q < of_nat N_AXIS \<longleftrightarrow> unat q < 3" and q10: "q < AXIS_SETTINGS_INCREMENT \<longleftrightarrow> unat q < 10"
    by (simp_all add: N_AXIS_def AXIS_SETTINGS_INCREMENT_def word_less_nat_alt)
  show ?case
  proof (cases "unat q < 10")
    case True
    then show ?thesis using Suc.prems by (simp add: q3 q10 del: of_nat_numeral) (simp add: N_AXIS_def)
  next
    case False
    then have u: "unat (q - AXIS_SETTINGS_INCREMENT) = unat q - 10"
      by (simp add: AXIS_SETTINGS_INCREMENT_def unat_sub word_le_nat_alt)
    have d: "unat q div 10 = Suc ((unat q - 10) div 10)" "unat q mod 10 = (unat q - 10) mod 10"
      using False by (simp_all add: div_if mod_if)
    show ?thesis
    proof (cases "n = 0")
      case True
      then show ?thesis using Suc.prems False d by (simp add: q3 q10)
    next
      case n: False
      have "\<not> (q < of_nat N_AXIS)" "\<not> (q < AXIS_SETTINGS_INCREMENT \<or> set_idx + 1 = AXIS_N_SETTINGS)"
        using False Suc.prems n by (auto simp: q3 q10)
      then have "find_axis_setting (Suc n) set_idx q = find_axis_setting n (set_idx + 1) (q - AXIS_SETTINGS_INCREMENT)"
        by simp
      also have "\<dots> = (if (unat q - 10) div 10 < n \<and> (unat q - 10) mod 10 < N_AXIS
          then Some (set_idx + 1 + (unat q - 10) div 10, (unat q - 10) mod 10) else None)"
        using Suc.IH [of "set_idx + 1" "q - AXIS_SETTINGS_INCREMENT"] Suc.prems n by (simp add: u)
      finally show ?thesis by (simp add: d)
    qed
  qed
qed simp

text \<open>
  The axis setting \<open>$100 + 10 i + a\<close> with \<open>i < 4\<close> and \<open>a < 3\<close> names setting \<open>i\<close> of axis \<open>a\<close>, and no other
  number from 100 to 255 is accepted: the search loop is a division by ten.
\<close>

lemma axis_setting_number:
  "AXIS_SETTINGS_START_VAL \<le> parameter \<Longrightarrow>
   find_axis_setting AXIS_N_SETTINGS 0 (parameter - AXIS_SETTINGS_START_VAL) =
     (let k = unat parameter - 100 in
      if k div 10 < 4 \<and> k mod 10 < 3 then Some (k div 10, k mod 10) else None)"
proof -
  assume p: "AXIS_SETTINGS_START_VAL \<le> parameter"
  have "unat (parameter - AXIS_SETTINGS_START_VAL) = unat parameter - 100"
    using p by (simp add: AXIS_SETTINGS_START_VAL_def unat_sub)
  then show ?thesis
    using find_axis_setting_div [of 0 AXIS_N_SETTINGS "parameter - AXIS_SETTINGS_START_VAL"]
    by (simp add: AXIS_N_SETTINGS_def N_AXIS_def Let_def)
qed

text \<open>What holds of the settings and of what is derived from them while the firmware runs.\<close>

definition settings_ok :: "settings_t \<Rightarrow> bool" where
  "settings_ok s = (settings_wf s \<and> 3 \<le> pulse_microseconds s \<and>
     (bit_istrue (flags s) BITFLAG_SOFT_LIMIT_ENABLE \<longrightarrow> bit_istrue (flags s) BITFLAG_HOMING_ENABLE))"

definition env_ok :: "settings_env \<Rightarrow> bool" where
  "env_ok e = (settings_ok (settings e) \<and>
     (step_port_invert_mask e, dir_port_invert_mask e) = st_generate_step_dir_invert_masks (settings e) \<and>
     (limit_irq_enabled e \<longleftrightarrow> bit_istrue (flags (settings e)) BITFLAG_HARD_LIMIT_ENABLE))"

lemma vec_wf_update: "vec_wf v \<Longrightarrow> is_f32 x \<Longrightarrow> vec_wf (v[i := x])"
  by (auto simp: vec_wf_def list_all_iff dest!: set_update_subset_insert [THEN subsetD])

lemma is_f32_axis:
  "settings_ok s \<Longrightarrow> is_f32 v \<Longrightarrow> settings_ok (set_axis set_idx axis v s)"
  by (simp add: settings_ok_def settings_wf_def set_axis_def vec_wf_update is_f32_fl_mul is_f32_neg)

lemma set_axis_frame [frame_simps]:
  "step_invert_mask (set_axis k axis v s) = step_invert_mask s" "dir_invert_mask (set_axis k axis v s) = dir_invert_mask s"
  "flags (set_axis k axis v s) = flags s"
  by (simp_all add: set_axis_def)

lemma masks_cong:
  "step_invert_mask s = step_invert_mask s' \<Longrightarrow> dir_invert_mask s = dir_invert_mask s' \<Longrightarrow>
   st_generate_step_dir_invert_masks s = st_generate_step_dir_invert_masks s'"
  by (simp add: st_generate_step_dir_invert_masks_def)

lemma put_flag_frame [frame_simps]:
  "step_invert_mask (put_flag b m s) = step_invert_mask s" "dir_invert_mask (put_flag b m s) = dir_invert_mask s"
  "settings_wf (put_flag b m s) = settings_wf s" "pulse_microseconds (put_flag b m s) = pulse_microseconds s"
  by (simp_all add: put_flag_def settings_wf_def)

lemma put_flag_masks [frame_simps]:
  "st_generate_step_dir_invert_masks (put_flag b m s) = st_generate_step_dir_invert_masks s"
  by (rule masks_cong) (simp_all add: frame_simps)

lemma put_flag_istrue:
  "bit_istrue (flags (put_flag b m s)) m' =
     (if b then bit_istrue (flags s) m' \<or> bit_istrue m m' else bit_istrue (bit_false (flags s) m) m')"
  by (simp add: put_flag_def bit_istrue_or)

lemma flag_disjoint:
  "BITFLAG_SOFT_LIMIT_ENABLE AND BITFLAG_HOMING_ENABLE = 0" "BITFLAG_HOMING_ENABLE AND BITFLAG_SOFT_LIMIT_ENABLE = 0"
  "BITFLAG_HARD_LIMIT_ENABLE AND BITFLAG_SOFT_LIMIT_ENABLE = 0" "BITFLAG_HARD_LIMIT_ENABLE AND BITFLAG_HOMING_ENABLE = 0"
  "BITFLAG_SOFT_LIMIT_ENABLE AND BITFLAG_HARD_LIMIT_ENABLE = 0" "BITFLAG_HOMING_ENABLE AND BITFLAG_HARD_LIMIT_ENABLE = 0"
  by (simp_all add: bitflags bit_of_def)

text \<open>A flag other than the three the invariant is about.\<close>

definition free_flag :: "u8 \<Rightarrow> bool" where
  "free_flag m = (BITFLAG_SOFT_LIMIT_ENABLE AND m = 0 \<and> BITFLAG_HOMING_ENABLE AND m = 0 \<and> BITFLAG_HARD_LIMIT_ENABLE AND m = 0)"

lemma free_flags:
  "free_flag BITFLAG_INVERT_ST_ENABLE" "free_flag BITFLAG_INVERT_LIMIT_PINS" "free_flag BITFLAG_INVERT_PROBE_PIN"
  "free_flag BITFLAG_REPORT_INCHES"
  by (simp_all add: free_flag_def bitflags bit_of_def)

lemma put_free_flag:
  assumes "free_flag m" "m' \<in> {BITFLAG_SOFT_LIMIT_ENABLE, BITFLAG_HOMING_ENABLE, BITFLAG_HARD_LIMIT_ENABLE}"
  shows "bit_istrue (flags (put_flag b m s)) m' = bit_istrue (flags s) m'"
proof -
  have d: "m' AND m = 0" using assms by (auto simp: free_flag_def)
  then have "\<not> bit_istrue m m'" by (simp add: bit_istrue_def and.commute)
  then show ?thesis using d by (simp add: put_flag_istrue bit_false_other)
qed

lemma env_ok_free_flag:
  "env_ok e \<Longrightarrow> free_flag m \<Longrightarrow> env_ok (e\<lparr>settings := put_flag b m (settings e)\<rparr>)"
  using masks_cong [of "put_flag b m (settings e)" "settings e"]
  by (simp add: env_ok_def settings_ok_def put_free_flag frame_simps)

lemma env_ok_same_masks:
  assumes "env_ok e" "settings_ok s" "step_invert_mask s = step_invert_mask (settings e)"
    "dir_invert_mask s = dir_invert_mask (settings e)" "flags s = flags (settings e)"
  shows "env_ok (e\<lparr>settings := s\<rparr>)"
  using assms masks_cong [OF assms(3,4)] by (simp add: env_ok_def)

lemma env_ok_regenerate:
  "settings_ok (settings e) \<Longrightarrow> limit_irq_enabled e = bit_istrue (flags (settings e)) BITFLAG_HARD_LIMIT_ENABLE \<Longrightarrow>
   env_ok (regenerate_masks e)"
  by (simp add: env_ok_def regenerate_masks_def st_generate_step_dir_invert_masks_def)

lemma env_ok_limits_init:
  "settings_ok (settings e) \<Longrightarrow> (step_port_invert_mask e, dir_port_invert_mask e) = st_generate_step_dir_invert_masks (settings e) \<Longrightarrow>
   env_ok (limits_init e)"
  by (simp add: env_ok_def limits_init_def limits_disable_def)

lemma put_homing_soft:
  assumes "settings_ok s"
  shows "settings_ok (put_flag True BITFLAG_HOMING_ENABLE s)"
    "settings_ok (put_flag False BITFLAG_SOFT_LIMIT_ENABLE (put_flag False BITFLAG_HOMING_ENABLE s))"
    "settings_ok (put_flag False BITFLAG_SOFT_LIMIT_ENABLE s)"
    "bit_istrue (flags s) BITFLAG_HOMING_ENABLE \<Longrightarrow> settings_ok (put_flag True BITFLAG_SOFT_LIMIT_ENABLE s)"
    "settings_ok (put_flag b BITFLAG_HARD_LIMIT_ENABLE s)"
    "bit_istrue (flags s) BITFLAG_HOMING_ENABLE \<Longrightarrow> settings_ok (put_flag b BITFLAG_SOFT_LIMIT_ENABLE s)"
proof -
  have self: "bit_istrue BITFLAG_HOMING_ENABLE BITFLAG_HOMING_ENABLE" "bit_istrue BITFLAG_SOFT_LIMIT_ENABLE BITFLAG_SOFT_LIMIT_ENABLE"
    by (simp_all add: bitflags bit_of_def bit_istrue_def)
  have d: "\<not> bit_istrue BITFLAG_HARD_LIMIT_ENABLE BITFLAG_SOFT_LIMIT_ENABLE"
    by (simp add: flag_disjoint bit_istrue_def)
  show "settings_ok (put_flag True BITFLAG_HOMING_ENABLE s)"
    using assms by (simp add: settings_ok_def frame_simps put_flag_istrue self)
  show "settings_ok (put_flag False BITFLAG_SOFT_LIMIT_ENABLE (put_flag False BITFLAG_HOMING_ENABLE s))"
    using assms by (simp add: settings_ok_def frame_simps put_flag_istrue bit_false_clears)
  show "settings_ok (put_flag False BITFLAG_SOFT_LIMIT_ENABLE s)"
    using assms by (simp add: settings_ok_def frame_simps put_flag_istrue bit_false_clears)
  show "bit_istrue (flags s) BITFLAG_HOMING_ENABLE \<Longrightarrow> settings_ok (put_flag True BITFLAG_SOFT_LIMIT_ENABLE s)"
    using assms by (simp add: settings_ok_def frame_simps put_flag_istrue)
  show "bit_istrue (flags s) BITFLAG_HOMING_ENABLE \<Longrightarrow> settings_ok (put_flag b BITFLAG_SOFT_LIMIT_ENABLE s)"
    using assms by (cases b) (simp_all add: settings_ok_def frame_simps put_flag_istrue bit_false_clears)
  show "settings_ok (put_flag b BITFLAG_HARD_LIMIT_ENABLE s)"
    using assms d by (auto simp: settings_ok_def frame_simps put_flag_istrue flag_disjoint bit_false_other)
qed

lemma hard_limit_flag_kept:
  "bit_istrue (flags (put_flag b BITFLAG_HOMING_ENABLE s)) BITFLAG_HARD_LIMIT_ENABLE = bit_istrue (flags s) BITFLAG_HARD_LIMIT_ENABLE"
  "bit_istrue (flags (put_flag b BITFLAG_SOFT_LIMIT_ENABLE s)) BITFLAG_HARD_LIMIT_ENABLE = bit_istrue (flags s) BITFLAG_HARD_LIMIT_ENABLE"
  by (simp_all add: put_flag_istrue flag_disjoint bit_false_other bit_istrue_def [of BITFLAG_HOMING_ENABLE]
      bit_istrue_def [of BITFLAG_SOFT_LIMIT_ENABLE])

lemma env_ok_flags:
  assumes "env_ok e" "settings_ok s" "step_invert_mask s = step_invert_mask (settings e)"
    "dir_invert_mask s = dir_invert_mask (settings e)"
    "bit_istrue (flags s) BITFLAG_HARD_LIMIT_ENABLE = bit_istrue (flags (settings e)) BITFLAG_HARD_LIMIT_ENABLE"
  shows "env_ok (e\<lparr>settings := s\<rparr>)"
  using assms masks_cong [OF assms(3,4)] by (simp add: env_ok_def)

lemma wf_fields:
  "settings_wf s \<Longrightarrow> settings_wf (s\<lparr>pulse_microseconds := b\<rparr>)" "settings_wf s \<Longrightarrow> settings_wf (s\<lparr>stepper_idle_lock_time := b\<rparr>)"
  "settings_wf s \<Longrightarrow> settings_wf (s\<lparr>step_invert_mask := b\<rparr>)" "settings_wf s \<Longrightarrow> settings_wf (s\<lparr>dir_invert_mask := b\<rparr>)"
  "settings_wf s \<Longrightarrow> settings_wf (s\<lparr>status_report_mask := b\<rparr>)" "settings_wf s \<Longrightarrow> settings_wf (s\<lparr>homing_dir_mask := b\<rparr>)"
  "settings_wf s \<Longrightarrow> settings_wf (s\<lparr>homing_debounce_delay := d\<rparr>)"
  "settings_wf s \<Longrightarrow> is_f32 x \<Longrightarrow> settings_wf (s\<lparr>junction_deviation := x\<rparr>)" "settings_wf s \<Longrightarrow> is_f32 x \<Longrightarrow> settings_wf (s\<lparr>arc_tolerance := x\<rparr>)"
  "settings_wf s \<Longrightarrow> is_f32 x \<Longrightarrow> settings_wf (s\<lparr>homing_feed_rate := x\<rparr>)" "settings_wf s \<Longrightarrow> is_f32 x \<Longrightarrow> settings_wf (s\<lparr>homing_seek_rate := x\<rparr>)"
  "settings_wf s \<Longrightarrow> is_f32 x \<Longrightarrow> settings_wf (s\<lparr>homing_pulloff := x\<rparr>)"
  "settings_wf s \<Longrightarrow> settings_wf (s\<lparr>spindle_pwm_period := w\<rparr>)" "settings_wf s \<Longrightarrow> settings_wf (s\<lparr>spindle_pwm_max_time_on := w\<rparr>)"
  "settings_wf s \<Longrightarrow> settings_wf (s\<lparr>spindle_pwm_min_time_on := w\<rparr>)" "settings_wf s \<Longrightarrow> settings_wf (s\<lparr>spindle_pwm_enable_at_start := w\<rparr>)"
  by (simp_all add: settings_wf_def)

lemma set_parameter_ok:
  assumes e: "env_ok e" and v: "is_f32 v" and r: "set_parameter parameter v e = Inr e'"
  shows "env_ok e'"
proof -
  have ok: "settings_ok (settings e)" and wf: "settings_wf (settings e)" using e by (simp_all add: env_ok_def settings_ok_def)
  have simple: "env_ok (e\<lparr>settings := s\<rparr>)"
    if "settings_ok s" "step_invert_mask s = step_invert_mask (settings e)" "dir_invert_mask s = dir_invert_mask (settings e)"
      "flags s = flags (settings e)" for s
    using env_ok_same_masks [OF e that] .
  have irq: "limit_irq_enabled e = bit_istrue (flags (settings e)) BITFLAG_HARD_LIMIT_ENABLE" using e by (simp add: env_ok_def)
  have upd: "settings_ok s" if "settings_wf s" "3 \<le> pulse_microseconds s" "flags s = flags (settings e)" for s
    using ok that by (simp add: settings_ok_def)
  have pu: "3 \<le> pulse_microseconds (settings e)" using ok by (simp add: settings_ok_def)
  show ?thesis
    using r unfolding set_parameter_def Let_def
    by (auto split: if_splits
        simp: simple upd env_ok_free_flag [OF e] free_flags env_ok_regenerate env_ok_limits_init
          env_ok_flags [OF e] put_homing_soft [OF ok] wf wf_fields v pu irq
          frame_simps hard_limit_flag_kept bit_isfalse_iff not_less e [unfolded env_ok_def])
qed

text \<open>
  C28: Whatever \<open>$\<close> setting is sent, the settings stay well formed: the step pulse is at least three
  microseconds, soft limits are never enabled without homing, the step and direction port masks
  and the limit interrupt follow the settings; and a rejected setting changes nothing.
\<close>

theorem store_setting_invariant:
  assumes "env_ok e" "is_f32 v" "settings_store_global_setting parameter v e = Some (status, e')"
  shows "env_ok e' \<and> (status \<noteq> STATUS_OK \<longrightarrow> e' = e) \<and>
    (status = STATUS_OK \<longrightarrow> write_global_settings (settings e') (nvm e) = Some (nvm e'))"
proof -
  have nvm: "nvm e1 = nvm e" if "set_parameter parameter v e = Inr e1" for e1
    using that unfolding set_parameter_def Let_def
    by (auto split: if_splits simp: regenerate_masks_def limits_init_def limits_disable_def st_generate_step_dir_invert_masks_def)
  have inl: "st \<noteq> STATUS_OK" if "set_parameter parameter v e = Inl st" for st
    using that unfolding set_parameter_def Let_def
    by (auto split: if_splits simp: STATUS_OK_def STATUS_SETTING_STEP_PULSE_MIN_def STATUS_SOFT_LIMIT_ERROR_def STATUS_INVALID_STATEMENT_def)
  have fin: "env_ok e' \<and> (status \<noteq> STATUS_OK \<longrightarrow> e' = e) \<and>
      (status = STATUS_OK \<longrightarrow> write_global_settings (settings e') (nvm e) = Some (nvm e'))"
    if "env_ok e1" "nvm e1 = nvm e"
      "Option.bind (write_global_settings (settings e1) (nvm e1)) (\<lambda>f. Some (STATUS_OK, e1\<lparr>nvm := f\<rparr>)) = Some (status, e')" for e1
    using that by (auto simp: env_ok_def bind_eq_Some_conv)
  show ?thesis
  proof (cases "fl_lt v (Fin 0)")
    case True
    then show ?thesis using assms by (simp add: settings_store_global_setting_def STATUS_OK_def STATUS_NEGATIVE_VALUE_def)
  next
    case False
    show ?thesis
    proof (cases "AXIS_SETTINGS_START_VAL \<le> parameter")
      case True
      show ?thesis
      proof (cases "find_axis_setting AXIS_N_SETTINGS 0 (parameter - AXIS_SETTINGS_START_VAL)")
        case None
        then show ?thesis using assms False True
          by (simp add: settings_store_global_setting_def STATUS_OK_def STATUS_INVALID_STATEMENT_def)
      next
        case (Some p)
        obtain k axis where p: "p = (k, axis)" by fastforce
        let ?e1 = "e\<lparr>settings := set_axis k axis v (settings e)\<rparr>"
        have "settings_ok (settings e)" using assms(1) by (simp add: env_ok_def)
        then have "env_ok ?e1"
          by (intro env_ok_same_masks [OF assms(1)] is_f32_axis assms(2)) (simp_all add: frame_simps)
        then show ?thesis
          using assms(3) False True Some p by (intro fin [of ?e1]) (simp_all add: settings_store_global_setting_def)
      qed
    next
      case axis: False
      show ?thesis
      proof (cases "set_parameter parameter v e")
        case (Inl st)
        then show ?thesis using assms False axis inl [OF Inl] by (auto simp: settings_store_global_setting_def)
      next
        case (Inr e1)
        then show ?thesis
          using assms(3) False axis by (intro fin [of e1] set_parameter_ok [OF assms(1,2)] nvm) (simp_all add: settings_store_global_setting_def)
      qed
    qed
  qed
qed

text \<open>The state after loading the defaults.\<close>

definition default_env :: settings_env where
  "default_env = \<lparr>settings = default_settings, nvm = zeroed_flash,
     step_port_invert_mask = fst (st_generate_step_dir_invert_masks default_settings),
     dir_port_invert_mask = snd (st_generate_step_dir_invert_masks default_settings), limit_irq_enabled = True\<rparr>"

lemma default_env_ok: "env_ok default_env"
  by (simp add: env_ok_def default_env_def settings_ok_def default_settings_wf)
     (simp add: default_settings_def default_flags_def default_values bitflags bit_of_def bit_istrue_def bit_true_def)

theorem store_setting_invariant_witness:
  "\<exists>e'. settings_store_global_setting 13 (Fin 1) default_env = Some (STATUS_OK, e') \<and> env_ok e'"
proof -
  let ?s = "put_flag True BITFLAG_REPORT_INCHES default_settings"
  have v: "is_f32 (Fin 1)" using is_f32_of_int [of 1] f32_of_int_exact [of 1] by simp
  have "settings_wf ?s" by (simp add: frame_simps default_settings_wf)
  then have need: "flash_verify_erase_need MB (settings_bytes ?s) zeroed_flash" and wf: "settings_wf ?s"
    by (simp_all add: settings_need frame_simps) (simp add: settings_need frame_simps default_settings_def default_values)
  obtain f' where f': "write_global_settings ?s zeroed_flash = Some f'"
    using global_erase_path [OF zeroed_flash_status wf need] by blast
  have b: "fl_to_u8 (fl_trunc (Fin 1)) = 1" by code_simp
  have "settings_store_global_setting 13 (Fin 1) default_env = Some (STATUS_OK, default_env\<lparr>settings := ?s, nvm := f'\<rparr>)"
    using f' by (simp add: settings_store_global_setting_def set_parameter_def Let_def b AXIS_SETTINGS_START_VAL_def default_env_def)
  then show ?thesis using store_setting_invariant [OF default_env_ok v] by blast
qed

end
