(* ===== verification/NutsBolts.thy ===== *)
theory NutsBolts
  imports Float32
begin

text \<open>
  \<open>nuts_bolts.c\<close>: reading a floating point number from a line (\<open>read_float\<close>) and the
  hypotenuse.  A line is the list of its bytes before the terminating NUL; reading at its end
  yields the NUL.
\<close>

definition char_at :: "u8 list \<Rightarrow> u8 \<Rightarrow> u8" where
  "char_at line i = (if unat i < length line then line ! unat i else 0)"

definition MAX_INT_DIGITS :: u8 where "MAX_INT_DIGITS = 8"

text \<open>The accumulator of the digit loop.  The exponent stays within \<open>int8_t\<close> on a line of
  fewer than 128 characters (lemma \<open>read_float_exp_bound\<close>).\<close>

record number_acc =
  intval :: u32
  exp10 :: int
  ndigit :: u8
  isdecimal :: bool

definition number_acc_init :: number_acc where
  "number_acc_init = \<lparr>intval = 0, exp10 = 0, ndigit = 0, isdecimal = False\<rparr>"

text \<open>One digit \<open>c\<close>, already reduced by the code of the character 0.\<close>

definition read_digit :: "u8 \<Rightarrow> number_acc \<Rightarrow> number_acc" where
  "read_digit c a =
     (let a = a\<lparr>ndigit := ndigit a + 1\<rparr> in
      if ndigit a \<le> MAX_INT_DIGITS then
        a\<lparr>exp10 := (if isdecimal a then exp10 a - 1 else exp10 a),
          intval := push_bit 1 (push_bit 2 (intval a) + intval a) + ucast c\<rparr>
      else if \<not> isdecimal a then a\<lparr>exp10 := exp10 a + 1\<rparr> else a)"

text \<open>The loop over the characters after the sign; the result counts those it consumed.
  The end of the list is the NUL, which leaves the loop.\<close>

fun read_number :: "u8 list \<Rightarrow> nat \<Rightarrow> number_acc \<Rightarrow> nat \<times> number_acc" where
  "read_number [] n a = (n, a)"
| "read_number (ch # cs) n a =
     (let c = ch - 48 in
      if c \<le> 9 then read_number cs (Suc n) (read_digit c a)
      else if c = 254 \<and> \<not> isdecimal a then read_number cs (Suc n) (a\<lparr>isdecimal := True\<rparr>)
      else (n, a))"

text \<open>The two scaling loops: by 0.01 and 0.1 as doubles, each product rounded to float.\<close>

fun scale_down :: "nat \<Rightarrow> fl \<Rightarrow> fl" where
  "scale_down 0 v = v"
| "scale_down (Suc 0) v = to_f32 (f64_mul v (f64_lit (1 / 10)))"
| "scale_down (Suc (Suc n)) v = scale_down n (to_f32 (f64_mul v (f64_lit (1 / 100))))"

fun scale_up :: "nat \<Rightarrow> fl \<Rightarrow> fl" where
  "scale_up 0 v = v"
| "scale_up (Suc n) v = scale_up n (to_f32 (f64_mul v (f64_lit 10)))"

definition apply_exp :: "int \<Rightarrow> fl \<Rightarrow> fl" where
  "apply_exp e v =
     (if fl_eq v (Fin 0) then v else if e < 0 then scale_down (nat (- e)) v else scale_up (nat e) v)"

text \<open>\<open>read_float\<close>: the value and the new character counter, or \<open>None\<close> (nothing assigned)
  when no digit was read.\<close>

definition read_float :: "u8 list \<Rightarrow> u8 \<Rightarrow> (fl \<times> u8) option" where
  "read_float line cc =
     (let rest = drop (unat cc) line;
          c = (case rest of [] \<Rightarrow> 0 | ch # _ \<Rightarrow> ch);
          isnegative = (c = 45);
          signed = (c = 45 \<or> c = 43);
          (n, a) = read_number (if signed then tl rest else rest) 0 number_acc_init in
      if ndigit a = 0 then None
      else let fval = apply_exp (exp10 a) (f32_of_int (uint (intval a)))
           in Some (if isnegative then fl_neg fval else fval,
                    cc + of_nat (n + (if signed then 1 else 0))))"

definition hypot_f :: "fl \<Rightarrow> fl \<Rightarrow> fl" where
  "hypot_f x y = to_f32 (f64_sqrt (f32_add (f32_mul x x) (f32_mul y y)))"

section \<open>What the digit loop computes\<close>

definition is_digit :: "u8 \<Rightarrow> bool" where
  "is_digit c = (48 \<le> c \<and> c \<le> 57)"

lemma digit_iff: "(c - 48 \<le> 9) = is_digit c" for c :: u8
  unfolding is_digit_def by unat_arith auto

lemma point_iff: "(c - 48 = 254) = (c = 46)" for c :: u8
proof
  assume "c - 48 = 254"
  then have "c = 254 + 48" by (metis diff_add_cancel)
  then show "c = 46" by simp
qed simp

text \<open>The characters of a number: digits and at most one decimal point.\<close>

fun number_span :: "bool \<Rightarrow> u8 list \<Rightarrow> u8 list" where
  "number_span d [] = []"
| "number_span d (c # cs) =
     (if is_digit c then c # number_span d cs
      else if c = 46 \<and> \<not> d then c # number_span True cs else [])"

lemma read_digit_ndigit [simp]: "ndigit (read_digit c a) = ndigit a + 1"
  "isdecimal (read_digit c a) = isdecimal a"
  by (simp_all add: read_digit_def Let_def)

lemma read_number_consumed:
  "fst (read_number cs n a) = n + length (number_span (isdecimal a) cs)"
  by (induction cs n a rule: read_number.induct) (auto simp: Let_def digit_iff point_iff)

lemma read_number_ndigit:
  "ndigit (snd (read_number cs n a)) = ndigit a + of_nat (length (filter is_digit (number_span (isdecimal a) cs)))"
  by (induction cs n a rule: read_number.induct)
     (auto simp: Let_def digit_iff point_iff is_digit_def)

lemma read_digit_exp: "exp10 a - 1 \<le> exp10 (read_digit d a)" "exp10 (read_digit d a) \<le> exp10 a + 1" for d
  by (simp_all add: read_digit_def Let_def)

lemma read_number_exp:
  "exp10 a - int (length cs) \<le> exp10 (snd (read_number cs n a)) \<and>
   exp10 (snd (read_number cs n a)) \<le> exp10 a + int (length cs)"
proof (induction cs n a rule: read_number.induct)
  case (2 ch cs n a)
  then show ?case
    using read_digit_exp [where a=a and d="ch - 48"] by (auto simp: Let_def)
qed simp

lemma read_float_exp_bound:
  "length cs < 128 \<Longrightarrow> exp10 (snd (read_number cs 0 number_acc_init)) \<in> {-128<..<128}"
  using read_number_exp [of number_acc_init cs 0] by (auto simp: number_acc_init_def)

definition sign_len :: "u8 list \<Rightarrow> nat" where
  "sign_len cs = (case cs of [] \<Rightarrow> 0 | c # _ \<Rightarrow> if c = 45 \<or> c = 43 then 1 else 0)"

definition number_chars :: "u8 list \<Rightarrow> u8 list" where
  "number_chars cs = number_span False (drop (sign_len cs) cs)"

lemma read_float_unfold:
  "read_float line cc =
     (let rest = drop (unat cc) line; (n, a) = read_number (drop (sign_len rest) rest) 0 number_acc_init in
      if ndigit a = 0 then None
      else let fval = apply_exp (exp10 a) (f32_of_int (uint (intval a)))
           in Some (if rest \<noteq> [] \<and> hd rest = 45 then fl_neg fval else fval, cc + of_nat (n + sign_len rest)))"
proof (cases "drop (unat cc) line")
  case Nil
  then show ?thesis by (simp add: read_float_def sign_len_def Let_def)
next
  case (Cons ch cs)
  then show ?thesis
    by (simp add: read_float_def sign_len_def Let_def split del: if_split cong: if_cong)
       (simp split: prod.split)
qed

lemma number_span_length: "length (number_span d cs) \<le> length cs"
  by (induction d cs rule: number_span.induct) auto

lemma number_span_prefix: "\<exists>rest. cs = number_span d cs @ rest \<and>
    (rest \<noteq> [] \<longrightarrow> \<not> is_digit (hd rest))"
  by (induction d cs rule: number_span.induct) auto

lemma sign_len_le: "sign_len cs \<le> length cs" "sign_len cs \<le> 1"
  by (auto simp: sign_len_def split: list.splits)

lemma number_chars_length: "sign_len cs + length (number_chars cs) \<le> length cs"
  using number_span_length [of False "drop (sign_len cs) cs"] sign_len_le [of cs]
  by (simp add: number_chars_def)

lemma of_nat_u8_eq_0:
  fixes n :: nat
  assumes "n < 256"
  shows "(of_nat n :: u8) = 0 \<longleftrightarrow> n = 0"
  using assms by (auto simp: word_of_nat_eq_0_iff dest: dvd_imp_le)

lemma read_float_None_iff:
  assumes "length line < 256"
  shows "read_float line cc = None \<longleftrightarrow> (\<forall>c\<in>set (number_chars (drop (unat cc) line)). \<not> is_digit c)"
proof -
  let ?rest = "drop (unat cc) line"
  let ?f = "filter is_digit (number_chars ?rest)"
  have "length ?f \<le> length (number_chars ?rest)" by (rule length_filter_le)
  then have l: "length ?f < 256" using number_chars_length [of ?rest] assms by (simp del: length_filter_le)
  have "ndigit (snd (read_number (drop (sign_len ?rest) ?rest) 0 number_acc_init)) = of_nat (length ?f)"
    by (simp add: read_number_ndigit number_acc_init_def number_chars_def)
  then show ?thesis
    by (auto simp: read_float_unfold Let_def of_nat_u8_eq_0 [OF l] filter_empty_conv
        split: prod.split)
qed

lemma read_float_counter:
  assumes "length line < 256" "unat cc \<le> length line" "read_float line cc = Some (v, cc')"
  shows "unat cc' = unat cc + sign_len (drop (unat cc) line) + length (number_chars (drop (unat cc) line))"
    and "unat cc' \<le> length line"
proof -
  let ?rest = "drop (unat cc) line"
  let ?k = "length (number_chars ?rest) + sign_len ?rest"
  have "cc' = cc + of_nat ?k"
    using assms(3) read_number_consumed [of "drop (sign_len ?rest) ?rest" 0 number_acc_init]
    by (auto simp: read_float_unfold Let_def number_chars_def number_acc_init_def
        split: prod.splits if_splits)
  moreover have b: "unat cc + ?k \<le> length line"
    using number_chars_length [of ?rest] assms(2) by simp
  moreover have "unat (cc + of_nat ?k) = unat cc + ?k"
  proof -
    have "unat (of_nat k :: u8) = k" if "k < 256" for k using that by (simp add: unat_of_nat)
    then have "unat (of_nat ?k :: u8) = ?k" using b assms(1) by (meson add_leD2 le_less_trans)
    then show ?thesis using b assms(1) by (simp add: unat_word_ariths del: of_nat_add)
  qed
  ultimately show "unat cc' = unat cc + sign_len ?rest + length (number_chars ?rest)"
    and "unat cc' \<le> length line" by simp_all
qed

section \<open>Numbers without a decimal point\<close>

definition dec_value :: "nat list \<Rightarrow> nat" where
  "dec_value ds = foldl (\<lambda>v d. 10 * v + d) 0 ds"

lemma dec_value_snoc [simp]: "dec_value (ds @ [d]) = 10 * dec_value ds + d" "dec_value [] = 0"
  by (simp_all add: dec_value_def)

lemma dec_value_less: "\<forall>d\<in>set ds. d \<le> 9 \<Longrightarrow> dec_value ds < 10 ^ length ds"
  by (induction ds rule: rev_induct) auto

definition digit_chars :: "nat list \<Rightarrow> u8 list" where
  "digit_chars ds = map (\<lambda>d. 48 + of_nat d) ds"

lemma is_digit_of_nat: "d \<le> 9 \<Longrightarrow> is_digit (48 + of_nat d)"
  by (simp add: is_digit_def word_le_nat_alt unat_word_ariths unat_of_nat)

lemma read_number_app:
  assumes "\<forall>d\<in>set ds. d \<le> 9"
  shows "read_number (digit_chars ds @ cs) n a
    = read_number cs (n + length ds) (foldl (\<lambda>a d. read_digit (of_nat d) a) a ds)"
  using assms
proof (induction ds arbitrary: n a)
  case (Cons d ds)
  have "(of_nat d :: u8) \<le> 9" using Cons.prems by (simp add: word_le_nat_alt unat_of_nat)
  then show ?case using Cons by (simp add: digit_chars_def)
qed (simp add: digit_chars_def)

lemma read_digits_acc:
  assumes "\<forall>d\<in>set ds. d \<le> 9" "length ds \<le> 8"
  shows "foldl (\<lambda>a d. read_digit (of_nat d) a) number_acc_init ds
    = \<lparr>intval = of_nat (dec_value ds), exp10 = 0, ndigit = of_nat (length ds), isdecimal = False\<rparr>"
  using assms
proof (induction ds rule: rev_induct)
  case (snoc d ds)
  have le: "(of_nat (length ds) + 1 :: u8) \<le> 8"
    using snoc.prems(2) by (simp add: word_le_nat_alt unat_word_ariths unat_of_nat)
  have d: "ucast (of_nat d :: u8) = (of_nat d :: u32)"
    using snoc.prems(1) by (intro word_unat_eq_iff [THEN iffD2]) (simp add: unat_of_nat unsigned_ucast_eq take_bit_nat_eq_self)
  show ?case
    using snoc le by (simp add: read_digit_def Let_def push_bit_eq_mult MAX_INT_DIGITS_def d algebra_simps)
qed (simp add: number_acc_init_def)

lemma read_number_stop:
  "cs = [] \<or> \<not> is_digit (hd cs) \<and> hd cs \<noteq> 46 \<Longrightarrow> read_number cs n a = (n, a)"
  by (cases cs) (auto simp: Let_def digit_iff point_iff)

lemma fl_eq_0_of_int [simp]: "fl_eq (Fin q) (Fin 0) \<longleftrightarrow> q = 0"
  by (simp add: fl_eq_def)

text \<open>At most eight digits, followed by anything that does not continue the number, are read as
  the float nearest to their decimal value.\<close>

lemma read_float_digits:
  assumes ds: "\<forall>d\<in>set ds. d \<le> 9" "ds \<noteq> []" "length ds \<le> 8"
    and cs: "cs = [] \<or> \<not> is_digit (hd cs) \<and> hd cs \<noteq> 46"
    and cc: "drop (unat cc) line = digit_chars ds @ cs"
  shows "read_float line cc = Some (f32_of_int (int (dec_value ds)), cc + of_nat (length ds))"
proof -
  have hd: "hd (digit_chars ds @ cs) = 48 + of_nat (hd ds)" "hd ds \<le> 9"
    using ds by (cases ds; simp add: digit_chars_def)+
  have ns: "hd (digit_chars ds @ cs) \<noteq> 45 \<and> hd (digit_chars ds @ cs) \<noteq> 43"
  proof -
    have "\<not> is_digit 45" "\<not> is_digit 43" by (simp_all add: is_digit_def)
    then show ?thesis using is_digit_of_nat [OF hd(2)] hd(1) by metis
  qed
  have sl: "sign_len (digit_chars ds @ cs) = 0"
    using ns ds(2) by (cases ds) (simp_all add: sign_len_def digit_chars_def)
  have v: "dec_value ds < 10 ^ 8"
    using dec_value_less [OF ds(1)] power_increasing [OF ds(3), of "10::nat"] by simp
  have nz: "(of_nat (length ds) :: u8) \<noteq> 0"
    using ds by (subst of_nat_u8_eq_0) auto
  have "uint (of_nat (dec_value ds) :: u32) = int (dec_value ds)"
    using v by (simp add: uint_nat unat_of_nat)
  then show ?thesis
    using ns nz
    by (simp add: read_float_unfold cc sl read_number_app [OF ds(1)] read_digits_acc [OF ds(1,3)]
        read_number_stop [OF cs] apply_exp_def Let_def)
qed

end
