(* ===== verification/Print.thy ===== *)
theory Print
  imports NutsBolts
begin

text \<open>
  \<open>print.c\<close>: the number formatters.  Each function is the list of bytes it hands to
  \<open>serial_write\<close>, in order.  \<open>printFloat\<close> fills a ten byte buffer; a write past its end is the
  result \<open>None\<close>.
\<close>

definition bytes :: "string \<Rightarrow> u8 list" where
  "bytes s = map of_char s"

definition printString :: "u8 list \<Rightarrow> u8 list" where
  "printString s = takeWhile (\<lambda>c. c \<noteq> 0) s"

definition printPgmString :: "u8 list \<Rightarrow> u8 list" where
  "printPgmString s = takeWhile (\<lambda>c. c \<noteq> 0) s"

section \<open>Integers\<close>

fun uint8_digits :: "nat \<Rightarrow> u8 \<Rightarrow> u8 \<Rightarrow> u8 list" where
  "uint8_digits 0 n base = []"
| "uint8_digits (Suc k) n base = n mod base # uint8_digits k (n div base) base"

definition print_unsigned_int8 :: "u8 \<Rightarrow> u8 \<Rightarrow> u8 \<Rightarrow> u8 list" where
  "print_unsigned_int8 n base digits = map (\<lambda>d. 48 + d) (rev (uint8_digits (unat digits) n base))"

definition print_uint8_base2 :: "u8 \<Rightarrow> u8 list" where
  "print_uint8_base2 n = print_unsigned_int8 n 2 8"

definition print_uint8_base10 :: "u8 \<Rightarrow> u8 list" where
  "print_uint8_base10 n =
     (let digits = (if n < 10 then 1 else if n < 100 then 2 else 3) in print_unsigned_int8 n 10 digits)"

lemma udiv10_less: "n > 0 \<Longrightarrow> unat (n div 10) < unat n" for n :: u32
  by (simp add: unat_div word_greater_zero_iff flip: word_unat_eq_iff) 
     (metis div_less_dividend one_less_numeral_iff semiring_norm(76) unat_gt_0 gr_zeroI unat_eq_zero)

function uint32_digits :: "u32 \<Rightarrow> u8 list" where
  "uint32_digits n = (if n > 0 then ucast (n mod 10) # uint32_digits (n div 10) else [])"
  by pat_completeness auto
termination by (relation "measure unat") (simp_all add: udiv10_less)

declare uint32_digits.simps [simp del]

definition print_uint32_base10 :: "u32 \<Rightarrow> u8 list" where
  "print_uint32_base10 n = (if n = 0 then [48] else map (\<lambda>d. 48 + d) (rev (uint32_digits n)))"

definition printInteger :: "i32 \<Rightarrow> u8 list" where
  "printInteger n = (if n <s 0 then 45 # print_uint32_base10 (- n) else print_uint32_base10 n)"

section \<open>Floats\<close>

text \<open>The scaled integer \<open>printFloat\<close> converts to digits.\<close>

fun scale_places :: "nat \<Rightarrow> fl \<Rightarrow> fl" where
  "scale_places 0 n = n"
| "scale_places (Suc 0) n = f32_mul n (f32_of_int 10)"
| "scale_places (Suc (Suc k)) n = scale_places k (f32_mul n (f32_of_int 100))"

definition print_scaled :: "fl \<Rightarrow> u8 \<Rightarrow> u32" where
  "print_scaled n decimal_places =
     (let n = (if fl_lt n (Fin 0) then fl_neg n else n) in
      fl_to_i32 (to_f32 (f64_add (scale_places (unat decimal_places) n) (f64_lit (1 / 2)))))"

definition PRINT_BUF :: nat where "PRINT_BUF = 10"

definition put_buf :: "nat \<Rightarrow> u8 \<Rightarrow> u8 list \<Rightarrow> u8 list option" where
  "put_buf i c buf = (if i < length buf then Some (buf[i := c]) else None)"

function float_digits :: "u32 \<Rightarrow> nat \<Rightarrow> nat \<Rightarrow> u8 list \<Rightarrow> (nat \<times> u8 list) option" where
  "float_digits a dp i buf =
     (if a > 0 then
        let i = (if i = dp then i + 1 else i) in
        case put_buf i (ucast (a mod 10) + 48) buf of
          None \<Rightarrow> None
        | Some buf \<Rightarrow> float_digits (a div 10) dp (i + 1) buf
      else Some (i, buf))"
  by pat_completeness auto
termination by (relation "measure (\<lambda>(a, _). unat a)") (simp_all add: udiv10_less)

declare float_digits.simps [simp del]

function fill_zeros :: "nat \<Rightarrow> nat \<Rightarrow> u8 list \<Rightarrow> (nat \<times> u8 list) option" where
  "fill_zeros dp i buf =
     (if i < dp then case put_buf i 48 buf of None \<Rightarrow> None | Some buf \<Rightarrow> fill_zeros dp (i + 1) buf
      else Some (i, buf))"
  by pat_completeness auto
termination by (relation "measure (\<lambda>(dp, i, _). dp - i)") auto

declare fill_zeros.simps [simp del]

definition float_buffer :: "u32 \<Rightarrow> nat \<Rightarrow> (nat \<times> u8 list) option" where
  "float_buffer a dp =
     (case put_buf dp 46 (replicate PRINT_BUF 0) of None \<Rightarrow> None
      | Some buf \<Rightarrow> (case float_digits a dp 0 buf of None \<Rightarrow> None
      | Some (i, buf) \<Rightarrow> (case fill_zeros dp i buf of None \<Rightarrow> None
      | Some (i, buf) \<Rightarrow>
          if i = dp then
            (case put_buf (i + 1) 48 buf of None \<Rightarrow> None | Some buf \<Rightarrow> Some (i + 2, buf))
          else Some (i, buf))))"

definition printFloat :: "fl \<Rightarrow> u8 \<Rightarrow> u8 list option" where
  "printFloat n decimal_places =
     (case float_buffer (print_scaled n decimal_places) (unat decimal_places) of
        None \<Rightarrow> None
      | Some (i, buf) \<Rightarrow> Some ((if fl_lt n (Fin 0) then [45] else []) @ rev (take i buf)))"

definition INCH_PER_MM :: fl where "INCH_PER_MM = f64_lit (393701 / 10000000)"
definition MM_PER_INCH :: fl where "MM_PER_INCH = f64_lit (254 / 10)"

definition N_DECIMAL_COORDVALUE_INCH :: u8 where "N_DECIMAL_COORDVALUE_INCH = 4"
definition N_DECIMAL_COORDVALUE_MM :: u8 where "N_DECIMAL_COORDVALUE_MM = 3"
definition N_DECIMAL_RATEVALUE_INCH :: u8 where "N_DECIMAL_RATEVALUE_INCH = 1"
definition N_DECIMAL_RATEVALUE_MM :: u8 where "N_DECIMAL_RATEVALUE_MM = 0"
definition N_DECIMAL_SETTINGVALUE :: u8 where "N_DECIMAL_SETTINGVALUE = 3"

text \<open>The argument \<open>inches\<close> is \<open>BITFLAG_REPORT_INCHES\<close> of \<open>settings.flags\<close>.\<close>

definition printFloat_CoordValue :: "bool \<Rightarrow> fl \<Rightarrow> u8 list option" where
  "printFloat_CoordValue inches n =
     (if inches then printFloat (to_f32 (f64_mul n INCH_PER_MM)) N_DECIMAL_COORDVALUE_INCH
      else printFloat n N_DECIMAL_COORDVALUE_MM)"

definition printFloat_RateValue :: "bool \<Rightarrow> fl \<Rightarrow> u8 list option" where
  "printFloat_RateValue inches n =
     (if inches then printFloat (to_f32 (f64_mul n INCH_PER_MM)) N_DECIMAL_RATEVALUE_INCH
      else printFloat n N_DECIMAL_RATEVALUE_MM)"

definition printFloat_SettingValue :: "fl \<Rightarrow> u8 list option" where
  "printFloat_SettingValue n = printFloat n N_DECIMAL_SETTINGVALUE"

section \<open>Decimal digits\<close>

text \<open>The digits of a natural number, least significant first.\<close>

fun rdigits :: "nat \<Rightarrow> nat list" where
  "rdigits n = (if n = 0 then [] else n mod 10 # rdigits (n div 10))"

declare rdigits.simps [simp del]

lemma rdigits_0 [simp]: "rdigits 0 = []"
  by (simp add: rdigits.simps)

lemma rdigits_pos: "0 < n \<Longrightarrow> rdigits n = n mod 10 # rdigits (n div 10)"
  by (simp add: rdigits.simps [of n])

lemma rdigits_le_9: "\<forall>d\<in>set (rdigits n). d \<le> 9"
proof (induction n rule: rdigits.induct)
  case (1 n)
  then show ?case by (cases "n = 0") (auto simp: rdigits_pos)
qed

lemma dec_value_rdigits [simp]: "dec_value (rev (rdigits n)) = n"
proof (induction n rule: rdigits.induct)
  case (1 n)
  then show ?case by (cases "n = 0") (simp_all add: rdigits_pos)
qed

lemma rdigits_length: "n < 10 ^ k \<Longrightarrow> length (rdigits n) \<le> k"
proof (induction k arbitrary: n)
  case (Suc k)
  then show ?case by (cases "n = 0") (simp_all add: rdigits_pos)
qed simp

lemma rdigits_length_gt: "10 ^ k \<le> n \<Longrightarrow> k < length (rdigits n)"
proof (induction k arbitrary: n)
  case 0
  then show ?case by (simp add: rdigits_pos)
next
  case (Suc k)
  then have "10 ^ k \<le> n div 10" by simp
  then have "k < length (rdigits (n div 10))" by (rule Suc.IH)
  moreover have "0 < n" using Suc.prems by (metis less_le_trans zero_less_numeral zero_less_power)
  ultimately show ?case by (simp add: rdigits_pos)
qed

lemma rdigits_last: "0 < n \<Longrightarrow> last (rdigits n) \<noteq> 0 \<and> rdigits n \<noteq> []"
proof (induction n rule: rdigits.induct)
  case (1 n)
  then show ?case by (cases "n div 10 = 0") (auto simp: rdigits_pos)
qed

lemma uint32_digits_rdigits: "uint32_digits n = map of_nat (rdigits (unat n))"
proof (induction n rule: uint32_digits.induct)
  case (1 n)
  show ?case
  proof (cases "n = 0")
    case True
    then show ?thesis by (simp add: uint32_digits.simps)
  next
    case False
    then have pos: "0 < n" "0 < unat n" by (simp_all add: word_greater_zero_iff unat_gt_0)
    have "ucast (n mod 10) = (of_nat (unat n mod 10) :: u8)"
      by (intro word_unat_eq_iff [THEN iffD2]) (simp add: unsigned_ucast_eq unat_mod unat_of_nat take_bit_nat_def)
    then show ?thesis
      using 1 [OF pos(1)] pos by (simp add: uint32_digits.simps [of n] rdigits_pos unat_div)
  qed
qed

lemma print_uint32_digit_chars:
  "print_uint32_base10 n = (if n = 0 then digit_chars [0] else digit_chars (rev (rdigits (unat n))))"
  by (simp add: print_uint32_base10_def uint32_digits_rdigits digit_chars_def rev_map comp_def)


lemma dec_value_rev_Cons [simp]: "dec_value (rev (d # ds)) = 10 * dec_value (rev ds) + d"
  by simp

lemma dec_value_split:
  assumes "\<forall>d\<in>set ds. d \<le> 9"
  shows "dec_value (rev (drop k ds)) = dec_value (rev ds) div 10 ^ k"
    and "dec_value (rev (take k ds)) = dec_value (rev ds) mod 10 ^ k"
proof -
  have "dec_value (rev (drop k ds)) = dec_value (rev ds) div 10 ^ k \<and>
        dec_value (rev (take k ds)) = dec_value (rev ds) mod 10 ^ k"
    using assms
  proof (induction k arbitrary: ds)
    case (Suc k)
    show ?case
    proof (cases ds)
      case (Cons d es)
      have "d \<le> 9" and ih: "dec_value (rev (drop k es)) = dec_value (rev es) div 10 ^ k"
        "dec_value (rev (take k es)) = dec_value (rev es) mod 10 ^ k"
        using Suc Cons by auto
      then show ?thesis
        by (simp add: Cons div_mult2_eq mod_mult2_eq)
    qed simp
  qed simp
  then show "dec_value (rev (drop k ds)) = dec_value (rev ds) div 10 ^ k"
    and "dec_value (rev (take k ds)) = dec_value (rev ds) mod 10 ^ k" by auto
qed

lemma dec_value_rev_zeros [simp]: "dec_value (rev (ds @ replicate z 0)) = dec_value (rev ds)"
proof -
  have "foldl (\<lambda>v d. 10 * v + d) 0 (replicate z 0) = (0::nat)" by (induction z) simp_all
  then show ?thesis by (simp add: dec_value_def)
qed

section \<open>The buffer of printFloat\<close>

text \<open>The buffer after the digits \<open>ds\<close> (least significant first), with the point skipped.\<close>

definition render :: "nat \<Rightarrow> nat list \<Rightarrow> u8 list" where
  "render dp ds = digit_chars (take dp ds) @ (if dp < length ds then 46 # digit_chars (drop dp ds) else [])"

definition buf_index :: "nat \<Rightarrow> nat list \<Rightarrow> nat" where
  "buf_index dp ds = (if length ds \<le> dp then length ds else length ds + 1)"

definition buf_ok :: "nat \<Rightarrow> nat list \<Rightarrow> u8 list \<Rightarrow> bool" where
  "buf_ok dp ds buf = (length buf = PRINT_BUF \<and> dp < PRINT_BUF \<and> buf ! dp = 46 \<and>
     take (buf_index dp ds) buf = render dp ds)"

lemma digit_chars_append [simp]: "digit_chars (xs @ ys) = digit_chars xs @ digit_chars ys"
  by (simp add: digit_chars_def)

lemma render_snoc:
  "render dp (ds @ [d]) = render dp ds @ (if length ds = dp then [46] else []) @ digit_chars [d]"
  by (simp add: render_def digit_chars_def)

lemma buf_ok_step:
  assumes "buf_ok dp ds buf" and j: "j = (if buf_index dp ds = dp then dp + 1 else buf_index dp ds)"
    and "j < PRINT_BUF"
  shows "buf_ok dp (ds @ [d]) (buf[j := 48 + of_nat d]) \<and> j + 1 = buf_index dp (ds @ [d])"
  using assms
  by (auto simp: buf_ok_def buf_index_def render_snoc digit_chars_def take_Suc_conv_app_nth
      split: if_splits)

lemma put_buf_ok: "buf_ok dp ds buf \<Longrightarrow> put_buf j c buf = (if j < PRINT_BUF then Some (buf[j := c]) else None)"
  by (simp add: put_buf_def buf_ok_def)

lemma float_digits_step:
  assumes "a > 0" and ok: "buf_ok dp ds buf" and j: "j = (if buf_index dp ds = dp then dp + 1 else buf_index dp ds)"
  shows "float_digits a dp (buf_index dp ds) buf =
    (if j < PRINT_BUF then float_digits (a div 10) dp (j + 1) (buf[j := 48 + of_nat (unat a mod 10)]) else None)"
proof -
  have "ucast (a mod 10) = (of_nat (unat a mod 10) :: u8)"
    by (intro word_unat_eq_iff [THEN iffD2]) (simp add: unsigned_ucast_eq unat_mod unat_of_nat take_bit_nat_def)
  then show ?thesis
    using assms by (simp add: float_digits.simps [of a] Let_def put_buf_ok [OF ok] add.commute)
qed

lemma float_digits_fits:
  assumes "buf_ok dp ds buf" "length ds + length (rdigits (unat a)) < PRINT_BUF"
  shows "\<exists>buf'. float_digits a dp (buf_index dp ds) buf = Some (buf_index dp (ds @ rdigits (unat a)), buf')
    \<and> buf_ok dp (ds @ rdigits (unat a)) buf'"
  using assms
proof (induction "unat a" arbitrary: a ds buf rule: less_induct)
  case less
  show ?case
  proof (cases "a = 0")
    case True
    then show ?thesis using less.prems by (simp add: float_digits.simps)
  next
    case False
    then have pos: "0 < a" "0 < unat a" by (simp_all add: word_greater_zero_iff unat_gt_0)
    let ?d = "unat a mod 10"
    define j where "j = (if buf_index dp ds = dp then dp + 1 else buf_index dp ds)"
    have D: "rdigits (unat a) = ?d # rdigits (unat (a div 10))"
      using pos by (simp add: rdigits_pos unat_div)
    have jb: "j < PRINT_BUF" using less.prems by (auto simp: j_def buf_index_def D PRINT_BUF_def split: if_splits)
    note st = buf_ok_step [OF less.prems(1) j_def jb, of ?d]
    have "float_digits a dp (buf_index dp ds) buf
        = float_digits (a div 10) dp (buf_index dp (ds @ [?d])) (buf[j := 48 + of_nat ?d])"
      using float_digits_step [OF pos(1) less.prems(1) j_def] jb st by simp
    moreover have "unat (a div 10) < unat a" using udiv10_less [OF pos(1)] .
    ultimately show ?thesis
      using less.hyps [of "a div 10" "ds @ [?d]" "buf[j := 48 + of_nat ?d]"] st less.prems(2) D by simp
  qed
qed

lemma float_digits_overflow:
  assumes "buf_ok dp ds buf" "PRINT_BUF \<le> length ds + length (rdigits (unat a))" "length ds < PRINT_BUF"
    "dp < PRINT_BUF - 1"
  shows "float_digits a dp (buf_index dp ds) buf = None"
  using assms
proof (induction "unat a" arbitrary: a ds buf rule: less_induct)
  case less
  then have "rdigits (unat a) \<noteq> []" by auto
  then have "unat a \<noteq> 0" by (metis rdigits_0)
  then have pos: "0 < a" "0 < unat a" by (simp_all add: word_greater_zero_iff unat_gt_0)
  let ?d = "unat a mod 10"
  define j where "j = (if buf_index dp ds = dp then dp + 1 else buf_index dp ds)"
  have D: "rdigits (unat a) = ?d # rdigits (unat (a div 10))"
    using pos by (simp add: rdigits_pos unat_div)
  show ?case
  proof (cases "j < PRINT_BUF")
    case False
    then show ?thesis using float_digits_step [OF pos(1) less.prems(1) j_def] by simp
  next
    case True
    note st = buf_ok_step [OF less.prems(1) j_def True, of ?d]
    have len: "length (ds @ [?d]) < PRINT_BUF"
      using True less.prems(3,4) by (auto simp: j_def buf_index_def PRINT_BUF_def split: if_splits)
    have "unat (a div 10) < unat a" using udiv10_less [OF pos(1)] .
    then have "float_digits (a div 10) dp (buf_index dp (ds @ [?d])) (buf[j := 48 + of_nat ?d]) = None"
      using less.hyps [of "a div 10" "ds @ [?d]" "buf[j := 48 + of_nat ?d]"] st less.prems(2,4) D len by simp
    then show ?thesis
      using float_digits_step [OF pos(1) less.prems(1) j_def] True st by simp
  qed
qed

lemma fill_zeros_correct:
  assumes "buf_ok dp ds buf"
  shows "\<exists>buf'. fill_zeros dp (buf_index dp ds) buf = Some (buf_index dp (ds @ replicate (dp - length ds) 0), buf')
    \<and> buf_ok dp (ds @ replicate (dp - length ds) 0) buf'"
  using assms
proof (induction "dp - length ds" arbitrary: ds buf)
  case 0
  then show ?case by (subst fill_zeros.simps) (auto simp: buf_index_def)
next
  case (Suc n)
  have i: "buf_index dp ds = length ds" "length ds < dp" "dp < PRINT_BUF"
    using Suc by (auto simp: buf_index_def buf_ok_def)
  have st: "buf_ok dp (ds @ [0]) (buf[length ds := 48]) \<and> length ds + 1 = buf_index dp (ds @ [0])"
    using buf_ok_step [OF Suc.prems, of "length ds" 0] i by simp
  have "fill_zeros dp (buf_index dp ds) buf = fill_zeros dp (buf_index dp (ds @ [0])) (buf[length ds := 48])"
    using i st by (subst fill_zeros.simps) (simp add: put_buf_ok [OF Suc.prems])
  moreover have eq: "(ds @ [0]) @ replicate (dp - length (ds @ [0])) 0 = ds @ replicate (dp - length ds) 0"
    using i(2) by (metis append.assoc append_Cons append_Nil diff_Suc_eq_diff_pred Suc_diff_Suc
        length_append_singleton replicate_Suc diff_Suc_Suc minus_nat.diff_0)
  moreover have "n = dp - length (ds @ [0])" using Suc.hyps(2) by simp
  note Suc.hyps(1) [OF this conjunct1 [OF st], unfolded eq]
  ultimately show ?case by simp
qed

definition padded :: "nat \<Rightarrow> nat list \<Rightarrow> nat list" where
  "padded dp ds = ds @ replicate (Suc dp - length ds) 0"

lemma float_buffer_fits:
  assumes dp: "dp < PRINT_BUF - 1" and len: "length (rdigits (unat a)) < PRINT_BUF"
  shows "\<exists>i buf. float_buffer a dp = Some (i, buf) \<and> take i buf = render dp (padded dp (rdigits (unat a)))"
proof -
  let ?D = "rdigits (unat a)"
  let ?E = "?D @ replicate (dp - length ?D) 0"
  let ?b0 = "(replicate PRINT_BUF 0)[dp := 46]"
  have p0: "put_buf dp 46 (replicate PRINT_BUF 0) = Some ?b0" using dp by (simp add: put_buf_def)
  have ok0: "buf_ok dp [] ?b0" using dp by (simp add: buf_ok_def buf_index_def render_def digit_chars_def)
  obtain b1 where b1: "float_digits a dp 0 ?b0 = Some (buf_index dp ?D, b1)" "buf_ok dp ?D b1"
    using float_digits_fits [OF ok0, of a] len by (auto simp: buf_index_def)
  obtain b2 where b2: "fill_zeros dp (buf_index dp ?D) b1 = Some (buf_index dp ?E, b2)" "buf_ok dp ?E b2"
    using fill_zeros_correct [OF b1(2)] by auto
  show ?thesis
  proof (cases "length ?D \<le> dp")
    case True
    then have i: "buf_index dp ?E = dp" by (simp add: buf_index_def)
    have st: "buf_ok dp (?E @ [0]) (b2[dp + 1 := 48]) \<and> dp + 2 = buf_index dp (?E @ [0])"
      using buf_ok_step [OF b2(2), of "dp + 1" 0] i dp by simp
    have "?E @ [0] = padded dp ?D"
      using True by (simp add: padded_def Suc_diff_le replicate_append_same)
    then show ?thesis
      using b1 b2 i st dp by (simp add: float_buffer_def p0 put_buf_ok [OF b2(2)] buf_ok_def)
  next
    case False
    then have "buf_index dp ?E \<noteq> dp" "?E = padded dp ?D" by (simp_all add: buf_index_def padded_def)
    then show ?thesis
      using b1 b2 by (simp add: float_buffer_def p0 buf_ok_def)
  qed
qed

lemma float_buffer_overflow:
  assumes dp: "dp < PRINT_BUF - 1" and len: "PRINT_BUF \<le> length (rdigits (unat a))"
  shows "float_buffer a dp = None"
proof -
  let ?b0 = "(replicate PRINT_BUF 0)[dp := 46]"
  have "buf_ok dp [] ?b0" using dp by (simp add: buf_ok_def buf_index_def render_def digit_chars_def)
  from float_digits_overflow [OF this, of a] len dp show ?thesis
    by (simp add: float_buffer_def put_buf_def buf_index_def PRINT_BUF_def)
qed

lemma rdigits_fits_iff: "length (rdigits n) < PRINT_BUF \<longleftrightarrow> n < 10 ^ 9"
  using rdigits_length [of n 9] rdigits_length_gt [of 9 n] by (cases "n < 10 ^ 9") (simp_all add: PRINT_BUF_def)

lemma printFloat_renders:
  assumes "unat dp \<le> 8" "unat (print_scaled n dp) < 10 ^ 9"
  shows "\<exists>ip fp. printFloat n dp = Some ((if fl_lt n (Fin 0) then [45] else []) @ digit_chars ip @ 46 # digit_chars fp)
    \<and> dec_value ip = unat (print_scaled n dp) div 10 ^ unat dp
    \<and> dec_value fp = unat (print_scaled n dp) mod 10 ^ unat dp
    \<and> length fp = unat dp \<and> (\<forall>d\<in>set ip \<union> set fp. d \<le> 9) \<and> ip \<noteq> [] \<and> (hd ip = 0 \<longrightarrow> length ip = 1)"
proof -
  let ?a = "unat (print_scaled n dp)" and ?k = "unat dp"
  let ?P = "padded ?k (rdigits ?a)"
  obtain i buf where b: "float_buffer (print_scaled n dp) ?k = Some (i, buf)" "take i buf = render ?k ?P"
    using float_buffer_fits [of ?k "print_scaled n dp"] assms rdigits_fits_iff by (auto simp: PRINT_BUF_def)
  have len: "?k < length ?P" by (simp add: padded_def)
  have nine: "\<forall>d\<in>set ?P. d \<le> 9" using rdigits_le_9 [of ?a] by (auto simp: padded_def)
  have val: "dec_value (rev ?P) = ?a" by (simp add: padded_def del: rev_append)
  let ?ip = "rev (drop ?k ?P)" and ?fp = "rev (take ?k ?P)"
  have "printFloat n dp = Some ((if fl_lt n (Fin 0) then [45] else []) @ digit_chars ?ip @ 46 # digit_chars ?fp)"
    using b len by (simp add: printFloat_def render_def digit_chars_def rev_map)
  moreover have "hd ?ip = 0 \<longrightarrow> length ?ip = 1"
  proof (cases "?k < length (rdigits ?a)")
    case True
    then have "?P = rdigits ?a" "0 < ?a" by (auto simp: padded_def intro: Nat.gr0I)
    then show ?thesis using rdigits_last [of ?a] True by (simp add: hd_rev last_drop)
  next
    case False
    then show ?thesis by (simp add: padded_def)
  qed
  ultimately show ?thesis
    using dec_value_split [OF nine, of ?k] val len nine
    by (intro exI [of _ ?ip] exI [of _ ?fp]) (auto dest: in_set_takeD in_set_dropD simp del: rev_append)
qed

lemma printFloat_overflow_iff:
  assumes "unat dp \<le> 8"
  shows "printFloat n dp = None \<longleftrightarrow> 10 ^ 9 \<le> unat (print_scaled n dp)"
proof -
  have dp: "unat dp < PRINT_BUF - 1" using assms by (simp add: PRINT_BUF_def)
  show ?thesis
    using float_buffer_fits [OF dp, of "print_scaled n dp"] float_buffer_overflow [OF dp, of "print_scaled n dp"]
      rdigits_fits_iff [of "unat (print_scaled n dp)"]
    by (auto simp: printFloat_def split: option.splits)
qed

text \<open>
  C39: \<open>printFloat\<close> sends the sign, the integer part without leading zeros, the point and exactly the
  requested number of decimals of the number it scaled and rounded, as long as that has nine digits; from
  ten digits on, that is from 1000000 with three decimals, it writes outside its ten byte buffer.
\<close>

theorem printFloat_format:
  assumes "unat dp \<le> 8"
  shows "if 10 ^ 9 \<le> unat (print_scaled n dp) then printFloat n dp = None else
    \<exists>ip fp. printFloat n dp = Some ((if fl_lt n (Fin 0) then [45] else []) @ digit_chars ip @ 46 # digit_chars fp)
      \<and> dec_value ip = unat (print_scaled n dp) div 10 ^ unat dp
      \<and> dec_value fp = unat (print_scaled n dp) mod 10 ^ unat dp
      \<and> length fp = unat dp \<and> (\<forall>d\<in>set ip \<union> set fp. d \<le> 9) \<and> ip \<noteq> [] \<and> (hd ip = 0 \<longrightarrow> length ip = 1)"
  using printFloat_renders [OF assms, of n] printFloat_overflow_iff [OF assms, of n]
  by (cases "10 ^ 9 \<le> unat (print_scaled n dp)") (simp_all add: not_le)

theorem printFloat_format_witness:
  "printFloat (Fin 1000000) 3 = None \<and> (\<exists>ip fp. printFloat (Fin (-(5/4))) 3 = Some (45 # digit_chars ip @ 46 # digit_chars fp)
    \<and> dec_value ip = 1 \<and> dec_value fp = 250 \<and> length fp = 3)"
proof -
  have s: "unat (print_scaled (Fin (-(5/4))) 3) = 1250" by code_simp
  have o: "print_scaled (Fin 1000000) 3 = 1000000000" by code_simp
  have n: "fl_lt (Fin (-(5/4))) (Fin 0)" by simp
  have dp: "unat (3::u8) \<le> 8" by simp
  show ?thesis
    using printFloat_format [OF dp, of "Fin 1000000"] printFloat_format [OF dp, of "Fin (-(5/4))"] by (auto simp: s o n)
qed

text \<open>
  C40: A number below 100000000 printed by \<open>print_uint32_base10\<close> and read back by \<open>read_float\<close> is the
  number rounded to single precision, and the reading stops right behind it.
\<close>

theorem read_print_uint32:
  assumes "n < 100000000" and "line = pre @ print_uint32_base10 n @ rest"
    and "rest = [] \<or> \<not> is_digit (hd rest) \<and> hd rest \<noteq> 46" and "length pre < 256"
  shows "read_float line (of_nat (length pre)) = Some (f32_of_int (uint n), of_nat (length pre) + of_nat (length (print_uint32_base10 n)))"
proof -
  define ds where "ds = (if n = 0 then [0] else rev (rdigits (unat n)))"
  have pr: "print_uint32_base10 n = digit_chars ds"
    by (simp add: ds_def print_uint32_digit_chars)
  have v: "dec_value ds = unat n" using dec_value_snoc(1) [of "[]" 0] by (simp add: ds_def)
  have "unat n < 10 ^ 8" using assms(1) by (simp add: word_less_nat_alt)
  then have l: "length ds \<le> 8" using rdigits_length [of "unat n" 8] by (simp add: ds_def)
  have d9: "\<forall>d\<in>set ds. d \<le> 9" using rdigits_le_9 [of "unat n"] by (simp add: ds_def)
  have ne: "ds \<noteq> []" using rdigits_last [of "unat n"] by (auto simp: ds_def unat_gt_0)
  have "drop (unat (of_nat (length pre) :: u8)) line = digit_chars ds @ rest"
    using assms(2,4) by (simp add: unat_of_nat pr)
  from read_float_digits [OF d9 ne l assms(3) this] show ?thesis
    by (simp add: v pr digit_chars_def)
qed

theorem read_print_uint32_witness:
  "read_float (88 # print_uint32_base10 250 @ [89]) 1 = Some (f32_of_int 250, 1 + of_nat (length (print_uint32_base10 250)))"
proof -
  have uint250: "uint (250::u32) = 250" by simp
  have "(250::u32) < 100000000" by simp
  moreover have "\<not> is_digit (89::u8)" by (simp add: is_digit_def)
  ultimately have "read_float ([88] @ print_uint32_base10 250 @ [89]) (of_nat (length [88::u8]))
      = Some (f32_of_int (uint (250::u32)), of_nat (length [88::u8]) + of_nat (length (print_uint32_base10 250)))"
    by (intro read_print_uint32 [OF _ refl]) simp_all
  then show ?thesis by (simp only: append.simps list.size One_nat_def [symmetric] add_0 of_nat_1 uint250)
qed

end
