(* ===== verification/Gcode.thy ===== *)
theory Gcode
  imports Settings Print
begin

text \<open>
  \<open>gcode.c\<close>, first half of \<open>gc_execute_line\<close>: the parser state (\<open>gcode.h\<close>), step 2, which reads the words
  of a line into a block, and step 3, which checks the block against the parser state and
  computes its targets.  The local variables of the function are one record that every
  section updates.  A section returns a status: \<open>STATUS_OK\<close> lets the next one run, anything else is
  the \<open>FAIL\<close> of the source.  The flash is among them because reading coordinate data with a bad
  checksum rewrites it; a section is \<open>None\<close> when that access faults.
\<close>

section \<open>Constants\<close>

abbreviation (input) MAX_LINE_NUMBER :: i32 where "MAX_LINE_NUMBER \<equiv> 9999999"
abbreviation (input) TOOL_LENGTH_OFFSET_AXIS :: nat where "TOOL_LENGTH_OFFSET_AXIS \<equiv> 2"

abbreviation (input) AXIS_COMMAND_NONE :: u8 where "AXIS_COMMAND_NONE \<equiv> 0"
abbreviation (input) AXIS_COMMAND_NON_MODAL :: u8 where "AXIS_COMMAND_NON_MODAL \<equiv> 1"
abbreviation (input) AXIS_COMMAND_MOTION_MODE :: u8 where "AXIS_COMMAND_MOTION_MODE \<equiv> 2"
abbreviation (input) AXIS_COMMAND_TOOL_LENGTH_OFFSET :: u8 where "AXIS_COMMAND_TOOL_LENGTH_OFFSET \<equiv> 3"

abbreviation (input) MODAL_GROUP_G0 :: nat where "MODAL_GROUP_G0 \<equiv> 0"
abbreviation (input) MODAL_GROUP_G1 :: nat where "MODAL_GROUP_G1 \<equiv> 1"
abbreviation (input) MODAL_GROUP_G2 :: nat where "MODAL_GROUP_G2 \<equiv> 2"
abbreviation (input) MODAL_GROUP_G3 :: nat where "MODAL_GROUP_G3 \<equiv> 3"
abbreviation (input) MODAL_GROUP_G4 :: nat where "MODAL_GROUP_G4 \<equiv> 4"
abbreviation (input) MODAL_GROUP_G5 :: nat where "MODAL_GROUP_G5 \<equiv> 5"
abbreviation (input) MODAL_GROUP_G6 :: nat where "MODAL_GROUP_G6 \<equiv> 6"
abbreviation (input) MODAL_GROUP_G7 :: nat where "MODAL_GROUP_G7 \<equiv> 7"
abbreviation (input) MODAL_GROUP_G8 :: nat where "MODAL_GROUP_G8 \<equiv> 8"
abbreviation (input) MODAL_GROUP_G12 :: nat where "MODAL_GROUP_G12 \<equiv> 9"
abbreviation (input) MODAL_GROUP_G13 :: nat where "MODAL_GROUP_G13 \<equiv> 10"
abbreviation (input) MODAL_GROUP_M4 :: nat where "MODAL_GROUP_M4 \<equiv> 11"
abbreviation (input) MODAL_GROUP_M7 :: nat where "MODAL_GROUP_M7 \<equiv> 12"
abbreviation (input) MODAL_GROUP_M8 :: nat where "MODAL_GROUP_M8 \<equiv> 13"
abbreviation (input) NON_MODAL_NO_ACTION :: u8 where "NON_MODAL_NO_ACTION \<equiv> 0"
abbreviation (input) NON_MODAL_DWELL :: u8 where "NON_MODAL_DWELL \<equiv> 1"
abbreviation (input) NON_MODAL_SET_COORDINATE_DATA :: u8 where "NON_MODAL_SET_COORDINATE_DATA \<equiv> 2"
abbreviation (input) NON_MODAL_GO_HOME_0 :: u8 where "NON_MODAL_GO_HOME_0 \<equiv> 3"
abbreviation (input) NON_MODAL_SET_HOME_0 :: u8 where "NON_MODAL_SET_HOME_0 \<equiv> 4"
abbreviation (input) NON_MODAL_GO_HOME_1 :: u8 where "NON_MODAL_GO_HOME_1 \<equiv> 5"
abbreviation (input) NON_MODAL_SET_HOME_1 :: u8 where "NON_MODAL_SET_HOME_1 \<equiv> 6"
abbreviation (input) NON_MODAL_ABSOLUTE_OVERRIDE :: u8 where "NON_MODAL_ABSOLUTE_OVERRIDE \<equiv> 7"
abbreviation (input) NON_MODAL_SET_COORDINATE_OFFSET :: u8 where "NON_MODAL_SET_COORDINATE_OFFSET \<equiv> 8"
abbreviation (input) NON_MODAL_RESET_COORDINATE_OFFSET :: u8 where "NON_MODAL_RESET_COORDINATE_OFFSET \<equiv> 9"
abbreviation (input) MOTION_MODE_SEEK :: u8 where "MOTION_MODE_SEEK \<equiv> 0"
abbreviation (input) MOTION_MODE_LINEAR :: u8 where "MOTION_MODE_LINEAR \<equiv> 1"
abbreviation (input) MOTION_MODE_CW_ARC :: u8 where "MOTION_MODE_CW_ARC \<equiv> 2"
abbreviation (input) MOTION_MODE_CCW_ARC :: u8 where "MOTION_MODE_CCW_ARC \<equiv> 3"
abbreviation (input) MOTION_MODE_PROBE_TOWARD :: u8 where "MOTION_MODE_PROBE_TOWARD \<equiv> 4"
abbreviation (input) MOTION_MODE_PROBE_TOWARD_NO_ERROR :: u8 where "MOTION_MODE_PROBE_TOWARD_NO_ERROR \<equiv> 5"
abbreviation (input) MOTION_MODE_PROBE_AWAY :: u8 where "MOTION_MODE_PROBE_AWAY \<equiv> 6"
abbreviation (input) MOTION_MODE_PROBE_AWAY_NO_ERROR :: u8 where "MOTION_MODE_PROBE_AWAY_NO_ERROR \<equiv> 7"
abbreviation (input) MOTION_MODE_NONE :: u8 where "MOTION_MODE_NONE \<equiv> 8"
abbreviation (input) PLANE_SELECT_XY :: u8 where "PLANE_SELECT_XY \<equiv> 0"
abbreviation (input) PLANE_SELECT_ZX :: u8 where "PLANE_SELECT_ZX \<equiv> 1"
abbreviation (input) PLANE_SELECT_YZ :: u8 where "PLANE_SELECT_YZ \<equiv> 2"
abbreviation (input) DISTANCE_MODE_ABSOLUTE :: u8 where "DISTANCE_MODE_ABSOLUTE \<equiv> 0"
abbreviation (input) DISTANCE_MODE_INCREMENTAL :: u8 where "DISTANCE_MODE_INCREMENTAL \<equiv> 1"
abbreviation (input) DISTANCE_ARC_MODE_INCREMENTAL :: u8 where "DISTANCE_ARC_MODE_INCREMENTAL \<equiv> 0"
abbreviation (input) PROGRAM_FLOW_RUNNING :: u8 where "PROGRAM_FLOW_RUNNING \<equiv> 0"
abbreviation (input) PROGRAM_FLOW_PAUSED :: u8 where "PROGRAM_FLOW_PAUSED \<equiv> 1"
abbreviation (input) PROGRAM_FLOW_COMPLETED :: u8 where "PROGRAM_FLOW_COMPLETED \<equiv> 2"
abbreviation (input) FEED_RATE_MODE_UNITS_PER_MIN :: u8 where "FEED_RATE_MODE_UNITS_PER_MIN \<equiv> 0"
abbreviation (input) FEED_RATE_MODE_INVERSE_TIME :: u8 where "FEED_RATE_MODE_INVERSE_TIME \<equiv> 1"
abbreviation (input) UNITS_MODE_MM :: u8 where "UNITS_MODE_MM \<equiv> 0"
abbreviation (input) UNITS_MODE_INCHES :: u8 where "UNITS_MODE_INCHES \<equiv> 1"
abbreviation (input) CUTTER_COMP_DISABLE :: u8 where "CUTTER_COMP_DISABLE \<equiv> 0"
abbreviation (input) CONTROL_MODE_EXACT_PATH :: u8 where "CONTROL_MODE_EXACT_PATH \<equiv> 0"
abbreviation (input) SPINDLE_DISABLE :: u8 where "SPINDLE_DISABLE \<equiv> 0"
abbreviation (input) SPINDLE_ENABLE_CW :: u8 where "SPINDLE_ENABLE_CW \<equiv> 1"
abbreviation (input) SPINDLE_ENABLE_CCW :: u8 where "SPINDLE_ENABLE_CCW \<equiv> 2"
abbreviation (input) COOLANT_DISABLE :: u8 where "COOLANT_DISABLE \<equiv> 0"
abbreviation (input) COOLANT_MIST_ENABLE :: u8 where "COOLANT_MIST_ENABLE \<equiv> 1"
abbreviation (input) COOLANT_FLOOD_ENABLE :: u8 where "COOLANT_FLOOD_ENABLE \<equiv> 2"
abbreviation (input) TOOL_LENGTH_OFFSET_CANCEL :: u8 where "TOOL_LENGTH_OFFSET_CANCEL \<equiv> 0"
abbreviation (input) TOOL_LENGTH_OFFSET_ENABLE_DYNAMIC :: u8 where "TOOL_LENGTH_OFFSET_ENABLE_DYNAMIC \<equiv> 1"
abbreviation (input) WORD_F :: nat where "WORD_F \<equiv> 0"
abbreviation (input) WORD_I :: nat where "WORD_I \<equiv> 1"
abbreviation (input) WORD_J :: nat where "WORD_J \<equiv> 2"
abbreviation (input) WORD_K :: nat where "WORD_K \<equiv> 3"
abbreviation (input) WORD_L :: nat where "WORD_L \<equiv> 4"
abbreviation (input) WORD_N :: nat where "WORD_N \<equiv> 5"
abbreviation (input) WORD_P :: nat where "WORD_P \<equiv> 6"
abbreviation (input) WORD_R :: nat where "WORD_R \<equiv> 7"
abbreviation (input) WORD_S :: nat where "WORD_S \<equiv> 8"
abbreviation (input) WORD_T :: nat where "WORD_T \<equiv> 9"
abbreviation (input) WORD_X :: nat where "WORD_X \<equiv> 10"
abbreviation (input) WORD_Y :: nat where "WORD_Y \<equiv> 11"
abbreviation (input) WORD_Z :: nat where "WORD_Z \<equiv> 12"

abbreviation (input) STATUS_EXPECTED_COMMAND_LETTER :: u8 where "STATUS_EXPECTED_COMMAND_LETTER \<equiv> 1"
abbreviation (input) STATUS_BAD_NUMBER_FORMAT :: u8 where "STATUS_BAD_NUMBER_FORMAT \<equiv> 2"
abbreviation (input) STATUS_SETTING_DISABLED :: u8 where "STATUS_SETTING_DISABLED \<equiv> 5"
abbreviation (input) STATUS_IDLE_ERROR :: u8 where "STATUS_IDLE_ERROR \<equiv> 8"
abbreviation (input) STATUS_ALARM_LOCK :: u8 where "STATUS_ALARM_LOCK \<equiv> 9"
abbreviation (input) STATUS_OVERFLOW :: u8 where "STATUS_OVERFLOW \<equiv> 11"
abbreviation (input) STATUS_MAX_STEP_RATE_EXCEEDED :: u8 where "STATUS_MAX_STEP_RATE_EXCEEDED \<equiv> 12"
abbreviation (input) STATUS_GCODE_UNSUPPORTED_COMMAND :: u8 where "STATUS_GCODE_UNSUPPORTED_COMMAND \<equiv> 20"
abbreviation (input) STATUS_GCODE_MODAL_GROUP_VIOLATION :: u8 where "STATUS_GCODE_MODAL_GROUP_VIOLATION \<equiv> 21"
abbreviation (input) STATUS_GCODE_UNDEFINED_FEED_RATE :: u8 where "STATUS_GCODE_UNDEFINED_FEED_RATE \<equiv> 22"
abbreviation (input) STATUS_GCODE_COMMAND_VALUE_NOT_INTEGER :: u8 where "STATUS_GCODE_COMMAND_VALUE_NOT_INTEGER \<equiv> 23"
abbreviation (input) STATUS_GCODE_AXIS_COMMAND_CONFLICT :: u8 where "STATUS_GCODE_AXIS_COMMAND_CONFLICT \<equiv> 24"
abbreviation (input) STATUS_GCODE_WORD_REPEATED :: u8 where "STATUS_GCODE_WORD_REPEATED \<equiv> 25"
abbreviation (input) STATUS_GCODE_NO_AXIS_WORDS :: u8 where "STATUS_GCODE_NO_AXIS_WORDS \<equiv> 26"
abbreviation (input) STATUS_GCODE_INVALID_LINE_NUMBER :: u8 where "STATUS_GCODE_INVALID_LINE_NUMBER \<equiv> 27"
abbreviation (input) STATUS_GCODE_VALUE_WORD_MISSING :: u8 where "STATUS_GCODE_VALUE_WORD_MISSING \<equiv> 28"
abbreviation (input) STATUS_GCODE_UNSUPPORTED_COORD_SYS :: u8 where "STATUS_GCODE_UNSUPPORTED_COORD_SYS \<equiv> 29"
abbreviation (input) STATUS_GCODE_G53_INVALID_MOTION_MODE :: u8 where "STATUS_GCODE_G53_INVALID_MOTION_MODE \<equiv> 30"
abbreviation (input) STATUS_GCODE_AXIS_WORDS_EXIST :: u8 where "STATUS_GCODE_AXIS_WORDS_EXIST \<equiv> 31"
abbreviation (input) STATUS_GCODE_NO_AXIS_WORDS_IN_PLANE :: u8 where "STATUS_GCODE_NO_AXIS_WORDS_IN_PLANE \<equiv> 32"
abbreviation (input) STATUS_GCODE_INVALID_TARGET :: u8 where "STATUS_GCODE_INVALID_TARGET \<equiv> 33"
abbreviation (input) STATUS_GCODE_ARC_RADIUS_ERROR :: u8 where "STATUS_GCODE_ARC_RADIUS_ERROR \<equiv> 34"
abbreviation (input) STATUS_GCODE_NO_OFFSETS_IN_PLANE :: u8 where "STATUS_GCODE_NO_OFFSETS_IN_PLANE \<equiv> 35"
abbreviation (input) STATUS_GCODE_UNUSED_WORDS :: u8 where "STATUS_GCODE_UNUSED_WORDS \<equiv> 36"
abbreviation (input) STATUS_GCODE_G43_DYNAMIC_AXIS_ERROR :: u8 where "STATUS_GCODE_G43_DYNAMIC_AXIS_ERROR \<equiv> 37"

section \<open>State\<close>

record gc_modal_t =
  motion :: u8
  feed_rate_mode :: u8
  units :: u8
  distance :: u8
  plane_select :: u8
  tool_length :: u8
  coord_select :: u8
  program_flow :: u8
  coolant_mode :: u8
  spindle_mode :: u8

record gc_values_t =
  f_word :: fl
  ijk :: "fl vec"
  l_word :: u8
  n_word :: i32
  p_word :: fl
  r_word :: fl
  s_word :: fl
  t_word :: u8
  xyz :: "fl vec"

record parser_state_t =
  modal :: gc_modal_t
  spindle_speed :: fl
  feed_rate :: fl
  tool :: u8
  line_number :: i32
  gc_position :: "fl vec"
  coord_system :: "fl vec"
  coord_offset :: "fl vec"
  tool_length_offset :: fl

definition zero_modal :: gc_modal_t where
  "zero_modal = \<lparr>motion = 0, feed_rate_mode = 0, units = 0, distance = 0, plane_select = 0, tool_length = 0,
     coord_select = 0, program_flow = 0, coolant_mode = 0, spindle_mode = 0\<rparr>"

definition zero_values :: gc_values_t where
  "zero_values = \<lparr>f_word = Fin 0, ijk = zero_vec, l_word = 0, n_word = 0, p_word = Fin 0, r_word = Fin 0,
     s_word = Fin 0, t_word = 0, xyz = zero_vec\<rparr>"

definition zero_parser_state :: parser_state_t where
  "zero_parser_state = \<lparr>modal = zero_modal, spindle_speed = Fin 0, feed_rate = Fin 0, tool = 0, line_number = 0,
     gc_position = zero_vec, coord_system = zero_vec, coord_offset = zero_vec, tool_length_offset = Fin 0\<rparr>"

text \<open>\<open>gc_block\<close> and the local variables of \<open>gc_execute_line\<close>.  \<open>parameter_data\<close> is not
  initialised by the source; it is only read after a section has assigned it.\<close>

record gc_locals =
  non_modal_command :: u8
  bmodal :: gc_modal_t
  bvalues :: gc_values_t
  axis_command :: u8
  axis_words :: u8
  ijk_words :: u8
  command_words :: u16
  value_words :: u16
  axis_0 :: nat
  axis_1 :: nat
  axis_linear :: nat
  g10_select :: u8
  coordinate_data :: "fl vec"
  parameter_data :: "fl vec"
  gc_nvm :: flash

text \<open>Step 1.\<close>

definition gc_locals_init :: "parser_state_t \<Rightarrow> flash \<Rightarrow> gc_locals" where
  "gc_locals_init gs f = \<lparr>non_modal_command = NON_MODAL_NO_ACTION, bmodal = modal gs, bvalues = zero_values,
     axis_command = AXIS_COMMAND_NONE, axis_words = 0, ijk_words = 0, command_words = 0, value_words = 0,
     axis_0 = 0, axis_1 = 0, axis_linear = 0, g10_select = 0, coordinate_data = zero_vec,
     parameter_data = zero_vec, gc_nvm = f\<rparr>"

definition set_modal :: "(gc_modal_t \<Rightarrow> gc_modal_t) \<Rightarrow> gc_locals \<Rightarrow> gc_locals" where
  "set_modal f l = l\<lparr>bmodal := f (bmodal l)\<rparr>"

definition set_value :: "(gc_values_t \<Rightarrow> gc_values_t) \<Rightarrow> gc_locals \<Rightarrow> gc_locals" where
  "set_value f l = l\<lparr>bvalues := f (bvalues l)\<rparr>"

section \<open>Step 2: the words of a line\<close>

text \<open>A word function gives the error status or the updated locals.  \<open>word_then\<close> is the sequence
  of statements that may fail.\<close>

definition word_then :: "u8 + 'a \<Rightarrow> ('a \<Rightarrow> u8 + 'b) \<Rightarrow> u8 + 'b" where
  "word_then r f = (case r of Inl e \<Rightarrow> Inl e | Inr a \<Rightarrow> f a)"

lemma word_then_simps [simp]: "word_then (Inl e) f = Inl e" "word_then (Inr a) f = f a"
  by (simp_all add: word_then_def)

lemma word_then_Inr_iff: "word_then r f = Inr b \<longleftrightarrow> (\<exists>a. r = Inr a \<and> f a = Inr b)"
  by (cases r) simp_all

definition claim_axis_command :: "u8 \<Rightarrow> gc_locals \<Rightarrow> u8 + gc_locals" where
  "claim_axis_command c l =
     (if axis_command l \<noteq> 0 then Inl STATUS_GCODE_AXIS_COMMAND_CONFLICT else Inr (l\<lparr>axis_command := c\<rparr>))"

text \<open>G28, G30 and G92 take a subcommand 0 or 1; it is consumed from the mantissa.\<close>

definition g_subcommand :: "u16 \<Rightarrow> u8 \<Rightarrow> u8 \<Rightarrow> gc_locals \<Rightarrow> u8 + u16 \<times> gc_locals" where
  "g_subcommand mantissa plain dot1 l =
     (if mantissa = 0 then Inr (0, l\<lparr>non_modal_command := plain\<rparr>)
      else if mantissa = 10 then Inr (0, l\<lparr>non_modal_command := dot1\<rparr>)
      else Inl STATUS_GCODE_UNSUPPORTED_COMMAND)"

definition g_non_modal :: "u8 \<Rightarrow> u16 \<Rightarrow> gc_locals \<Rightarrow> u8 + u16 \<times> gc_locals" where
  "g_non_modal int_value mantissa l =
     (if int_value = 4 then Inr (mantissa, l\<lparr>non_modal_command := NON_MODAL_DWELL\<rparr>)
      else if int_value = 10 then Inr (mantissa, l\<lparr>non_modal_command := NON_MODAL_SET_COORDINATE_DATA\<rparr>)
      else if int_value = 28 then g_subcommand mantissa NON_MODAL_GO_HOME_0 NON_MODAL_SET_HOME_0 l
      else if int_value = 30 then g_subcommand mantissa NON_MODAL_GO_HOME_1 NON_MODAL_SET_HOME_1 l
      else if int_value = 53 then Inr (mantissa, l\<lparr>non_modal_command := NON_MODAL_ABSOLUTE_OVERRIDE\<rparr>)
      else g_subcommand mantissa NON_MODAL_SET_COORDINATE_OFFSET NON_MODAL_RESET_COORDINATE_OFFSET l)"

definition g_motion :: "u8 \<Rightarrow> u16 \<Rightarrow> gc_locals \<Rightarrow> u8 + u16 \<times> gc_locals" where
  "g_motion int_value mantissa l =
     (let mode = (\<lambda>m. set_modal (motion_update (\<lambda>_. m)) l) in
      if int_value = 0 then Inr (mantissa, mode MOTION_MODE_SEEK)
      else if int_value = 1 then Inr (mantissa, mode MOTION_MODE_LINEAR)
      else if int_value = 2 then Inr (mantissa, mode MOTION_MODE_CW_ARC)
      else if int_value = 3 then Inr (mantissa, mode MOTION_MODE_CCW_ARC)
      else if int_value = 38 then
        (if mantissa = 20 then Inr (0, mode MOTION_MODE_PROBE_TOWARD)
         else if mantissa = 30 then Inr (0, mode MOTION_MODE_PROBE_TOWARD_NO_ERROR)
         else if mantissa = 40 then Inr (0, mode MOTION_MODE_PROBE_AWAY)
         else if mantissa = 50 then Inr (0, mode MOTION_MODE_PROBE_AWAY_NO_ERROR)
         else Inl STATUS_GCODE_UNSUPPORTED_COMMAND)
      else Inr (mantissa, mode MOTION_MODE_NONE))"

text \<open>The big switch on G commands: the modal group of the command, what is left of the mantissa,
  and the updated locals.\<close>

definition g_command :: "u8 \<Rightarrow> u16 \<Rightarrow> gc_locals \<Rightarrow> u8 + nat \<times> u16 \<times> gc_locals" where
  "g_command int_value mantissa l =
     (if int_value \<in> {10, 28, 30, 92} then
        word_then (if mantissa = 0 then claim_axis_command AXIS_COMMAND_NON_MODAL l else Inr l) (\<lambda>l.
        word_then (g_non_modal int_value mantissa l) (\<lambda>(mantissa, l). Inr (MODAL_GROUP_G0, mantissa, l)))
      else if int_value \<in> {4, 53} then
        word_then (g_non_modal int_value mantissa l) (\<lambda>(mantissa, l). Inr (MODAL_GROUP_G0, mantissa, l))
      else if int_value \<in> {0, 1, 2, 3, 38} then
        word_then (claim_axis_command AXIS_COMMAND_MOTION_MODE l) (\<lambda>l.
        word_then (g_motion int_value mantissa l) (\<lambda>(mantissa, l). Inr (MODAL_GROUP_G1, mantissa, l)))
      else if int_value = 80 then
        word_then (g_motion int_value mantissa l) (\<lambda>(mantissa, l). Inr (MODAL_GROUP_G1, mantissa, l))
      else if int_value \<in> {17, 18, 19} then
        Inr (MODAL_GROUP_G2, mantissa, set_modal (plane_select_update (\<lambda>_.
          if int_value = 17 then PLANE_SELECT_XY else if int_value = 18 then PLANE_SELECT_ZX else PLANE_SELECT_YZ)) l)
      else if int_value \<in> {90, 91} then
        (if mantissa = 0 then
           Inr (MODAL_GROUP_G3, mantissa, set_modal (distance_update (\<lambda>_.
             if int_value = 90 then DISTANCE_MODE_ABSOLUTE else DISTANCE_MODE_INCREMENTAL)) l)
         else if mantissa \<noteq> 10 \<or> int_value = 90 then Inl STATUS_GCODE_UNSUPPORTED_COMMAND
         else Inr (MODAL_GROUP_G4, 0, l))
      else if int_value \<in> {93, 94} then
        Inr (MODAL_GROUP_G5, mantissa, set_modal (feed_rate_mode_update (\<lambda>_.
          if int_value = 93 then FEED_RATE_MODE_INVERSE_TIME else FEED_RATE_MODE_UNITS_PER_MIN)) l)
      else if int_value \<in> {20, 21} then
        Inr (MODAL_GROUP_G6, mantissa, set_modal (units_update (\<lambda>_.
          if int_value = 20 then UNITS_MODE_INCHES else UNITS_MODE_MM)) l)
      else if int_value = 40 then Inr (MODAL_GROUP_G7, mantissa, l)
      else if int_value \<in> {43, 49} then
        word_then (claim_axis_command AXIS_COMMAND_TOOL_LENGTH_OFFSET l) (\<lambda>l.
          if int_value = 49 then
            Inr (MODAL_GROUP_G8, 0, set_modal (tool_length_update (\<lambda>_. TOOL_LENGTH_OFFSET_CANCEL)) l)
          else if mantissa = 10 then
            Inr (MODAL_GROUP_G8, 0, set_modal (tool_length_update (\<lambda>_. TOOL_LENGTH_OFFSET_ENABLE_DYNAMIC)) l)
          else Inl STATUS_GCODE_UNSUPPORTED_COMMAND)
      else if int_value \<in> {54, 55, 56, 57, 58, 59} then
        Inr (MODAL_GROUP_G12, mantissa, set_modal (coord_select_update (\<lambda>_. int_value - 54)) l)
      else if int_value = 61 then
        (if mantissa \<noteq> 0 then Inl STATUS_GCODE_UNSUPPORTED_COMMAND else Inr (MODAL_GROUP_G13, mantissa, l))
      else Inl STATUS_GCODE_UNSUPPORTED_COMMAND)"

text \<open>One command per modal group.\<close>

definition mark_command :: "nat \<Rightarrow> gc_locals \<Rightarrow> u8 + gc_locals" where
  "mark_command word_bit l =
     (if bit_istrue (command_words l) (bit_of word_bit) then Inl STATUS_GCODE_MODAL_GROUP_VIOLATION
      else Inr (l\<lparr>command_words := command_words l OR bit_of word_bit\<rparr>))"

definition g_word :: "u8 \<Rightarrow> u16 \<Rightarrow> gc_locals \<Rightarrow> u8 + gc_locals" where
  "g_word int_value mantissa l =
     word_then (g_command int_value mantissa l) (\<lambda>(word_bit, mantissa, l).
       if mantissa > 0 then Inl STATUS_GCODE_COMMAND_VALUE_NOT_INTEGER else mark_command word_bit l)"

definition m_command :: "u8 \<Rightarrow> gc_locals \<Rightarrow> u8 + nat \<times> gc_locals" where
  "m_command int_value l =
     (if int_value \<in> {0, 1, 2, 30} then
        Inr (MODAL_GROUP_M4,
          if int_value = 0 then set_modal (program_flow_update (\<lambda>_. PROGRAM_FLOW_PAUSED)) l
          else if int_value = 1 then l
          else set_modal (program_flow_update (\<lambda>_. PROGRAM_FLOW_COMPLETED)) l)
      else if int_value \<in> {3, 4, 5} then
        Inr (MODAL_GROUP_M7, set_modal (spindle_mode_update (\<lambda>_.
          if int_value = 3 then SPINDLE_ENABLE_CW else if int_value = 4 then SPINDLE_ENABLE_CCW
          else SPINDLE_DISABLE)) l)
      else if int_value \<in> {8, 9} then
        Inr (MODAL_GROUP_M8, set_modal (coolant_mode_update (\<lambda>_.
          if int_value = 8 then COOLANT_FLOOD_ENABLE else COOLANT_DISABLE)) l)
      else Inl STATUS_GCODE_UNSUPPORTED_COMMAND)"

definition m_word :: "u8 \<Rightarrow> u16 \<Rightarrow> gc_locals \<Rightarrow> u8 + gc_locals" where
  "m_word int_value mantissa l =
     (if mantissa > 0 then Inl STATUS_GCODE_COMMAND_VALUE_NOT_INTEGER
      else word_then (m_command int_value l) (\<lambda>(word_bit, l). mark_command word_bit l))"

text \<open>The value words; letters are given by their character codes.\<close>

definition put_ijk :: "nat \<Rightarrow> fl \<Rightarrow> gc_locals \<Rightarrow> gc_locals" where
  "put_ijk axis v l = (set_value (\<lambda>b. b\<lparr>ijk := (ijk b)[axis := v]\<rparr>) l)\<lparr>ijk_words := ijk_words l OR bit_of axis\<rparr>"

definition put_xyz :: "nat \<Rightarrow> fl \<Rightarrow> gc_locals \<Rightarrow> gc_locals" where
  "put_xyz axis v l = (set_value (\<lambda>b. b\<lparr>xyz := (xyz b)[axis := v]\<rparr>) l)\<lparr>axis_words := axis_words l OR bit_of axis\<rparr>"

definition value_command :: "u8 \<Rightarrow> fl \<Rightarrow> u8 \<Rightarrow> gc_locals \<Rightarrow> u8 + nat \<times> gc_locals" where
  "value_command letter value int_value l =
     (if letter = of_char CHR ''F'' then Inr (WORD_F, set_value (\<lambda>b. b\<lparr>f_word := value\<rparr>) l)
      else if letter = of_char CHR ''I'' then Inr (WORD_I, put_ijk X_AXIS value l)
      else if letter = of_char CHR ''J'' then Inr (WORD_J, put_ijk Y_AXIS value l)
      else if letter = of_char CHR ''K'' then Inr (WORD_K, put_ijk Z_AXIS value l)
      else if letter = of_char CHR ''L'' then Inr (WORD_L, set_value (\<lambda>b. b\<lparr>l_word := int_value\<rparr>) l)
      else if letter = of_char CHR ''N'' then
        Inr (WORD_N, set_value (\<lambda>b. b\<lparr>n_word := fl_to_i32 (fl_trunc value)\<rparr>) l)
      else if letter = of_char CHR ''P'' then Inr (WORD_P, set_value (\<lambda>b. b\<lparr>p_word := value\<rparr>) l)
      else if letter = of_char CHR ''R'' then Inr (WORD_R, set_value (\<lambda>b. b\<lparr>r_word := value\<rparr>) l)
      else if letter = of_char CHR ''S'' then Inr (WORD_S, set_value (\<lambda>b. b\<lparr>s_word := value\<rparr>) l)
      else if letter = of_char CHR ''T'' then Inr (WORD_T, l)
      else if letter = of_char CHR ''X'' then Inr (WORD_X, put_xyz X_AXIS value l)
      else if letter = of_char CHR ''Y'' then Inr (WORD_Y, put_xyz Y_AXIS value l)
      else if letter = of_char CHR ''Z'' then Inr (WORD_Z, put_xyz Z_AXIS value l)
      else Inl STATUS_GCODE_UNSUPPORTED_COMMAND)"

definition mark_value :: "nat \<Rightarrow> fl \<Rightarrow> gc_locals \<Rightarrow> u8 + gc_locals" where
  "mark_value word_bit value l =
     (if bit_istrue (value_words l) (bit_of word_bit) then Inl STATUS_GCODE_WORD_REPEATED
      else if word_bit \<in> {WORD_F, WORD_N, WORD_P, WORD_T, WORD_S} \<and> fl_lt value (Fin 0)
        then Inl STATUS_NEGATIVE_VALUE
      else Inr (l\<lparr>value_words := value_words l OR bit_of word_bit\<rparr>))"

definition value_word :: "u8 \<Rightarrow> fl \<Rightarrow> u8 \<Rightarrow> gc_locals \<Rightarrow> u8 + gc_locals" where
  "value_word letter value int_value l =
     word_then (value_command letter value int_value l) (\<lambda>(word_bit, l). mark_value word_bit value l)"

text \<open>\<open>int_value\<close> and \<open>mantissa\<close>: the C conversions \<open>(uint8_t)trunc(value)\<close> and
  \<open>(uint16_t)round(100*(value - int_value))\<close>, the arithmetic in single precision.\<close>

definition word_int_value :: "fl \<Rightarrow> u8" where
  "word_int_value value = fl_to_u8 (fl_trunc value)"

definition word_mantissa :: "fl \<Rightarrow> u16" where
  "word_mantissa value =
     ucast (fl_to_u32 (fl_round_away
       (f32_mul (f32_of_int 100) (f32_sub value (f32_of_int (uint (word_int_value value)))))))"

definition gc_word :: "u8 \<Rightarrow> fl \<Rightarrow> gc_locals \<Rightarrow> u8 + gc_locals" where
  "gc_word letter value l =
     (let int_value = word_int_value value; mantissa = word_mantissa value in
      if letter = of_char CHR ''G'' then g_word int_value mantissa l
      else if letter = of_char CHR ''M'' then m_word int_value mantissa l
      else value_word letter value int_value l)"

text \<open>The loop over the line.  The character counter has eight bits; \<open>None\<close> is a loop that never
  ends.\<close>

partial_function (option) gc_parse :: "u8 list \<Rightarrow> u8 \<Rightarrow> gc_locals \<Rightarrow> (u8 + gc_locals) option" where
  "gc_parse line cc l =
     (let letter = char_at line cc in
      if letter = 0 then Some (Inr l)
      else if letter < of_char CHR ''A'' \<or> of_char CHR ''Z'' < letter then Some (Inl STATUS_EXPECTED_COMMAND_LETTER)
      else case read_float line (cc + 1) of
          None \<Rightarrow> Some (Inl STATUS_BAD_NUMBER_FORMAT)
        | Some (value, cc) \<Rightarrow>
            (case gc_word letter value l of
               Inl e \<Rightarrow> Some (Inl e)
             | Inr l \<Rightarrow> gc_parse line cc l))"

declare gc_parse.simps [code]

section \<open>Step 3: the checks\<close>

type_synonym gc_check = "gc_locals \<Rightarrow> (u8 \<times> gc_locals) option"

definition pass :: gc_check where "pass l = Some (STATUS_OK, l)"

definition fail :: "u8 \<Rightarrow> gc_check" where "fail e l = Some (e, l)"

definition check_then :: "gc_check \<Rightarrow> gc_check \<Rightarrow> gc_check" where
  "check_then f g l = Option.bind (f l) (\<lambda>(st, l). if st = STATUS_OK then g l else Some (st, l))"

definition has_word :: "nat \<Rightarrow> gc_locals \<Rightarrow> bool" where
  "has_word w l = bit_istrue (value_words l) (bit_of w)"

definition has_axis :: "nat \<Rightarrow> u8 \<Rightarrow> bool" where
  "has_axis a words = bit_istrue words (bit_of a)"

definition use_words :: "u16 \<Rightarrow> gc_locals \<Rightarrow> gc_locals" where
  "use_words ws l = l\<lparr>value_words := bit_false (value_words l) ws\<rparr>"

text \<open>The loops over the axes of a vector: each axis in the mask is updated from its old value.\<close>

definition map_axes :: "(nat \<Rightarrow> bool) \<Rightarrow> (nat \<Rightarrow> fl \<Rightarrow> fl) \<Rightarrow> fl vec \<Rightarrow> fl vec" where
  "map_axes sel f v = map (\<lambda>i. if sel i then f i (v ! i) else v ! i) [0..<N_AXIS]"

definition to_mm :: "fl \<Rightarrow> fl" where
  "to_mm v = to_f32 (f64_mul v MM_PER_INCH)"

text \<open>Sections 0 to 4: implicit motion command, line number, feed rate, spindle speed.\<close>

definition check_line_number :: gc_check where
  "check_line_number l =
     (let l = (if axis_words l \<noteq> 0 \<and> axis_command l = 0 then l\<lparr>axis_command := AXIS_COMMAND_MOTION_MODE\<rparr> else l) in
      if has_word WORD_N l \<and> MAX_LINE_NUMBER <s n_word (bvalues l) then fail STATUS_GCODE_INVALID_LINE_NUMBER l
      else pass l)"

definition check_feed_rate :: "parser_state_t \<Rightarrow> gc_check" where
  "check_feed_rate gs l =
     (if feed_rate_mode (bmodal l) = FEED_RATE_MODE_INVERSE_TIME then
        if axis_command l = AXIS_COMMAND_MOTION_MODE
           \<and> (motion (bmodal l) \<noteq> MOTION_MODE_NONE \<or> motion (bmodal l) \<noteq> MOTION_MODE_SEEK)
           \<and> \<not> has_word WORD_F l
        then fail STATUS_GCODE_UNDEFINED_FEED_RATE l else pass l
      else if feed_rate_mode (modal gs) = FEED_RATE_MODE_UNITS_PER_MIN then
        if has_word WORD_F l then
          if units (bmodal l) = UNITS_MODE_INCHES
          then pass (set_value (\<lambda>b. b\<lparr>f_word := to_mm (f_word b)\<rparr>) l) else pass l
        else pass (set_value (\<lambda>b. b\<lparr>f_word := feed_rate gs\<rparr>) l)
      else pass l)"

definition check_spindle_speed :: "parser_state_t \<Rightarrow> gc_check" where
  "check_spindle_speed gs l =
     (if \<not> has_word WORD_S l then pass (set_value (\<lambda>b. b\<lparr>s_word := spindle_speed gs\<rparr>) l) else pass l)"

text \<open>Sections 10 to 12: dwell, plane, units.\<close>

definition check_dwell :: gc_check where
  "check_dwell l =
     (if non_modal_command l = NON_MODAL_DWELL then
        if \<not> has_word WORD_P l then fail STATUS_GCODE_VALUE_WORD_MISSING l
        else pass (use_words (bit_of WORD_P) l)
      else pass l)"

definition set_plane :: gc_check where
  "set_plane l = pass
     (if plane_select (bmodal l) = PLANE_SELECT_XY then
        l\<lparr>axis_0 := X_AXIS, axis_1 := Y_AXIS, axis_linear := Z_AXIS\<rparr>
      else if plane_select (bmodal l) = PLANE_SELECT_ZX then
        l\<lparr>axis_0 := Z_AXIS, axis_1 := X_AXIS, axis_linear := Y_AXIS\<rparr>
      else l\<lparr>axis_0 := Y_AXIS, axis_1 := Z_AXIS, axis_linear := X_AXIS\<rparr>)"

definition convert_units :: gc_check where
  "convert_units l = pass
     (if units (bmodal l) = UNITS_MODE_INCHES then
        set_value (\<lambda>b. b\<lparr>xyz := map_axes (\<lambda>i. has_axis i (axis_words l)) (\<lambda>i v. to_mm v) (xyz b)\<rparr>) l
      else l)"

text \<open>Sections 14 and 15: tool length offset, coordinate system selection.\<close>

definition check_tool_length :: gc_check where
  "check_tool_length l =
     (if axis_command l = AXIS_COMMAND_TOOL_LENGTH_OFFSET
         \<and> tool_length (bmodal l) = TOOL_LENGTH_OFFSET_ENABLE_DYNAMIC
         \<and> axis_words l XOR bit_of TOOL_LENGTH_OFFSET_AXIS \<noteq> 0
      then fail STATUS_GCODE_G43_DYNAMIC_AXIS_ERROR l else pass l)"

text \<open>\<open>settings_read_coord_data\<close> into one of the two vectors; a failed read has cleared it.\<close>

definition load_coord :: "u8 \<Rightarrow> ((fl vec \<Rightarrow> fl vec) \<Rightarrow> gc_locals \<Rightarrow> gc_locals) \<Rightarrow> gc_check" where
  "load_coord n upd l =
     Option.bind (settings_read_coord_data n (gc_nvm l)) (\<lambda>(ok, v, f).
       let l = (upd (\<lambda>_. v) l)\<lparr>gc_nvm := f\<rparr> in
       if ok then pass l else fail STATUS_SETTING_READ_FAIL l)"

definition check_coord_select :: "parser_state_t \<Rightarrow> gc_check" where
  "check_coord_select gs l =
     (let l = l\<lparr>coordinate_data := coord_system gs\<rparr> in
      if bit_istrue (command_words l) (bit_of MODAL_GROUP_G12) then
        if coord_select (bmodal l) > N_COORDINATE_SYSTEM then fail STATUS_GCODE_UNSUPPORTED_COORD_SYS l
        else if coord_select (modal gs) \<noteq> coord_select (bmodal l)
        then load_coord (coord_select (bmodal l)) coordinate_data_update l
        else pass l
      else pass l)"

text \<open>Section 19: G10, G92, targets and the other non-modal commands.\<close>

definition g10_value :: "parser_state_t \<Rightarrow> gc_locals \<Rightarrow> nat \<Rightarrow> fl" where
  "g10_value gs l i =
     (if l_word (bvalues l) = 20 then
        let v = f32_sub (f32_sub (gc_position gs ! i) (coord_offset gs ! i)) (xyz (bvalues l) ! i)
        in if i = TOOL_LENGTH_OFFSET_AXIS then f32_sub v (tool_length_offset gs) else v
      else xyz (bvalues l) ! i)"

definition check_g10 :: "parser_state_t \<Rightarrow> gc_check" where
  "check_g10 gs l =
     (if axis_words l = 0 then fail STATUS_GCODE_NO_AXIS_WORDS l
      else if bit_isfalse (value_words l) (bit_of WORD_P OR bit_of WORD_L) then fail STATUS_GCODE_VALUE_WORD_MISSING l
      else
        let l = l\<lparr>g10_select := fl_to_u8 (fl_trunc (p_word (bvalues l)))\<rparr> in
        if g10_select l > N_COORDINATE_SYSTEM then fail STATUS_GCODE_UNSUPPORTED_COORD_SYS l
        else if l_word (bvalues l) = 2 \<and> has_word WORD_R l
        then fail STATUS_GCODE_UNSUPPORTED_COMMAND l
        else if l_word (bvalues l) \<noteq> 20 \<and> l_word (bvalues l) \<noteq> 2 then fail STATUS_GCODE_UNSUPPORTED_COMMAND l
        else
          let l = use_words (bit_of WORD_L OR bit_of WORD_P) l;
              l = l\<lparr>g10_select := if g10_select l > 0 then g10_select l - 1 else coord_select (bmodal l)\<rparr>
          in check_then (load_coord (g10_select l) parameter_data_update) (\<lambda>l.
            pass (l\<lparr>parameter_data :=
              map_axes (\<lambda>i. has_axis i (axis_words l)) (\<lambda>i v. g10_value gs l i) (parameter_data l)\<rparr>)) l)"

definition g92_value :: "parser_state_t \<Rightarrow> gc_locals \<Rightarrow> nat \<Rightarrow> fl \<Rightarrow> fl" where
  "g92_value gs l i v =
     (if has_axis i (axis_words l) then
        let v = f32_sub (f32_sub (gc_position gs ! i) (coordinate_data l ! i)) v
        in if i = TOOL_LENGTH_OFFSET_AXIS then f32_sub v (tool_length_offset gs) else v
      else coord_offset gs ! i)"

definition check_g92 :: "parser_state_t \<Rightarrow> gc_check" where
  "check_g92 gs l =
     (if axis_words l = 0 then fail STATUS_GCODE_NO_AXIS_WORDS l
      else pass (set_value (\<lambda>b. b\<lparr>xyz := map_axes (\<lambda>i. True) (g92_value gs l) (xyz b)\<rparr>) l))"

definition target_value :: "parser_state_t \<Rightarrow> gc_locals \<Rightarrow> nat \<Rightarrow> fl \<Rightarrow> fl" where
  "target_value gs l i v =
     (if \<not> has_axis i (axis_words l) then gc_position gs ! i
      else if non_modal_command l \<noteq> NON_MODAL_ABSOLUTE_OVERRIDE then
        if distance (bmodal l) = DISTANCE_MODE_ABSOLUTE then
          let v = f32_add v (f32_add (coordinate_data l ! i) (coord_offset gs ! i))
          in if i = TOOL_LENGTH_OFFSET_AXIS then f32_add v (tool_length_offset gs) else v
        else f32_add v (gc_position gs ! i)
      else v)"

definition compute_target :: "parser_state_t \<Rightarrow> gc_locals \<Rightarrow> gc_locals" where
  "compute_target gs l =
     (if axis_command l \<noteq> AXIS_COMMAND_TOOL_LENGTH_OFFSET \<and> axis_words l \<noteq> 0 then
        set_value (\<lambda>b. b\<lparr>xyz := map_axes (\<lambda>i. True) (target_value gs l) (xyz b)\<rparr>) l
      else l)"

definition check_go_home :: "u8 \<Rightarrow> gc_check" where
  "check_go_home idx l =
     (let l = (if axis_words l = 0 then l\<lparr>axis_command := AXIS_COMMAND_NONE\<rparr> else l)
      in load_coord idx parameter_data_update l)"

definition check_non_modal :: "parser_state_t \<Rightarrow> gc_check" where
  "check_non_modal gs l =
     (if non_modal_command l = NON_MODAL_SET_COORDINATE_DATA then check_g10 gs l
      else if non_modal_command l = NON_MODAL_SET_COORDINATE_OFFSET then check_g92 gs l
      else
        let l = compute_target gs l in
        if non_modal_command l = NON_MODAL_GO_HOME_0 then check_go_home SETTING_INDEX_G28 l
        else if non_modal_command l = NON_MODAL_GO_HOME_1 then check_go_home SETTING_INDEX_G30 l
        else if non_modal_command l = NON_MODAL_ABSOLUTE_OVERRIDE
             \<and> \<not> (motion (bmodal l) = MOTION_MODE_SEEK \<or> motion (bmodal l) = MOTION_MODE_LINEAR)
        then fail STATUS_GCODE_G53_INVALID_MOTION_MODE l
        else pass l)"

text \<open>Section 20: motion modes.\<close>

definition gc_check_same_position :: "fl vec \<Rightarrow> fl vec \<Rightarrow> bool" where
  "gc_check_same_position a b = (\<forall>i < N_AXIS. fl_eq (a ! i) (b ! i))"

definition arc_radius_mode :: "parser_state_t \<Rightarrow> fl \<Rightarrow> fl \<Rightarrow> gc_check" where
  "arc_radius_mode gs x y l =
     (let l = use_words (bit_of WORD_R) l in
      if gc_check_same_position (gc_position gs) (xyz (bvalues l)) then fail STATUS_GCODE_INVALID_TARGET l
      else
        let r = (if units (bmodal l) = UNITS_MODE_INCHES then to_mm (r_word (bvalues l)) else r_word (bvalues l));
            h = to_f32 (f64_sub (f64_sub (f64_mul (f64_mul (f64_lit 4) r) r) (f32_mul x x)) (f32_mul y y))
        in if fl_lt h (Fin 0) then fail STATUS_GCODE_ARC_RADIUS_ERROR (set_value (\<lambda>b. b\<lparr>r_word := r\<rparr>) l)
        else
          let h = to_f32 (f64_div (fl_neg (f64_sqrt h)) (hypot_f x y));
              h = (if motion (bmodal l) = MOTION_MODE_CCW_ARC then fl_neg h else h);
              (h, r) = (if fl_lt r (Fin 0) then (fl_neg h, fl_neg r) else (h, r));
              i = to_f32 (f64_mul (f64_lit (1 / 2)) (f32_sub x (f32_mul y h)));
              j = to_f32 (f64_mul (f64_lit (1 / 2)) (f32_add y (f32_mul x h)))
          in pass (set_value (\<lambda>b. b\<lparr>r_word := r, ijk := (ijk b)[axis_0 l := i, axis_1 l := j]\<rparr>) l))"

definition arc_offset_mode :: "fl \<Rightarrow> fl \<Rightarrow> gc_check" where
  "arc_offset_mode x y l =
     (if \<not> (has_axis (axis_0 l) (ijk_words l) \<or> has_axis (axis_1 l) (ijk_words l))
      then fail STATUS_GCODE_NO_OFFSETS_IN_PLANE l
      else
        let l = use_words (bit_of WORD_I OR bit_of WORD_J OR bit_of WORD_K) l;
            l = (if units (bmodal l) = UNITS_MODE_INCHES then
                   set_value (\<lambda>b. b\<lparr>ijk := map_axes (\<lambda>i. has_axis i (ijk_words l)) (\<lambda>i v. to_mm v) (ijk b)\<rparr>) l
                 else l);
            o0 = ijk (bvalues l) ! axis_0 l;
            o1 = ijk (bvalues l) ! axis_1 l;
            target_r = hypot_f (f32_sub x o0) (f32_sub y o1);
            l = set_value (\<lambda>b. b\<lparr>r_word := hypot_f o0 o1\<rparr>) l;
            delta_r = fl_abs (f32_sub target_r (r_word (bvalues l)))
        in if fl_gt delta_r (f64_lit (5 / 1000))
              \<and> (fl_gt delta_r (f64_lit (1 / 2))
                  \<or> fl_gt delta_r (f64_mul (f64_lit (1 / 1000)) (r_word (bvalues l))))
        then fail STATUS_GCODE_INVALID_TARGET l
        else pass l)"

definition check_arc :: "parser_state_t \<Rightarrow> gc_check" where
  "check_arc gs l =
     (if axis_words l = 0 then fail STATUS_GCODE_NO_AXIS_WORDS l
      else if \<not> (has_axis (axis_0 l) (axis_words l) \<or> has_axis (axis_1 l) (axis_words l))
      then fail STATUS_GCODE_NO_AXIS_WORDS_IN_PLANE l
      else
        let x = f32_sub (xyz (bvalues l) ! axis_0 l) (gc_position gs ! axis_0 l);
            y = f32_sub (xyz (bvalues l) ! axis_1 l) (gc_position gs ! axis_1 l)
        in if has_word WORD_R l then arc_radius_mode gs x y l else arc_offset_mode x y l)"

definition check_motion :: "parser_state_t \<Rightarrow> gc_check" where
  "check_motion gs l =
     (let no_axes = (\<lambda>l. if axis_words l = 0 then l\<lparr>axis_command := AXIS_COMMAND_NONE\<rparr> else l) in
      if motion (bmodal l) = MOTION_MODE_NONE then
        if axis_words l \<noteq> 0 \<and> axis_command l \<noteq> AXIS_COMMAND_NON_MODAL then fail STATUS_GCODE_AXIS_WORDS_EXIST l
        else pass l
      else if axis_command l = AXIS_COMMAND_MOTION_MODE then
        if motion (bmodal l) = MOTION_MODE_SEEK then pass (no_axes l)
        else if fl_eq (f_word (bvalues l)) (Fin 0) then fail STATUS_GCODE_UNDEFINED_FEED_RATE l
        else if motion (bmodal l) = MOTION_MODE_LINEAR then pass (no_axes l)
        else if motion (bmodal l) = MOTION_MODE_CW_ARC \<or> motion (bmodal l) = MOTION_MODE_CCW_ARC then check_arc gs l
        else if motion (bmodal l) = MOTION_MODE_PROBE_TOWARD \<or> motion (bmodal l) = MOTION_MODE_PROBE_TOWARD_NO_ERROR
             \<or> motion (bmodal l) = MOTION_MODE_PROBE_AWAY \<or> motion (bmodal l) = MOTION_MODE_PROBE_AWAY_NO_ERROR then
          if axis_words l = 0 then fail STATUS_GCODE_NO_AXIS_WORDS l
          else if gc_check_same_position (gc_position gs) (xyz (bvalues l)) then fail STATUS_GCODE_INVALID_TARGET l
          else pass l
        else pass l
      else pass l)"

text \<open>The last check: every value word of the block has been used.\<close>

definition check_unused :: gc_check where
  "check_unused l =
     (let l = use_words (bit_of WORD_N OR bit_of WORD_F OR bit_of WORD_S OR bit_of WORD_T) l;
          l = (if axis_command l \<noteq> 0 then use_words (bit_of WORD_X OR bit_of WORD_Y OR bit_of WORD_Z) l else l)
      in if value_words l \<noteq> 0 then fail STATUS_GCODE_UNUSED_WORDS l else pass l)"

definition gc_sections :: "parser_state_t \<Rightarrow> gc_check list" where
  "gc_sections gs = [check_line_number, check_feed_rate gs, check_spindle_speed gs, check_dwell, set_plane,
     convert_units, check_tool_length, check_coord_select gs, check_non_modal gs, check_motion gs, check_unused]"

definition gc_check_block :: "parser_state_t \<Rightarrow> gc_check" where
  "gc_check_block gs = foldr check_then (gc_sections gs) pass"

text \<open>Steps 1 to 3 of \<open>gc_execute_line\<close>: the status and the checked locals.  A failing word keeps the
  flash as it was.\<close>

definition gc_read_block :: "u8 list \<Rightarrow> parser_state_t \<Rightarrow> flash \<Rightarrow> (u8 \<times> gc_locals) option" where
  "gc_read_block line gs f =
     (let l = gc_locals_init gs f in
      case gc_parse line 0 l of
        None \<Rightarrow> None
      | Some (Inl e) \<Rightarrow> Some (e, l)
      | Some (Inr l) \<Rightarrow> gc_check_block gs l)"

end
