(* ===== verification/GcodeParse.thy ===== *)
theory GcodeParse
  imports Gcode "HOL-Library.Multiset"
begin

text \<open>
  What step 2 of \<open>gc_execute_line\<close> accepts: the words of a line, the table of supported commands
  with their modal groups, and the conditions under which a sequence of words becomes a block.
\<close>

section \<open>The words of a line\<close>

inductive lexes :: "u8 list \<Rightarrow> u8 \<Rightarrow> (u8 \<times> fl) list \<Rightarrow> bool" where
  lexes_end: "char_at line cc = 0 \<Longrightarrow> lexes line cc []"
| lexes_word: "lexes line cc ((char_at line cc, v) # ws)"
    if "of_char CHR ''A'' \<le> char_at line cc" "char_at line cc \<le> of_char CHR ''Z''"
       "read_float line (cc + 1) = Some (v, cc')" "lexes line cc' ws"

inductive_cases lexes_NilE: "lexes line cc []"
inductive_cases lexes_ConsE: "lexes line cc ((c, v) # ws)"

fun run_words :: "(u8 \<times> fl) list \<Rightarrow> gc_locals \<Rightarrow> u8 + gc_locals" where
  "run_words [] l = Inr l"
| "run_words ((c, v) # ws) l = word_then (gc_word c v l) (run_words ws)"

lemma run_words_append: "run_words (ws @ ws') l = word_then (run_words ws l) (run_words ws')"
proof (induction ws arbitrary: l)
  case (Cons w ws)
  obtain c v where w: "w = (c, v)" by (cases w)
  show ?case by (cases "gc_word c v l") (simp_all add: w Cons.IH)
qed simp

text \<open>An accepted line is the run of its words; and the other way round.\<close>

lemma lexes_wordI:
  "char_at line cc = c \<Longrightarrow> of_char CHR ''A'' \<le> c \<Longrightarrow> c \<le> of_char CHR ''Z'' \<Longrightarrow> read_float line (cc + 1) = Some (v, cc') \<Longrightarrow>
    lexes line cc' ws \<Longrightarrow> lexes line cc ((c, v) # ws)"
  using lexes_word by blast

lemma gc_parse_lexes_aux:
  assumes "gc_parse line cc l = Some r"
  shows "\<forall>l'. r = Inr l' \<longrightarrow> (\<exists>ws. lexes line cc ws \<and> run_words ws l = Inr l')"
proof (rule gc_parse.raw_induct [OF _ assms], intro allI impI)
  fix parse line cc l r l'
  assume IH: "\<And>line cc l y. parse line cc l = Some y \<Longrightarrow>
      \<forall>l'. y = Inr l' \<longrightarrow> (\<exists>ws. lexes line cc ws \<and> run_words ws l = Inr l')"
    and body: "(let letter = char_at line cc
       in if letter = 0 then Some (Inr l)
          else if letter < of_char CHR ''A'' \<or> of_char CHR ''Z'' < letter then Some (Inl STATUS_EXPECTED_COMMAND_LETTER)
          else case read_float line (cc + 1) of
              None \<Rightarrow> Some (Inl STATUS_BAD_NUMBER_FORMAT)
            | Some (value, cc) \<Rightarrow>
                (case gc_word letter value l of Inl e \<Rightarrow> Some (Inl e) | Inr l \<Rightarrow> parse line cc l)) = Some r"
    and r: "r = Inr l'"
  show "\<exists>ws. lexes line cc ws \<and> run_words ws l = Inr l'"
  proof (cases "char_at line cc = 0")
    case True
    with body r show ?thesis by (auto simp: Let_def intro!: exI [of _ "[]"] lexes_end)
  next
    case False
    with body r obtain v cc' l1 where w: "\<not> char_at line cc < of_char CHR ''A''" "\<not> of_char CHR ''Z'' < char_at line cc"
        "read_float line (cc + 1) = Some (v, cc')" "gc_word (char_at line cc) v l = Inr l1" "parse line cc' l1 = Some (Inr l')"
      by (auto simp: Let_def split: if_splits option.splits sum.splits)
    from IH [OF w(5)] obtain ws where "lexes line cc' ws" "run_words ws l1 = Inr l'" by auto
    with w show ?thesis
      by (intro exI [of _ "(char_at line cc, v) # ws"]) (auto intro: lexes_word simp: not_less)
  qed
qed

lemma gc_parse_lexes:
  "gc_parse line cc l = Some (Inr l') \<Longrightarrow> \<exists>ws. lexes line cc ws \<and> run_words ws l = Inr l'"
  using gc_parse_lexes_aux by blast

lemma lexes_gc_parse:
  "lexes line cc ws \<Longrightarrow> run_words ws l = Inr l' \<Longrightarrow> gc_parse line cc l = Some (Inr l')"
proof (induction arbitrary: l rule: lexes.induct)
  case (lexes_end line cc)
  then show ?case by (subst gc_parse.simps) simp
next
  case (lexes_word line cc v cc' ws)
  have "char_at line cc \<noteq> 0" using lexes_word.hyps(1) by auto
  with lexes_word show ?case by (subst gc_parse.simps) (auto simp: word_then_Inr_iff Let_def not_less)
qed

section \<open>The table of commands\<close>

text \<open>The commands the parser supports, with the modal group of each; G49 is the one command that
  takes any mantissa.\<close>

definition g_slot :: "u8 \<Rightarrow> u16 \<Rightarrow> nat option" where
  "g_slot iv mant =
     (if iv \<in> {4, 10, 53} \<and> mant = 0 \<or> iv \<in> {28, 30, 92} \<and> mant \<in> {0, 10} then Some MODAL_GROUP_G0
      else if iv \<in> {0, 1, 2, 3, 80} \<and> mant = 0 \<or> iv = 38 \<and> mant \<in> {20, 30, 40, 50} then Some MODAL_GROUP_G1
      else if iv \<in> {17, 18, 19} \<and> mant = 0 then Some MODAL_GROUP_G2
      else if iv \<in> {90, 91} \<and> mant = 0 then Some MODAL_GROUP_G3
      else if iv = 91 \<and> mant = 10 then Some MODAL_GROUP_G4
      else if iv \<in> {93, 94} \<and> mant = 0 then Some MODAL_GROUP_G5
      else if iv \<in> {20, 21} \<and> mant = 0 then Some MODAL_GROUP_G6
      else if iv = 40 \<and> mant = 0 then Some MODAL_GROUP_G7
      else if iv = 43 \<and> mant = 10 \<or> iv = 49 then Some MODAL_GROUP_G8
      else if iv \<in> {54, 55, 56, 57, 58, 59} \<and> mant = 0 then Some MODAL_GROUP_G12
      else if iv = 61 \<and> mant = 0 then Some MODAL_GROUP_G13
      else None)"

definition m_slot :: "u8 \<Rightarrow> u16 \<Rightarrow> nat option" where
  "m_slot iv mant =
     (if mant \<noteq> 0 then None
      else if iv \<in> {0, 1, 2, 30} then Some MODAL_GROUP_M4
      else if iv \<in> {3, 4, 5} then Some MODAL_GROUP_M7
      else if iv \<in> {8, 9} then Some MODAL_GROUP_M8
      else None)"

definition v_slot :: "u8 \<Rightarrow> nat option" where
  "v_slot c = map_of (zip (bytes ''FIJKLNPRSTXYZ'') [0..<13]) c"

datatype slot = Command nat | Value nat

fun word_slot :: "u8 \<times> fl \<Rightarrow> slot option" where
  "word_slot (c, v) =
     (if c = of_char CHR ''G'' then map_option Command (g_slot (word_int_value v) (word_mantissa v))
      else if c = of_char CHR ''M'' then map_option Command (m_slot (word_int_value v) (word_mantissa v))
      else map_option Value (v_slot c))"

text \<open>The commands that lay claim to the axis words.\<close>

definition g_claim :: "u8 \<Rightarrow> u16 \<Rightarrow> u8 option" where
  "g_claim iv mant =
     (if iv \<in> {10, 28, 30, 92} \<and> mant = 0 then Some AXIS_COMMAND_NON_MODAL
      else if iv \<in> {0, 1, 2, 3, 38} then Some AXIS_COMMAND_MOTION_MODE
      else if iv \<in> {43, 49} then Some AXIS_COMMAND_TOOL_LENGTH_OFFSET
      else None)"

fun word_claim :: "u8 \<times> fl \<Rightarrow> u8 option" where
  "word_claim (c, v) = (if c = of_char CHR ''G'' then g_claim (word_int_value v) (word_mantissa v) else None)"

fun word_sign_ok :: "u8 \<times> fl \<Rightarrow> bool" where
  "word_sign_ok (c, v) \<longleftrightarrow> (c \<in> set (bytes ''FNPST'') \<longrightarrow> \<not> fl_lt v (Fin 0))"

section \<open>What a word does\<close>

definition nm_of :: "u8 \<Rightarrow> u16 \<Rightarrow> u8" where
  "nm_of iv mant =
     (if iv = 4 then NON_MODAL_DWELL else if iv = 10 then NON_MODAL_SET_COORDINATE_DATA
      else if iv = 28 then (if mant = 0 then NON_MODAL_GO_HOME_0 else NON_MODAL_SET_HOME_0)
      else if iv = 30 then (if mant = 0 then NON_MODAL_GO_HOME_1 else NON_MODAL_SET_HOME_1)
      else if iv = 53 then NON_MODAL_ABSOLUTE_OVERRIDE
      else (if mant = 0 then NON_MODAL_SET_COORDINATE_OFFSET else NON_MODAL_RESET_COORDINATE_OFFSET))"

definition motion_of :: "u8 \<Rightarrow> u16 \<Rightarrow> u8" where
  "motion_of iv mant =
     (if iv \<in> {0, 1, 2, 3} then iv
      else if iv = 80 then MOTION_MODE_NONE
      else if mant = 20 then MOTION_MODE_PROBE_TOWARD else if mant = 30 then MOTION_MODE_PROBE_TOWARD_NO_ERROR
      else if mant = 40 then MOTION_MODE_PROBE_AWAY else MOTION_MODE_PROBE_AWAY_NO_ERROR)"

definition mod_put :: "nat \<Rightarrow> u8 \<Rightarrow> u16 \<Rightarrow> gc_modal_t \<Rightarrow> gc_modal_t" where
  "mod_put k iv mant m =
     (if k = MODAL_GROUP_G1 then m\<lparr>motion := motion_of iv mant\<rparr>
      else if k = MODAL_GROUP_G2 then m\<lparr>plane_select := iv - 17\<rparr>
      else if k = MODAL_GROUP_G3 then m\<lparr>distance := iv - 90\<rparr>
      else if k = MODAL_GROUP_G5 then m\<lparr>feed_rate_mode := 94 - iv\<rparr>
      else if k = MODAL_GROUP_G6 then m\<lparr>units := 21 - iv\<rparr>
      else if k = MODAL_GROUP_G8 then m\<lparr>tool_length := (if iv = 49 then 0 else 1)\<rparr>
      else if k = MODAL_GROUP_G12 then m\<lparr>coord_select := iv - 54\<rparr>
      else if k = MODAL_GROUP_M4 then m\<lparr>program_flow := (if iv = 0 then 1 else if iv = 1 then program_flow m else 2)\<rparr>
      else if k = MODAL_GROUP_M7 then m\<lparr>spindle_mode := (if iv = 5 then 0 else iv - 2)\<rparr>
      else if k = MODAL_GROUP_M8 then m\<lparr>coolant_mode := (if iv = 8 then COOLANT_FLOOD_ENABLE else COOLANT_DISABLE)\<rparr>
      else m)"

definition val_put :: "nat \<Rightarrow> fl \<Rightarrow> gc_values_t \<Rightarrow> gc_values_t" where
  "val_put k v b =
     (if k = WORD_F then b\<lparr>f_word := v\<rparr>
      else if k \<in> {WORD_I, WORD_J, WORD_K} then b\<lparr>ijk := (ijk b)[k - WORD_I := v]\<rparr>
      else if k = WORD_L then b\<lparr>l_word := word_int_value v\<rparr>
      else if k = WORD_N then b\<lparr>n_word := fl_to_i32 (fl_trunc v)\<rparr>
      else if k = WORD_P then b\<lparr>p_word := v\<rparr>
      else if k = WORD_R then b\<lparr>r_word := v\<rparr>
      else if k = WORD_S then b\<lparr>s_word := v\<rparr>
      else if k \<in> {WORD_X, WORD_Y, WORD_Z} then b\<lparr>xyz := (xyz b)[k - WORD_X := v]\<rparr>
      else b)"

fun slot_used :: "gc_locals \<Rightarrow> slot \<Rightarrow> bool" where
  "slot_used l (Command k) = bit_istrue (command_words l) (bit_of k)"
| "slot_used l (Value k) = bit_istrue (value_words l) (bit_of k)"

lemmas g_defs = g_word_def g_command_def g_non_modal_def g_subcommand_def g_motion_def claim_axis_command_def
  mark_command_def set_modal_def g_slot_def g_claim_def nm_of_def motion_of_def mod_put_def word_gt_0

definition put_g :: "nat \<Rightarrow> u8 \<Rightarrow> u16 \<Rightarrow> gc_locals \<Rightarrow> gc_locals" where
  "put_g k iv mant l =
     l\<lparr>bmodal := mod_put k iv mant (bmodal l), command_words := command_words l OR bit_of k,
        non_modal_command := (if k = MODAL_GROUP_G0 then nm_of iv mant else non_modal_command l),
        axis_command := (case g_claim iv mant of None \<Rightarrow> axis_command l | Some a \<Rightarrow> a)\<rparr>"

definition g_ok :: "u8 \<Rightarrow> u16 \<Rightarrow> gc_locals \<Rightarrow> gc_locals \<Rightarrow> bool" where
  "g_ok iv mant l l' =
     (case g_slot iv mant of None \<Rightarrow> False
      | Some k \<Rightarrow> \<not> bit_istrue (command_words l) (bit_of k) \<and> (g_claim iv mant \<noteq> None \<longrightarrow> axis_command l = 0)
          \<and> put_g k iv mant l = l')"

lemma g_word_non_modal:
  "iv \<in> {4, 10, 28, 30, 53, 92} \<Longrightarrow> g_word iv mant l = Inr l' \<longleftrightarrow> g_ok iv mant l l'"
  by (cases l; elim insertE emptyE; cases "mant = 0"; cases "mant = 10") (simp_all add: g_ok_def put_g_def g_defs)

lemma g_word_motion:
  "iv \<in> {0, 1, 2, 3, 38, 80} \<Longrightarrow> g_word iv mant l = Inr l' \<longleftrightarrow> g_ok iv mant l l'"
  by (cases l; elim insertE emptyE; cases "mant = 0"; cases "mant = 20"; cases "mant = 30"; cases "mant = 40"; cases "mant = 50")
     (simp_all add: g_ok_def put_g_def g_defs)

lemma g_word_modes:
  "iv \<in> {17, 18, 19, 90, 91, 93, 94, 20, 21, 40} \<Longrightarrow> g_word iv mant l = Inr l' \<longleftrightarrow> g_ok iv mant l l'"
  by (cases l; elim insertE emptyE; cases "mant = 0"; cases "mant = 10") (simp_all add: g_ok_def put_g_def g_defs)

lemma g_word_coord:
  "iv \<in> {43, 49, 54, 55, 56, 57, 58, 59, 61} \<Longrightarrow> g_word iv mant l = Inr l' \<longleftrightarrow> g_ok iv mant l l'"
  by (cases l; elim insertE emptyE; cases "mant = 0"; cases "mant = 10") (simp_all add: g_ok_def put_g_def g_defs)

lemma g_word_unsupported:
  "iv \<notin> {4, 10, 28, 30, 53, 92} \<Longrightarrow> iv \<notin> {0, 1, 2, 3, 38, 80} \<Longrightarrow> iv \<notin> {17, 18, 19, 90, 91, 93, 94, 20, 21, 40} \<Longrightarrow>
    iv \<notin> {43, 49, 54, 55, 56, 57, 58, 59, 61} \<Longrightarrow> g_word iv mant l = Inr l' \<longleftrightarrow> g_ok iv mant l l'"
  by (simp add: g_word_def g_command_def g_ok_def g_slot_def)

lemma g_word_iff: "g_word iv mant l = Inr l' \<longleftrightarrow> g_ok iv mant l l'"
  using g_word_non_modal [of iv mant l l'] g_word_motion [of iv mant l l'] g_word_modes [of iv mant l l']
    g_word_coord [of iv mant l l'] g_word_unsupported [of iv mant l l'] by blast

definition put_m :: "nat \<Rightarrow> u8 \<Rightarrow> u16 \<Rightarrow> gc_locals \<Rightarrow> gc_locals" where
  "put_m k iv mant l = l\<lparr>bmodal := mod_put k iv mant (bmodal l), command_words := command_words l OR bit_of k\<rparr>"

lemma m_word_supported:
  "iv \<in> {0, 1, 2, 30, 3, 4, 5, 8, 9} \<Longrightarrow> m_word iv mant l = Inr l' \<longleftrightarrow>
     (case m_slot iv mant of None \<Rightarrow> False
      | Some k \<Rightarrow> \<not> bit_istrue (command_words l) (bit_of k) \<and> put_m k iv mant l = l')"
  by (cases l; elim insertE emptyE; cases "mant = 0")
     (simp_all add: m_word_def m_command_def m_slot_def put_m_def mark_command_def set_modal_def mod_put_def word_gt_0)

lemma m_word_iff:
  "m_word iv mant l = Inr l' \<longleftrightarrow>
     (case m_slot iv mant of None \<Rightarrow> False
      | Some k \<Rightarrow> \<not> bit_istrue (command_words l) (bit_of k) \<and> put_m k iv mant l = l')"
proof (cases "iv \<in> {0, 1, 2, 30, 3, 4, 5, 8, 9}")
  case False
  then show ?thesis by (simp add: m_word_def m_command_def m_slot_def)
qed (rule m_word_supported)

definition put_v :: "nat \<Rightarrow> fl \<Rightarrow> gc_locals \<Rightarrow> gc_locals" where
  "put_v k v l =
     l\<lparr>bvalues := val_put k v (bvalues l), value_words := value_words l OR bit_of k,
       ijk_words := (if k \<in> {WORD_I, WORD_J, WORD_K} then ijk_words l OR bit_of (k - WORD_I) else ijk_words l),
       axis_words := (if k \<in> {WORD_X, WORD_Y, WORD_Z} then axis_words l OR bit_of (k - WORD_X) else axis_words l)\<rparr>"

lemma v_slot_simps [simp]:
  "v_slot 70 = Some 0" "v_slot 73 = Some 1" "v_slot 74 = Some 2" "v_slot 75 = Some 3" "v_slot 76 = Some 4"
  "v_slot 78 = Some 5" "v_slot 80 = Some 6" "v_slot 82 = Some 7" "v_slot 83 = Some 8" "v_slot 84 = Some 9"
  "v_slot 88 = Some 10" "v_slot 89 = Some 11" "v_slot 90 = Some 12"
  by (simp_all add: v_slot_def bytes_def upt_rec)

lemma v_slot_None:
  "c \<notin> {70, 73, 74, 75, 76, 78, 80, 82, 83, 84, 88, 89, 90} \<Longrightarrow> v_slot c = None"
  by (simp add: v_slot_def bytes_def upt_rec)

lemma value_word_supported:
  "c \<in> {70, 73, 74, 75, 76, 78, 80, 82, 83, 84, 88, 89, 90} \<Longrightarrow> value_word c v (word_int_value v) l = Inr l' \<longleftrightarrow>
     (case v_slot c of None \<Rightarrow> False
      | Some k \<Rightarrow> \<not> bit_istrue (value_words l) (bit_of k) \<and> word_sign_ok (c, v) \<and> put_v k v l = l')"
  by (cases l; elim insertE emptyE; cases "fl_lt v (Fin 0)")
     (simp_all add: value_word_def value_command_def put_v_def mark_value_def set_value_def val_put_def put_ijk_def
       put_xyz_def bytes_def)

lemma value_word_iff:
  "value_word c v (word_int_value v) l = Inr l' \<longleftrightarrow>
     (case v_slot c of None \<Rightarrow> False
      | Some k \<Rightarrow> \<not> bit_istrue (value_words l) (bit_of k) \<and> word_sign_ok (c, v) \<and> put_v k v l = l')"
proof (cases "c \<in> {70, 73, 74, 75, 76, 78, 80, 82, 83, 84, 88, 89, 90}")
  case False
  then show ?thesis by (simp add: value_word_def value_command_def v_slot_None)
qed (rule value_word_supported)

text \<open>What an accepted word does to the locals: a function of the word and its slot.\<close>

fun put_word :: "slot \<Rightarrow> u8 \<times> fl \<Rightarrow> gc_locals \<Rightarrow> gc_locals" where
  "put_word (Command k) (c, v) l =
     (if c = of_char CHR ''G'' then put_g k (word_int_value v) (word_mantissa v) l
      else put_m k (word_int_value v) (word_mantissa v) l)"
| "put_word (Value k) (c, v) l = put_v k v l"

definition word_ok :: "u8 \<times> fl \<Rightarrow> gc_locals \<Rightarrow> bool" where
  "word_ok w l =
     (case word_slot w of None \<Rightarrow> False
      | Some s \<Rightarrow> \<not> slot_used l s \<and> (word_claim w \<noteq> None \<longrightarrow> axis_command l = 0) \<and> word_sign_ok w)"

lemma gc_word_iff:
  "gc_word c v l = Inr l' \<longleftrightarrow> word_ok (c, v) l \<and> put_word (the (word_slot (c, v))) (c, v) l = l'"
proof -
  have "c = 71 \<Longrightarrow> word_sign_ok (c, v)" "c = 77 \<Longrightarrow> word_sign_ok (c, v)" by (simp_all add: bytes_def)
  then show ?thesis
    by (auto simp: gc_word_def Let_def g_word_iff g_ok_def m_word_iff value_word_iff word_ok_def
        simp del: word_sign_ok.simps split: option.splits)
qed

declare word_slot.simps [simp del] word_claim.simps [simp del] word_sign_ok.simps [simp del]
lemmas word_simps = word_slot.simps word_claim.simps word_sign_ok.simps

section \<open>Accepted lines\<close>

fun slot_ok :: "slot \<Rightarrow> bool" where
  "slot_ok (Command k) = (k < 16)"
| "slot_ok (Value k) = (k < 16)"

lemma v_slot_less: "v_slot c = Some k \<Longrightarrow> k < 13"
  by (auto simp: v_slot_def dest!: map_of_SomeD set_zip_rightD)

lemma word_slot_ok: "word_slot w = Some s \<Longrightarrow> slot_ok s"
  by (cases w; cases s)
     (auto simp: word_slot.simps g_slot_def m_slot_def dest!: v_slot_less split: if_splits)

lemma slot_used_put_word:
  assumes "word_slot w = Some s" "slot_ok s'"
  shows "slot_used (put_word s w l) s' \<longleftrightarrow> s' = s \<or> slot_used l s'"
proof -
  have "slot_ok s" using assms(1) by (rule word_slot_ok)
  with assms(2) show ?thesis
    by (cases w; cases s; cases s') (auto simp: put_g_def put_m_def put_v_def mask_simps bit_or_iff bit_bit_of)
qed

lemma word_claim_nonzero: "word_claim w = Some a \<Longrightarrow> a \<noteq> 0"
  by (cases w) (auto simp: word_claim.simps g_claim_def split: if_splits)

lemma axis_command_put_word:
  "word_slot w = Some s \<Longrightarrow> axis_command (put_word s w l) = (case word_claim w of None \<Rightarrow> axis_command l | Some a \<Rightarrow> a)"
  by (cases w; cases s) (auto simp: word_simps put_g_def put_m_def put_v_def split: if_splits)

lemma slot_used_init [simp]: "\<not> slot_used (gc_locals_init gs f) s" "axis_command (gc_locals_init gs f) = 0"
  by (cases s) (simp_all add: gc_locals_init_def)

lemma lexes_unique: "lexes line cc ws \<Longrightarrow> lexes line cc ws' \<Longrightarrow> ws = ws'"
proof (induction arbitrary: ws' rule: lexes.induct)
  case (lexes_end line cc)
  from lexes_end.prems lexes_end.hyps show ?case by (cases rule: lexes.cases) auto
next
  case (lexes_word line cc v cc' ws)
  have "char_at line cc \<noteq> 0" using lexes_word.hyps(1) by auto
  with lexes_word.prems lexes_word.hyps(3) show ?case
    by (cases rule: lexes.cases) (auto dest: lexes_word.IH)
qed

definition claims :: "(u8 \<times> fl) list \<Rightarrow> nat" where
  "claims ws = length (filter (\<lambda>w. word_claim w \<noteq> None) ws)"

definition acceptable :: "(u8 \<times> fl) list \<Rightarrow> bool" where
  "acceptable ws \<longleftrightarrow> distinct (map word_slot ws) \<and> (\<forall>w\<in>set ws. word_slot w \<noteq> None \<and> word_sign_ok w) \<and> claims ws \<le> 1"

lemma run_words_accept:
  "(\<exists>l'. run_words ws l = Inr l') \<longleftrightarrow> acceptable ws \<and> (\<forall>w\<in>set ws. \<not> slot_used l (the (word_slot w)))
     \<and> (axis_command l \<noteq> 0 \<longrightarrow> claims ws = 0)"
proof (induction ws arbitrary: l)
  case (Cons w ws)
  obtain c v where w: "w = (c, v)" by (cases w)
  show ?case
  proof (cases "word_ok w l")
    case False
    then have "\<not> (\<exists>l'. run_words (w # ws) l = Inr l')" by (auto simp: w word_then_Inr_iff gc_word_iff)
    moreover have "\<not> (acceptable (w # ws) \<and> (\<forall>w\<in>set (w # ws). \<not> slot_used l (the (word_slot w)))
        \<and> (axis_command l \<noteq> 0 \<longrightarrow> claims (w # ws) = 0))"
      using False by (auto simp: word_ok_def acceptable_def claims_def split: option.splits)
    ultimately show ?thesis by blast
  next
    case True
    then obtain s where s: "word_slot w = Some s" by (auto simp: word_ok_def split: option.splits)
    let ?l = "put_word s w l"
    have "gc_word c v l = Inr ?l" using True s by (simp add: w gc_word_iff)
    then have 1: "(\<exists>l'. run_words (w # ws) l = Inr l') \<longleftrightarrow> (\<exists>l'. run_words ws ?l = Inr l')" by (simp add: w)
    have 2: "slot_used ?l (the (word_slot w')) \<longleftrightarrow> word_slot w' = word_slot w \<or> slot_used l (the (word_slot w'))"
      if "word_slot w' \<noteq> None" for w'
      using that slot_used_put_word [OF s] word_slot_ok s by auto
    have 3: "axis_command ?l \<noteq> 0 \<longleftrightarrow> word_claim w \<noteq> None \<or> axis_command l \<noteq> 0"
      by (auto simp: axis_command_put_word [OF s] dest: word_claim_nonzero split: option.splits)
    have 4: "(\<forall>w'\<in>set ws. \<not> slot_used ?l (the (word_slot w'))) \<longleftrightarrow>
        word_slot w \<notin> word_slot ` set ws \<and> (\<forall>w'\<in>set ws. \<not> slot_used l (the (word_slot w')))"
      if "\<forall>w'\<in>set ws. word_slot w' \<noteq> None"
      using that 2 by (metis (no_types, lifting) image_iff)
    show ?thesis unfolding 1 Cons.IH 3
      using True 4 by (auto simp: acceptable_def claims_def word_ok_def s split: if_splits)
  qed
qed (simp add: acceptable_def claims_def)

section \<open>The order of the words\<close>

text \<open>Each field of the block is set by the words of one slot only.\<close>

lemma mod_put_fields:
  "motion (mod_put k iv mant m) = (if k = MODAL_GROUP_G1 then motion_of iv mant else motion m)"
  "plane_select (mod_put k iv mant m) = (if k = MODAL_GROUP_G2 then iv - 17 else plane_select m)"
  "distance (mod_put k iv mant m) = (if k = MODAL_GROUP_G3 then iv - 90 else distance m)"
  "feed_rate_mode (mod_put k iv mant m) = (if k = MODAL_GROUP_G5 then 94 - iv else feed_rate_mode m)"
  "units (mod_put k iv mant m) = (if k = MODAL_GROUP_G6 then 21 - iv else units m)"
  "tool_length (mod_put k iv mant m) = (if k = MODAL_GROUP_G8 then (if iv = 49 then 0 else 1) else tool_length m)"
  "coord_select (mod_put k iv mant m) = (if k = MODAL_GROUP_G12 then iv - 54 else coord_select m)"
  "program_flow (mod_put k iv mant m) = (if k = MODAL_GROUP_M4 then (if iv = 0 then 1 else if iv = 1 then program_flow m else 2) else program_flow m)"
  "spindle_mode (mod_put k iv mant m) = (if k = MODAL_GROUP_M7 then (if iv = 5 then 0 else iv - 2) else spindle_mode m)"
  "coolant_mode (mod_put k iv mant m) = (if k = MODAL_GROUP_M8 then (if iv = 8 then COOLANT_FLOOD_ENABLE else COOLANT_DISABLE) else coolant_mode m)"
  by (simp_all add: mod_put_def)

lemma val_put_fields:
  "f_word (val_put k v b) = (if k = WORD_F then v else f_word b)"
  "l_word (val_put k v b) = (if k = WORD_L then word_int_value v else l_word b)"
  "n_word (val_put k v b) = (if k = WORD_N then fl_to_i32 (fl_trunc v) else n_word b)"
  "p_word (val_put k v b) = (if k = WORD_P then v else p_word b)"
  "r_word (val_put k v b) = (if k = WORD_R then v else r_word b)"
  "s_word (val_put k v b) = (if k = WORD_S then v else s_word b)"
  "ijk (val_put k v b) = (if k \<in> {WORD_I, WORD_J, WORD_K} then (ijk b)[k - WORD_I := v] else ijk b)"
  "xyz (val_put k v b) = (if k \<in> {WORD_X, WORD_Y, WORD_Z} then (xyz b)[k - WORD_X := v] else xyz b)"
  "t_word (val_put k v b) = t_word b"
  by (auto simp: val_put_def)

lemma mod_put_commute:
  "k \<noteq> k' \<Longrightarrow> mod_put k i m (mod_put k' i' m' x) = mod_put k' i' m' (mod_put k i m x)"
  by (intro gc_modal_t.equality) (auto simp: mod_put_fields)

lemma val_put_commute:
  assumes "k \<noteq> k'"
  shows "val_put k v (val_put k' v' b) = val_put k' v' (val_put k v b)"
proof (intro gc_values_t.equality)
  show "ijk (val_put k v (val_put k' v' b)) = ijk (val_put k' v' (val_put k v b))"
    using assms list_update_swap [of "k - WORD_I" "k' - WORD_I" "ijk b" v v'] by (auto simp: val_put_fields)
  show "xyz (val_put k v (val_put k' v' b)) = xyz (val_put k' v' (val_put k v b))"
    using assms list_update_swap [of "k - WORD_X" "k' - WORD_X" "xyz b" v v'] by (auto simp: val_put_fields)
qed (use assms in \<open>simp_all add: val_put_fields\<close>)

lemma put_word_commute:
  assumes "word_slot w = Some s" "word_slot w' = Some s'" "s \<noteq> s'" "word_claim w = None \<or> word_claim w' = None"
  shows "put_word s w (put_word s' w' l) = put_word s' w' (put_word s w l)"
proof -
  obtain c v c' v' where w: "w = (c, v)" "w' = (c', v')" by (cases w, cases w') auto
  note cmd = put_g_def put_m_def mod_put_commute or.assoc or.commute or.left_commute
  show ?thesis
  proof (cases s)
    case k: (Command k)
    show ?thesis
    proof (cases s')
      case k': (Command k')
      have "k \<noteq> k'" using assms(3) k k' by simp
      then show ?thesis using assms(4) by (cases l) (auto simp: w k k' cmd word_claim.simps split: option.splits)
    next
      case k': (Value k')
      then show ?thesis by (cases l) (simp add: w k k' cmd put_v_def split: option.splits)
    qed
  next
    case k: (Value k)
    show ?thesis
    proof (cases s')
      case k': (Command k')
      then show ?thesis by (cases l) (simp add: w k k' cmd put_v_def split: option.splits)
    next
      case k': (Value k')
      have "k \<noteq> k'" using assms(3) k k' by simp
      then show ?thesis by (cases l) (auto simp: w k k' put_v_def val_put_commute or.assoc or.commute or.left_commute)
    qed
  qed
qed

definition put_words :: "(u8 \<times> fl) list \<Rightarrow> gc_locals \<Rightarrow> gc_locals" where
  "put_words ws l = fold (\<lambda>w. put_word (the (word_slot w)) w) ws l"

lemma run_words_put: "run_words ws l = Inr l' \<Longrightarrow> l' = put_words ws l"
  by (induction ws arbitrary: l) (auto simp: put_words_def word_then_Inr_iff gc_word_iff)

lemma put_words_perm:
  assumes "acceptable ws" "mset ws = mset ws'"
  shows "put_words ws l = put_words ws' l"
proof -
  have comm: "put_word (the (word_slot w)) w \<circ> put_word (the (word_slot w')) w' =
      put_word (the (word_slot w')) w' \<circ> put_word (the (word_slot w)) w" if ws: "w \<in> set ws" "w' \<in> set ws" for w w'
  proof (cases "w = w'")
    case False
    obtain s s' where s: "word_slot w = Some s" "word_slot w' = Some s'"
      using ws assms(1) unfolding acceptable_def by blast
    have "s \<noteq> s'" using False ws assms(1) s unfolding acceptable_def distinct_map by (metis inj_onD)
    moreover have "word_claim w = None \<or> word_claim w' = None"
    proof (rule ccontr)
      assume "\<not> ?thesis"
      then have "{w, w'} \<subseteq> set (filter (\<lambda>w. word_claim w \<noteq> None) ws)" using ws by auto
      then have "card {w, w'} \<le> length (filter (\<lambda>w. word_claim w \<noteq> None) ws)"
        by (meson card_length card_mono finite_set order_trans)
      then show False using assms(1) False by (simp add: acceptable_def claims_def)
    qed
    ultimately show ?thesis using put_word_commute [OF s] by (auto simp: s)
  qed simp
  show ?thesis unfolding put_words_def by (rule fun_cong [OF fold_multiset_equiv [OF comm assms(2)]])
qed

lemma acceptable_perm: "mset ws = mset ws' \<Longrightarrow> acceptable ws \<longleftrightarrow> acceptable ws'"
proof -
  assume m: "mset ws = mset ws'"
  then have "mset (map word_slot ws) = mset (map word_slot ws')" by simp
  then have "distinct (map word_slot ws) = distinct (map word_slot ws')" by (rule mset_eq_imp_distinct_iff)
  moreover have "claims ws = claims ws'" unfolding claims_def using m
    by (metis mset_filter size_mset)
  ultimately show ?thesis using mset_eq_setD [OF m] by (simp add: acceptable_def)
qed

lemma run_acceptable:
  "acceptable ws \<Longrightarrow> run_words ws (gc_locals_init gs f) = Inr (put_words ws (gc_locals_init gs f))"
  using run_words_accept [of ws "gc_locals_init gs f"] run_words_put [of ws "gc_locals_init gs f"]
  by (auto simp del: split_paired_All)

text \<open>
  C22: Exactly the lines whose words are all in the table of commands, at most one per modal group, no
  value word repeated, no F, N, P, S or T negative and at most one word claiming the axes are accepted;
  and the block holds what those words assign.
\<close>

theorem accepted_lines:
  "gc_parse line 0 (gc_locals_init gs f) = Some (Inr l) \<longleftrightarrow>
     (\<exists>ws. lexes line 0 ws \<and> acceptable ws \<and> l = put_words ws (gc_locals_init gs f))"
proof -
  let ?l = "gc_locals_init gs f"
  have run: "run_words ws ?l = Inr l \<longleftrightarrow> acceptable ws \<and> l = put_words ws ?l" for ws
    using run_words_accept [of ws ?l] run_words_put [of ws ?l]
    by (auto simp del: split_paired_All)
  show ?thesis
    using gc_parse_lexes [of line 0 ?l l] lexes_gc_parse [of line 0 _ ?l l] run by blast
qed

text \<open>
  The loop over a line shorter than 256 bytes ends, whatever the line holds.
\<close>

lemma gc_parse_returns:
  assumes "length line < 256"
  shows "\<exists>r. gc_parse line 0 l = Some r"
proof -
  have "unat cc \<le> length line \<Longrightarrow> \<exists>r. gc_parse line cc l = Some r" for cc
  proof (induction "length line - unat cc" arbitrary: cc l rule: less_induct)
    case less
    show ?case
    proof (cases "char_at line cc = 0")
      case True
      then show ?thesis by (subst gc_parse.simps) simp
    next
      case False
      then have in_line: "unat cc < length line" by (simp add: char_at_def split: if_splits)
      then have up: "unat (cc + 1) = unat cc + 1" using assms by (simp add: unat_word_ariths)
      have "\<exists>r. gc_parse line cc' l' = Some r" if "read_float line (cc + 1) = Some (v, cc')" for v cc' l'
        using read_float_counter [OF assms _ that] in_line up by (intro less.hyps) simp_all
      then show ?thesis
        by (subst gc_parse.simps) (auto simp: Let_def split: option.splits sum.splits)
    qed
  qed
  then show ?thesis by simp
qed

text \<open>
  C23: The order of the words on a line does not matter: a line whose words are a permutation of the
  words of an accepted line is accepted and gives the same block.
\<close>

theorem word_order_irrelevant:
  assumes "gc_parse line 0 (gc_locals_init gs f) = Some (Inr l)" "lexes line 0 ws"
    and "lexes line' 0 ws'" "mset ws' = mset ws"
  shows "gc_parse line' 0 (gc_locals_init gs f) = Some (Inr l)"
proof -
  let ?l = "gc_locals_init gs f"
  obtain ws0 where ws0: "lexes line 0 ws0" "run_words ws0 ?l = Inr l" using gc_parse_lexes [OF assms(1)] by blast
  have "ws0 = ws" using lexes_unique [OF ws0(1) assms(2)] .
  with ws0(2) have acc: "acceptable ws" "l = put_words ws ?l" and run: "run_words ws ?l = Inr l"
    using run_words_accept [of ws ?l] run_words_put by auto
  have "acceptable ws'" using acc(1) acceptable_perm [OF assms(4)] by simp
  then have "\<exists>l'. run_words ws' ?l = Inr l'"
    by (auto simp: run_words_accept slot_used_init simp del: split_paired_All)
  then obtain l' where l': "run_words ws' ?l = Inr l'" by blast
  have "l' = l" using run_words_put [OF l'] acc put_words_perm [OF acc(1) assms(4) [symmetric], of ?l] by simp
  with lexes_gc_parse [OF assms(3) l'] show ?thesis by simp
qed

theorem word_order_irrelevant_witness:
  "\<exists>l. gc_parse (bytes ''G1X2'') 0 (gc_locals_init zero_parser_state zeroed_flash) = Some (Inr l)
     \<and> gc_parse (bytes ''X2G1'') 0 (gc_locals_init zero_parser_state zeroed_flash) = Some (Inr l)"
proof -
  let ?l = "gc_locals_init zero_parser_state zeroed_flash"
  have rf: "read_float (bytes ''G1X2'') (0 + 1) = Some (Fin 1, 2)" "read_float (bytes ''G1X2'') (2 + 1) = Some (Fin 2, 4)"
    "read_float (bytes ''X2G1'') (0 + 1) = Some (Fin 2, 2)" "read_float (bytes ''X2G1'') (2 + 1) = Some (Fin 1, 4)"
    by code_simp+
  note word = lexes_wordI [OF _ _ _ _ lexes_wordI [OF _ _ _ _ lexes_end]]
  have lex: "lexes (bytes ''G1X2'') 0 [(71, Fin 1), (88, Fin 2)]" "lexes (bytes ''X2G1'') 0 [(88, Fin 2), (71, Fin 1)]"
    by (rule word [OF _ _ _ rf(1) _ _ _ rf(2)] word [OF _ _ _ rf(3) _ _ _ rf(4)]; simp add: char_at_def bytes_def)+
  have "acceptable [(71, Fin 1), (88, Fin 2)]" by code_simp
  then obtain l where l: "gc_parse (bytes ''G1X2'') 0 ?l = Some (Inr l)"
    using lexes_gc_parse [OF lex(1) run_acceptable] by blast
  moreover have "gc_parse (bytes ''X2G1'') 0 ?l = Some (Inr l)"
    by (rule word_order_irrelevant [OF l lex]) simp
  ultimately show ?thesis by blast
qed

section \<open>Command numbers out of range\<close>

lemma gc_parse_one_word:
  assumes "char_at line 0 = c" "of_char CHR ''A'' \<le> c" "c \<le> of_char CHR ''Z''"
    and "read_float line (0 + 1) = Some (v, cc')" "char_at line cc' = 0"
  shows "gc_parse line 0 l = Some (gc_word c v l)"
proof -
  have "c \<noteq> 0" "\<not> c < of_char CHR ''A''" "\<not> of_char CHR ''Z'' < c" using assms(2,3) by (auto simp: not_less)
  then show ?thesis using assms
    by (subst gc_parse.simps) (simp add: Let_def gc_parse.simps [of line cc'] split: sum.splits)
qed

text \<open>
  The number of a command is reduced to eight bits and its fraction to sixteen before the
  supported commands are compared: G-1 runs as G0 and G16385 as G1.  The fraction of G49 is ignored.
\<close>

lemma command_number_wraps:
  "gc_parse (bytes ''G-1'') 0 l = gc_parse (bytes ''G0'') 0 l
   \<and> gc_parse (bytes ''G16385'') 0 l = gc_parse (bytes ''G1'') 0 l
   \<and> gc_parse (bytes ''G49.7'') 0 l = gc_parse (bytes ''G49'') 0 l"
proof -
  have rf: "read_float (bytes ''G-1'') (0 + 1) = Some (Fin (- 1), 3)" "read_float (bytes ''G0'') (0 + 1) = Some (Fin 0, 2)"
    "read_float (bytes ''G16385'') (0 + 1) = Some (Fin 16385, 6)" "read_float (bytes ''G1'') (0 + 1) = Some (Fin 1, 2)"
    "read_float (bytes ''G49.7'') (0 + 1) = Some (f32_lit (497 / 10), 5)" "read_float (bytes ''G49'') (0 + 1) = Some (Fin 49, 3)"
    by code_simp+
  have iv: "word_int_value (Fin (- 1)) = word_int_value (Fin 0)" "word_mantissa (Fin (- 1)) = word_mantissa (Fin 0)"
    "word_int_value (Fin 16385) = word_int_value (Fin 1)" "word_mantissa (Fin 16385) = word_mantissa (Fin 1)"
    "word_int_value (f32_lit (497 / 10)) = 49" "word_int_value (Fin 49) = 49"
    by code_simp+
  have g49: "g_word 49 m l = g_word 49 m' l" for m m'
    by (simp add: g_word_def g_command_def claim_axis_command_def)
  have one: "gc_parse (bytes s) 0 l = Some (gc_word 71 v l)"
    if "char_at (bytes s) 0 = 71" "read_float (bytes s) (0 + 1) = Some (v, cc)" "char_at (bytes s) cc = 0" for s v cc
    using that by (intro gc_parse_one_word) simp_all
  have ca: "char_at (bytes ''G-1'') 0 = 71" "char_at (bytes ''G-1'') 3 = 0" "char_at (bytes ''G0'') 0 = 71" "char_at (bytes ''G0'') 2 = 0"
    "char_at (bytes ''G16385'') 0 = 71" "char_at (bytes ''G16385'') 6 = 0" "char_at (bytes ''G1'') 0 = 71" "char_at (bytes ''G1'') 2 = 0"
    "char_at (bytes ''G49.7'') 0 = 71" "char_at (bytes ''G49.7'') 5 = 0" "char_at (bytes ''G49'') 0 = 71" "char_at (bytes ''G49'') 3 = 0"
    by (simp_all add: char_at_def bytes_def)
  note words = one [OF ca(1) rf(1) ca(2)] one [OF ca(3) rf(2) ca(4)] one [OF ca(5) rf(3) ca(6)]
    one [OF ca(7) rf(4) ca(8)] one [OF ca(9) rf(5) ca(10)] one [OF ca(11) rf(6) ca(12)]
  show ?thesis
    unfolding words gc_word_def by (simp_all add: iv g49 [of "word_mantissa (f32_lit (497 / 10))" "word_mantissa (Fin 49)"])
qed

end
