(* ===== verification/GcodeCheck.thy ===== *)
theory GcodeCheck
  imports GcodeParse
begin

text \<open>
  What a block that passes step 3 of \<open>gc_execute_line\<close> satisfies: every value word is used by the
  command it belongs to, feed motions have a feed rate, and where the checks of arcs and of G10 are
  weaker than their comments say.
\<close>

section \<open>Sections\<close>

lemma check_then_OK:
  "check_then f g l = Some (STATUS_OK, l') \<longleftrightarrow> (\<exists>l1. f l = Some (STATUS_OK, l1) \<and> g l1 = Some (STATUS_OK, l'))"
  by (auto simp: check_then_def split: bind_splits if_splits)

lemma pass_OK [simp]: "pass l = Some (STATUS_OK, l') \<longleftrightarrow> l' = l"
  by (auto simp: pass_def)

lemma fail_OK [simp]: "fail e l = Some (STATUS_OK, l') \<longleftrightarrow> e = STATUS_OK \<and> l' = l"
  by (auto simp: fail_def)

lemma status_nonzero [simp]: "STATUS_SETTING_READ_FAIL \<noteq> STATUS_OK" "STATUS_NEGATIVE_VALUE \<noteq> STATUS_OK"
    "STATUS_INVALID_STATEMENT \<noteq> STATUS_OK"
  by (simp_all add: STATUS_OK_def STATUS_SETTING_READ_FAIL_def STATUS_NEGATIVE_VALUE_def STATUS_INVALID_STATEMENT_def)

lemma status_numeral [simp]: "(numeral n = STATUS_OK) = (numeral n = (0::u8))" "(1 :: u8) \<noteq> STATUS_OK"
  by (simp_all add: STATUS_OK_def)

lemma load_coord_OK:
  "load_coord n upd l = Some (STATUS_OK, l') \<longleftrightarrow>
     (\<exists>v f. settings_read_coord_data n (gc_nvm l) = Some (True, v, f) \<and> l' = (upd (\<lambda>_. v) l)\<lparr>gc_nvm := f\<rparr>)"
  by (auto simp: load_coord_def Let_def split: bind_splits if_splits)

lemma set_value_fields [simp]:
  "bmodal (set_value f l) = bmodal l" "value_words (set_value f l) = value_words l"
  "axis_command (set_value f l) = axis_command l" "axis_words (set_value f l) = axis_words l"
  "non_modal_command (set_value f l) = non_modal_command l" "ijk_words (set_value f l) = ijk_words l"
  "bvalues (set_value f l) = f (bvalues l)" "axis_0 (set_value f l) = axis_0 l" "axis_1 (set_value f l) = axis_1 l"
  by (simp_all add: set_value_def)

lemma use_words_fields [simp]:
  "bmodal (use_words ws l) = bmodal l" "value_words (use_words ws l) = bit_false (value_words l) ws"
  "axis_command (use_words ws l) = axis_command l" "axis_words (use_words ws l) = axis_words l"
  "non_modal_command (use_words ws l) = non_modal_command l" "bvalues (use_words ws l) = bvalues l"
  "ijk_words (use_words ws l) = ijk_words l" "axis_0 (use_words ws l) = axis_0 l" "axis_1 (use_words ws l) = axis_1 l"
  by (simp_all add: use_words_def)

text \<open>The part of the block no section of step 3 changes.\<close>

definition same_block :: "gc_locals \<Rightarrow> gc_locals \<Rightarrow> bool" where
  "same_block l l' \<longleftrightarrow> bmodal l' = bmodal l \<and> non_modal_command l' = non_modal_command l
     \<and> axis_words l' = axis_words l \<and> ijk_words l' = ijk_words l"

lemmas section_defs = check_line_number_def check_feed_rate_def check_spindle_speed_def check_dwell_def set_plane_def
  convert_units_def check_tool_length_def check_coord_select_def load_coord_OK check_then_OK Let_def

lemma early_sections:
  assumes "f \<in> {check_line_number, check_feed_rate gs, check_spindle_speed gs, set_plane, convert_units,
      check_tool_length, check_coord_select gs}"
    and "f l = Some (STATUS_OK, l')"
  shows "same_block l l' \<and> value_words l' = value_words l"
  using assms by (elim insertE emptyE) (auto simp: section_defs same_block_def split: if_splits)

lemma same_block_trans: "same_block a b \<Longrightarrow> same_block b c \<Longrightarrow> same_block a c"
  by (simp add: same_block_def)

lemma has_word_use_words [simp]: "w < 16 \<Longrightarrow> has_word w (use_words ws l) \<longleftrightarrow> has_word w l \<and> \<not> bit ws w"
  by (auto simp: has_word_def bit_false_def mask_simps bit_and_iff bit_not_iff)

lemma has_word_eq: "value_words l' = value_words l \<Longrightarrow> has_word w l' = has_word w l"
  by (simp add: has_word_def)

lemma check_dwell_OK:
  "check_dwell l = Some (STATUS_OK, l') \<Longrightarrow> same_block l l' \<and> axis_command l' = axis_command l \<and>
     (\<forall>w < 16. has_word w l' \<longleftrightarrow> has_word w l \<and> \<not> (w = WORD_P \<and> non_modal_command l = NON_MODAL_DWELL))"
  by (auto simp: check_dwell_def same_block_def bit_bit_of split: if_splits)

lemma compute_target_fields [simp]:
  "bmodal (compute_target gs l) = bmodal l" "value_words (compute_target gs l) = value_words l"
  "axis_command (compute_target gs l) = axis_command l" "axis_words (compute_target gs l) = axis_words l"
  "non_modal_command (compute_target gs l) = non_modal_command l" "ijk_words (compute_target gs l) = ijk_words l"
  by (simp_all add: compute_target_def)

lemma bit_of_OR: "bit (bit_of a OR bit_of b :: u16) w \<longleftrightarrow> w < 16 \<and> (w = a \<or> w = b)"
  by (auto simp: bit_or_iff bit_bit_of)

lemma check_g10_OK:
  assumes "check_g10 gs l = Some (STATUS_OK, l')"
  shows "same_block l l' \<and> (\<forall>w < 16. has_word w l' \<longleftrightarrow> has_word w l \<and> w \<noteq> WORD_L \<and> w \<noteq> WORD_P)"
proof -
  let ?l = "\<lambda>n. use_words (bit_of WORD_L OR bit_of WORD_P) (l\<lparr>g10_select := n\<rparr>)"
  obtain n m v f pd where "l' = ((?l n)\<lparr>g10_select := m, parameter_data := v, gc_nvm := f\<rparr>)\<lparr>parameter_data := pd\<rparr>"
    using assms by (auto simp: check_g10_def Let_def load_coord_OK check_then_OK split: if_splits)
  then have eq: "value_words l' = value_words (?l n)" "same_block l l'" by (simp_all add: same_block_def)
  have "has_word w l' \<longleftrightarrow> has_word w (l\<lparr>g10_select := n\<rparr>) \<and> w \<noteq> WORD_L \<and> w \<noteq> WORD_P" if "w < 16" for w
    using that by (simp add: has_word_eq [OF eq(1)] bit_of_OR)
  with eq(2) show ?thesis by (simp add: has_word_def)
qed

lemma check_non_modal_OK:
  assumes "check_non_modal gs l = Some (STATUS_OK, l')"
  shows "same_block l l' \<and> (\<forall>w < 16. has_word w l' \<longleftrightarrow>
     has_word w l \<and> \<not> (w \<in> {WORD_L, WORD_P} \<and> non_modal_command l = NON_MODAL_SET_COORDINATE_DATA))"
proof (cases "non_modal_command l = NON_MODAL_SET_COORDINATE_DATA")
  case True
  then show ?thesis using assms check_g10_OK [of gs l l'] by (auto simp: check_non_modal_def)
next
  case False
  then have "same_block l l' \<and> value_words l' = value_words l"
    using assms
    by (auto simp: check_non_modal_def check_g92_def check_go_home_def same_block_def Let_def load_coord_OK split: if_splits)
  then show ?thesis using False by (auto dest: has_word_eq)
qed

definition arc_block :: "gc_locals \<Rightarrow> bool" where
  "arc_block l \<longleftrightarrow> axis_command l = AXIS_COMMAND_MOTION_MODE
     \<and> (motion (bmodal l) = MOTION_MODE_CW_ARC \<or> motion (bmodal l) = MOTION_MODE_CCW_ARC)"

lemma arc_radius_mode_OK:
  "arc_radius_mode gs x y l = Some (STATUS_OK, l') \<Longrightarrow>
     same_block l l' \<and> axis_command l' = axis_command l \<and> value_words l' = bit_false (value_words l) (bit_of WORD_R)"
  by (auto simp: arc_radius_mode_def same_block_def Let_def split: if_splits prod.splits)

lemma arc_offset_mode_OK:
  "arc_offset_mode x y l = Some (STATUS_OK, l') \<Longrightarrow>
     same_block l l' \<and> axis_command l' = axis_command l
     \<and> value_words l' = bit_false (value_words l) (bit_of WORD_I OR bit_of WORD_J OR bit_of WORD_K)"
  by (auto simp: arc_offset_mode_def same_block_def Let_def split: if_splits)

lemma check_motion_OK:
  assumes "check_motion gs l = Some (STATUS_OK, l')"
  shows "same_block l l' \<and> (\<forall>w < 16. has_word w l \<longrightarrow> has_word w l'
      \<or> arc_block l' \<and> (w = WORD_R \<or> w \<in> {WORD_I, WORD_J, WORD_K} \<and> \<not> has_word WORD_R l))"
proof (cases "arc_block l")
  case False
  then have "same_block l l' \<and> value_words l' = value_words l"
    using assms by (auto simp: check_motion_def arc_block_def same_block_def Let_def split: if_splits)
  then show ?thesis by (auto dest: has_word_eq)
next
  case True
  then have arc: "check_arc gs l = Some (STATUS_OK, l')"
    using assms by (auto simp: check_motion_def arc_block_def Let_def split: if_splits)
  show ?thesis
  proof (cases "has_word WORD_R l")
    case R: True
    with arc obtain x y where "arc_radius_mode gs x y l = Some (STATUS_OK, l')"
      by (auto simp: check_arc_def Let_def split: if_splits)
    from arc_radius_mode_OK [OF this] True show ?thesis
      by (auto simp: arc_block_def same_block_def has_word_def bit_false_def mask_simps bit_and_iff bit_not_iff bit_bit_of)
  next
    case R: False
    with arc obtain x y where "arc_offset_mode x y l = Some (STATUS_OK, l')"
      by (auto simp: check_arc_def Let_def split: if_splits)
    from arc_offset_mode_OK [OF this] True R show ?thesis
      by (auto simp: arc_block_def same_block_def has_word_def bit_false_def mask_simps bit_and_iff bit_not_iff
          bit_or_iff bit_bit_of)
  qed
qed

lemma check_unused_OK:
  assumes "check_unused l = Some (STATUS_OK, l')"
  shows "same_block l l' \<and> axis_command l' = axis_command l \<and>
    (\<forall>w < 16. has_word w l \<longrightarrow> w \<in> {WORD_N, WORD_F, WORD_S, WORD_T} \<or> w \<in> {WORD_X, WORD_Y, WORD_Z} \<and> axis_command l \<noteq> 0)"
proof -
  have "value_words l' = 0" and same: "same_block l l'" "axis_command l' = axis_command l"
    using assms by (auto simp: check_unused_def same_block_def Let_def split: if_splits)
  then have no: "\<not> has_word w l'" for w by (simp add: has_word_def)
  have "l' = use_words (bit_of WORD_N OR bit_of WORD_F OR bit_of WORD_S OR bit_of WORD_T) l \<and> axis_command l = 0
      \<or> l' = use_words (bit_of WORD_X OR bit_of WORD_Y OR bit_of WORD_Z)
             (use_words (bit_of WORD_N OR bit_of WORD_F OR bit_of WORD_S OR bit_of WORD_T) l) \<and> axis_command l \<noteq> 0"
    using assms by (auto simp: check_unused_def Let_def split: if_splits)
  then have "has_word w l \<Longrightarrow> w \<in> {WORD_N, WORD_F, WORD_S, WORD_T} \<or> w \<in> {WORD_X, WORD_Y, WORD_Z} \<and> axis_command l \<noteq> 0"
    if "w < 16" for w
    using no [of w] that by (auto simp: bit_or_iff bit_bit_of)
  with same show ?thesis by blast
qed

section \<open>Every word of an accepted block is used\<close>

text \<open>The sections split at the three that consume words.\<close>

lemma gc_check_block_OK:
  assumes "gc_check_block gs l = Some (STATUS_OK, l')"
  obtains l1 l2 l3 l4 l5 where "same_block l l1" "value_words l1 = value_words l" "check_dwell l1 = Some (STATUS_OK, l2)"
    "same_block l2 l3" "value_words l3 = value_words l2" "check_non_modal gs l3 = Some (STATUS_OK, l4)"
    "check_motion gs l4 = Some (STATUS_OK, l5)" "check_unused l5 = Some (STATUS_OK, l')"
proof -
  from assms obtain a b l1 l2 c d e l3 l4 l5 where steps:
    "check_line_number l = Some (STATUS_OK, a)" "check_feed_rate gs a = Some (STATUS_OK, b)"
    "check_spindle_speed gs b = Some (STATUS_OK, l1)" "check_dwell l1 = Some (STATUS_OK, l2)"
    "set_plane l2 = Some (STATUS_OK, c)" "convert_units c = Some (STATUS_OK, d)"
    "check_tool_length d = Some (STATUS_OK, e)" "check_coord_select gs e = Some (STATUS_OK, l3)"
    "check_non_modal gs l3 = Some (STATUS_OK, l4)" "check_motion gs l4 = Some (STATUS_OK, l5)"
    "check_unused l5 = Some (STATUS_OK, l')"
    by (auto simp: gc_check_block_def gc_sections_def check_then_OK)
  have "same_block l l1" "value_words l1 = value_words l"
    using early_sections [of check_line_number gs l a] early_sections [of "check_feed_rate gs" gs a b]
      early_sections [of "check_spindle_speed gs" gs b l1] steps by (auto intro: same_block_trans)
  moreover have "same_block l2 l3" "value_words l3 = value_words l2"
    using early_sections [of set_plane gs l2 c] early_sections [of convert_units gs c d]
      early_sections [of check_tool_length gs d e] early_sections [of "check_coord_select gs" gs e l3] steps
    by (auto intro: same_block_trans)
  ultimately show thesis using that steps by blast
qed

text \<open>
  C24: A block that passes the checks uses every value word it holds: R, I, J and K only in an arc and R
  only without offsets, L only in G10, P only in G4 and G10, and X, Y, Z only with an axis command.
\<close>

theorem accepted_words_used:
  assumes "gc_check_block gs l = Some (STATUS_OK, l')"
  shows "(has_word WORD_R l \<longrightarrow> arc_block l')
    \<and> (has_word WORD_I l \<or> has_word WORD_J l \<or> has_word WORD_K l \<longrightarrow> arc_block l' \<and> \<not> has_word WORD_R l)
    \<and> (has_word WORD_L l \<longrightarrow> non_modal_command l = NON_MODAL_SET_COORDINATE_DATA)
    \<and> (has_word WORD_P l \<longrightarrow> non_modal_command l \<in> {NON_MODAL_DWELL, NON_MODAL_SET_COORDINATE_DATA})
    \<and> (has_word WORD_X l \<or> has_word WORD_Y l \<or> has_word WORD_Z l \<longrightarrow> axis_command l' \<noteq> AXIS_COMMAND_NONE)"
proof -
  from assms obtain l1 l2 l3 l4 l5 where s: "same_block l l1" "value_words l1 = value_words l"
      "check_dwell l1 = Some (STATUS_OK, l2)" "same_block l2 l3" "value_words l3 = value_words l2"
      "check_non_modal gs l3 = Some (STATUS_OK, l4)"
      "check_motion gs l4 = Some (STATUS_OK, l5)" "check_unused l5 = Some (STATUS_OK, l')"
    by (rule gc_check_block_OK)
  note d = check_dwell_OK [OF s(3)] and n = check_non_modal_OK [OF s(6)]
    and m = check_motion_OK [OF s(7)] and u = check_unused_OK [OF s(8)]
  have nm: "non_modal_command l1 = non_modal_command l" "non_modal_command l3 = non_modal_command l"
    using s(1,4) d by (auto simp: same_block_def)
  have arc: "arc_block l5 = arc_block l'" using u by (auto simp: arc_block_def same_block_def)
  have w4: "has_word w l4 \<longleftrightarrow> has_word w l \<and> \<not> (w = WORD_P \<and> non_modal_command l = NON_MODAL_DWELL)
      \<and> \<not> (w \<in> {WORD_L, WORD_P} \<and> non_modal_command l = NON_MODAL_SET_COORDINATE_DATA)" if "w < 16" for w
    using that d n nm has_word_eq [OF s(2), of w] has_word_eq [OF s(5), of w] by auto
  have used: "has_word w l4 \<Longrightarrow> arc_block l' \<and> (w = WORD_R \<or> w \<in> {WORD_I, WORD_J, WORD_K} \<and> \<not> has_word WORD_R l4)
      \<or> w \<in> {WORD_N, WORD_F, WORD_S, WORD_T} \<or> w \<in> {WORD_X, WORD_Y, WORD_Z} \<and> axis_command l' \<noteq> 0" if "w < 16" for w
    using that m u arc by metis
  have R: "has_word WORD_R l4 = has_word WORD_R l" using w4 [of WORD_R] by simp
  have ijk: "has_word w l \<Longrightarrow> arc_block l' \<and> \<not> has_word WORD_R l" if "w \<in> {WORD_I, WORD_J, WORD_K}" for w
    using that used [of w] w4 [of w] R by auto
  have axes: "has_word w l \<Longrightarrow> axis_command l' \<noteq> 0" if "w \<in> {WORD_X, WORD_Y, WORD_Z}" for w
    using that used [of w] w4 [of w] by (auto simp: arc_block_def)
  show ?thesis
  proof (intro conjI impI)
    show "arc_block l'" if "has_word WORD_R l" using that used [of WORD_R] R by simp
    show "non_modal_command l = NON_MODAL_SET_COORDINATE_DATA" if "has_word WORD_L l"
      using that used [of WORD_L] w4 [of WORD_L] by auto
    show "non_modal_command l \<in> {NON_MODAL_DWELL, NON_MODAL_SET_COORDINATE_DATA}" if "has_word WORD_P l"
      using that used [of WORD_P] w4 [of WORD_P] by auto
  qed (use ijk axes in auto)
qed

lemma gc_nvm_put_word [simp]: "gc_nvm (put_word s w l) = gc_nvm l"
  by (cases w; cases s) (simp_all add: put_g_def put_m_def put_v_def)

text \<open>A clockwise arc in radius mode: G2 X10 R5 F100 from the origin.\<close>

definition arc_example :: gc_locals where
  "arc_example = put_words [(71, Fin 2), (88, Fin 10), (82, Fin 5), (70, Fin 100)]
     (gc_locals_init zero_parser_state \<lparr>mem = (\<lambda>_. 0), flog = []\<rparr>)"

lemma arc_example_passes: "\<exists>l'. gc_check_block zero_parser_state arc_example = Some (STATUS_OK, l')"
proof -
  have "map_option fst (gc_check_block zero_parser_state arc_example) = Some STATUS_OK" by code_simp
  then show ?thesis by (auto simp: map_option_eq_Some)
qed

theorem accepted_words_used_witness:
  "\<exists>l'. gc_check_block zero_parser_state arc_example = Some (STATUS_OK, l') \<and> arc_block l'"
proof -
  obtain l' where l': "gc_check_block zero_parser_state arc_example = Some (STATUS_OK, l')"
    using arc_example_passes by blast
  have "has_word WORD_R arc_example" by code_simp
  with accepted_words_used [OF l'] l' show ?thesis by blast
qed

lemma check_motion_feed:
  assumes "check_motion gs l = Some (STATUS_OK, l')" "axis_command l' = AXIS_COMMAND_MOTION_MODE"
    and "motion (bmodal l') \<noteq> MOTION_MODE_SEEK" "motion (bmodal l') \<noteq> MOTION_MODE_NONE"
  shows "\<not> fl_eq (f_word (bvalues l')) (Fin 0)"
proof -
  have "\<not> fl_eq (f_word (bvalues l')) (Fin 0)"
    if "check_arc gs l = Some (STATUS_OK, l')" "\<not> fl_eq (f_word (bvalues l)) (Fin 0)"
    using that by (auto simp: check_arc_def arc_radius_mode_def arc_offset_mode_def Let_def split: if_splits prod.splits)
  then show ?thesis using assms by (auto simp: check_motion_def Let_def split: if_splits)
qed

lemma sections_motion_command:
  assumes "f \<in> {check_feed_rate gs, check_spindle_speed gs, check_dwell, set_plane, convert_units, check_tool_length,
      check_coord_select gs, check_non_modal gs}"
    and "f l = Some (STATUS_OK, l')" "axis_command l' = AXIS_COMMAND_MOTION_MODE"
  shows "axis_command l = AXIS_COMMAND_MOTION_MODE"
  using assms by (elim insertE emptyE)
    (auto simp: section_defs check_non_modal_def check_g10_def check_g92_def check_go_home_def split: if_splits)

lemma check_motion_axis_command:
  assumes "check_motion gs l = Some (STATUS_OK, l')" "axis_command l' = AXIS_COMMAND_MOTION_MODE"
  shows "axis_command l = AXIS_COMMAND_MOTION_MODE"
  using assms by (auto simp: check_motion_def Let_def split: if_splits)

text \<open>
  C37: A block that passes the checks and commands a feed motion (G1, G2, G3, G38) has a feed rate other
  than zero, and a feed word of its own in inverse time mode.
\<close>

theorem accepted_motion_has_feed:
  assumes "gc_check_block gs l = Some (STATUS_OK, l')" "axis_command l' = AXIS_COMMAND_MOTION_MODE"
    and "motion (bmodal l') \<noteq> MOTION_MODE_SEEK" "motion (bmodal l') \<noteq> MOTION_MODE_NONE"
  shows "\<not> fl_eq (f_word (bvalues l')) (Fin 0) \<and> (feed_rate_mode (bmodal l) = FEED_RATE_MODE_INVERSE_TIME \<longrightarrow> has_word WORD_F l)"
proof -
  from assms(1) obtain a b c d e f g h i l5 where s:
    "check_line_number l = Some (STATUS_OK, a)" "check_feed_rate gs a = Some (STATUS_OK, b)"
    "check_spindle_speed gs b = Some (STATUS_OK, c)" "check_dwell c = Some (STATUS_OK, d)"
    "set_plane d = Some (STATUS_OK, e)" "convert_units e = Some (STATUS_OK, f)"
    "check_tool_length f = Some (STATUS_OK, g)" "check_coord_select gs g = Some (STATUS_OK, h)"
    "check_non_modal gs h = Some (STATUS_OK, i)" "check_motion gs i = Some (STATUS_OK, l5)"
    "check_unused l5 = Some (STATUS_OK, l')"
    by (auto simp: gc_check_block_def gc_sections_def check_then_OK)
  have "bvalues l' = bvalues l5" using s(11) by (auto simp: check_unused_def Let_def split: if_splits)
  moreover have l5: "bmodal l' = bmodal l5" "axis_command l' = axis_command l5"
    using check_unused_OK [OF s(11)] by (auto simp: same_block_def)
  ultimately have "\<not> fl_eq (f_word (bvalues l')) (Fin 0)" using check_motion_feed [OF s(10)] assms by simp
  moreover have "axis_command a = AXIS_COMMAND_MOTION_MODE"
    using check_motion_axis_command [OF s(10)] l5 assms(2) s(2-9)
      sections_motion_command [of "check_feed_rate gs" gs a b] sections_motion_command [of "check_spindle_speed gs" gs b c]
      sections_motion_command [of check_dwell gs c d] sections_motion_command [of set_plane gs d e]
      sections_motion_command [of convert_units gs e f] sections_motion_command [of check_tool_length gs f g]
      sections_motion_command [of "check_coord_select gs" gs g h] sections_motion_command [of "check_non_modal gs" gs h i] by simp
  moreover have "bmodal a = bmodal l" "has_word WORD_F a = has_word WORD_F l"
    using early_sections [of check_line_number gs l a] s(1) has_word_eq [of a l] by (auto simp: same_block_def)
  ultimately show ?thesis using s(2) by (auto simp: check_feed_rate_def split: if_splits)
qed

theorem accepted_motion_has_feed_witness:
  "\<exists>l'. gc_check_block zero_parser_state arc_example = Some (STATUS_OK, l') \<and> \<not> fl_eq (f_word (bvalues l')) (Fin 0)"
proof -
  obtain l' where l': "gc_check_block zero_parser_state arc_example = Some (STATUS_OK, l')"
    using arc_example_passes by blast
  have "map_option (\<lambda>(_, l). (axis_command l, motion (bmodal l))) (gc_check_block zero_parser_state arc_example) = Some (2, 2)"
    by code_simp
  with accepted_motion_has_feed [OF l'] l' show ?thesis by simp
qed

section \<open>Where the checks are weak\<close>

text \<open>
  An arc in radius mode whose target differs from the position only along the linear axis passes the
  check for an equal target, and its centre is computed as 0/0: both offsets are not a number.
\<close>

lemma arc_without_plane_motion_is_nan:
  assumes "\<not> gc_check_same_position (gc_position gs) (xyz (bvalues l))"
    and "units (bmodal l) = UNITS_MODE_MM" "r_word (bvalues l) = Fin 5"
    and "length (ijk (bvalues l)) = N_AXIS" "axis_0 l < N_AXIS" "axis_1 l < N_AXIS" "axis_0 l \<noteq> axis_1 l"
  shows "\<exists>l'. arc_radius_mode gs (Fin 0) (Fin 0) l = Some (STATUS_OK, l')
    \<and> ijk (bvalues l') ! axis_0 l = NaN \<and> ijk (bvalues l') ! axis_1 l = NaN"
proof -
  have h: "to_f32 (f64_sub (f64_sub (f64_mul (f64_mul (f64_lit 4) (Fin 5)) (Fin 5)) (f32_mul (Fin 0) (Fin 0)))
      (f32_mul (Fin 0) (Fin 0))) = Fin 100" by code_simp
  have d: "to_f32 (f64_div (fl_neg (f64_sqrt (Fin 100))) (hypot_f (Fin 0) (Fin 0))) = Inf True" by code_simp
  have nan: "to_f32 (f64_mul (f64_lit (1 / 2)) (f32_sub (Fin 0) (f32_mul (Fin 0) (Inf b)))) = NaN"
    "to_f32 (f64_mul (f64_lit (1 / 2)) (f32_add (Fin 0) (f32_mul (Fin 0) (Inf b)))) = NaN" for b
    by (cases b; code_simp)+
  have "fl_lt (Fin 100) (Fin 0) = False" "fl_lt (Fin 5) (Fin 0) = False" by simp_all
  then show ?thesis using assms
    by (cases "motion (bmodal l) = MOTION_MODE_CCW_ARC") (simp_all add: arc_radius_mode_def Let_def h d nan del: fl_sqrt.simps)
qed

lemma arc_along_axis_example:
  "\<exists>l'. arc_radius_mode zero_parser_state (Fin 0) (Fin 0)
       (arc_example\<lparr>axis_1 := 1, axis_linear := 2, bvalues := (bvalues arc_example)\<lparr>xyz := [Fin 0, Fin 0, Fin 10]\<rparr>\<rparr>)
     = Some (STATUS_OK, l') \<and> ijk (bvalues l') ! 0 = NaN \<and> ijk (bvalues l') ! 1 = NaN"
proof -
  let ?l = "arc_example\<lparr>axis_1 := 1, axis_linear := 2, bvalues := (bvalues arc_example)\<lparr>xyz := [Fin 0, Fin 0, Fin 10]\<rparr>\<rparr>"
  have f: "units (bmodal arc_example) = UNITS_MODE_MM" "r_word (bvalues arc_example) = Fin 5"
    "length (ijk (bvalues arc_example)) = N_AXIS" "axis_0 arc_example = 0" by code_simp+
  have "gc_check_same_position (gc_position zero_parser_state) [Fin 0, Fin 0, Fin 10] = False"
    by (auto simp: gc_check_same_position_def zero_parser_state_def zero_vec_def N_AXIS_def fl_eq_def intro!: exI [of _ 2])
  with f have "\<not> gc_check_same_position (gc_position zero_parser_state) (xyz (bvalues ?l))"
    "units (bmodal ?l) = UNITS_MODE_MM" "r_word (bvalues ?l) = Fin 5" "length (ijk (bvalues ?l)) = N_AXIS"
    "axis_0 ?l < N_AXIS" "axis_1 ?l < N_AXIS" "axis_0 ?l \<noteq> axis_1 ?l" by (simp_all add: N_AXIS_def)
  from arc_without_plane_motion_is_nan [OF this] f(4) show ?thesis by simp
qed

text \<open>
  G10 L2 with L but no P word passes the check for missing words, which asks for either of the two:
  it rewrites the active coordinate system.
\<close>

lemma g10_needs_only_one_word:
  assumes "has_word WORD_L l" "l_word (bvalues l) = 2" "p_word (bvalues l) = Fin 0" "\<not> has_word WORD_R l"
    and "axis_words l \<noteq> 0" "coord_select (bmodal l) \<le> N_COORDINATE_SYSTEM"
    and "settings_read_coord_data (coord_select (bmodal l)) (gc_nvm l) = Some (True, v, f)"
  shows "\<exists>l'. check_g10 gs l = Some (STATUS_OK, l') \<and> g10_select l' = coord_select (bmodal l)"
proof -
  have "bit_istrue (value_words l) (bit_of WORD_P OR bit_of WORD_L)"
    using assms(1) by (auto simp: has_word_def bit_istrue_ex bit_or_iff)
  moreover have "fl_to_u8 (fl_trunc (Fin 0)) = 0" by code_simp
  moreover have "has_word WORD_R (l\<lparr>g10_select := n\<rparr>) = has_word WORD_R l" for n by (simp add: has_word_def)
  ultimately show ?thesis using assms
    by (auto simp: check_g10_def bit_isfalse_iff Let_def check_then_OK load_coord_OK use_words_def N_COORDINATE_SYSTEM_def)
qed

text \<open>G10 L2 X3 over a flash whose bytes are all zero.\<close>

definition g10_example :: gc_locals where
  "g10_example = put_words [(71, Fin 10), (76, Fin 2), (88, Fin 3)]
     (gc_locals_init zero_parser_state \<lparr>mem = (\<lambda>_. 0), flog = []\<rparr>)"

lemma g10_needs_only_one_word_example:
  "\<exists>l'. check_g10 zero_parser_state g10_example = Some (STATUS_OK, l') \<and> g10_select l' = 0 \<and> \<not> has_word WORD_P g10_example"
proof -
  have ex: "has_word WORD_L g10_example" "l_word (bvalues g10_example) = 2" "p_word (bvalues g10_example) = Fin 0"
    "\<not> has_word WORD_R g10_example" "axis_words g10_example \<noteq> 0" "coord_select (bmodal g10_example) = 0"
    "\<not> has_word WORD_P g10_example" by code_simp+
  have nvm: "gc_nvm g10_example = \<lparr>mem = (\<lambda>_. 0), flog = []\<rparr>"
    by (simp add: g10_example_def put_words_def gc_locals_init_def gc_nvm_put_word)
  have "mem_bytes (\<lambda>_. 0) a SIZEOF_VECTOR = replicate 12 0" for a
    by (intro nth_equalityI) (simp_all add: mem_bytes_def SIZEOF_VECTOR_def)
  moreover have "checksum (replicate 12 0) = 0" by code_simp
  ultimately have "settings_read_coord_data n (gc_nvm g10_example) = Some (True, vec_at (replicate 12 0) 0, gc_nvm g10_example)" for n
    by (simp add: settings_read_coord_data_def memcpy_from_eq nvm)
  then show ?thesis
    using g10_needs_only_one_word [of g10_example, OF ex(1-5)] ex(6,7) by simp
qed

end
