(* ===== verification/Serial.thy ===== *)
theory Serial
  imports Print
begin

text \<open>
  \<open>serial.c\<close>: the receive and transmit ring buffers, the transmit interrupt and the byte
  storing part of the receive DMA interrupt (the build defines \<open>USE_RX_DMA\<close>).  The realtime
  command characters the DMA interrupt picks off the stream act on the whole machine; here they are
  classified.  \<open>usart_dr\<close> logs the bytes given to the data register, oldest first.
\<close>

definition RX_BUFFER_SIZE :: nat where "RX_BUFFER_SIZE = 1024"
definition TX_BUFFER_SIZE :: nat where "TX_BUFFER_SIZE = 64"
definition SERIAL_NO_DATA :: u8 where "SERIAL_NO_DATA = 0xff"

definition EXEC_STATUS_REPORT :: u8 where "EXEC_STATUS_REPORT = bit_of 0"
definition EXEC_CYCLE_START :: u8 where "EXEC_CYCLE_START = bit_of 1"
definition EXEC_CYCLE_STOP :: u8 where "EXEC_CYCLE_STOP = bit_of 2"
definition EXEC_FEED_HOLD :: u8 where "EXEC_FEED_HOLD = bit_of 3"
definition EXEC_RESET :: u8 where "EXEC_RESET = bit_of 4"
definition EXEC_SAFETY_DOOR :: u8 where "EXEC_SAFETY_DOOR = bit_of 5"
definition EXEC_MOTION_CANCEL :: u8 where "EXEC_MOTION_CANCEL = bit_of 6"

lemmas exec_bits = EXEC_STATUS_REPORT_def EXEC_CYCLE_START_def EXEC_CYCLE_STOP_def EXEC_FEED_HOLD_def
  EXEC_RESET_def EXEC_SAFETY_DOOR_def EXEC_MOTION_CANCEL_def bit_of_def

record serial =
  serial_rx_buffer :: "u8 list"
  serial_rx_buffer_head :: u32
  serial_rx_buffer_tail :: u32
  serial_tx_buffer :: "u8 list"
  serial_tx_buffer_head :: u8
  serial_tx_buffer_tail :: u8
  usart_txeie :: bool
  usart_dr :: "u8 list"

definition serial_zero :: serial where
  "serial_zero = \<lparr>serial_rx_buffer = replicate RX_BUFFER_SIZE 0, serial_rx_buffer_head = 0,
     serial_rx_buffer_tail = 0, serial_tx_buffer = replicate TX_BUFFER_SIZE 0,
     serial_tx_buffer_head = 0, serial_tx_buffer_tail = 0, usart_txeie = False, usart_dr = []\<rparr>"

definition serial_get_rx_buffer_count :: "serial \<Rightarrow> u8" where
  "serial_get_rx_buffer_count s =
     (let rtail = ucast (serial_rx_buffer_tail s) :: u8; head = serial_rx_buffer_head s in
      if ucast rtail \<le> head then ucast (head - ucast rtail)
      else ucast (of_nat RX_BUFFER_SIZE - (ucast rtail - head)))"

definition serial_get_tx_buffer_count :: "serial \<Rightarrow> u8" where
  "serial_get_tx_buffer_count s =
     (let ttail = serial_tx_buffer_tail s; head = serial_tx_buffer_head s in
      if ttail \<le> head then head - ttail else of_nat TX_BUFFER_SIZE - (ttail - head))"

section \<open>Receiving\<close>

definition serial_read :: "serial \<Rightarrow> u8 \<times> serial" where
  "serial_read s =
     (let tail = serial_rx_buffer_tail s in
      if serial_rx_buffer_head s = tail then (SERIAL_NO_DATA, s)
      else let d = serial_rx_buffer s ! unat tail; tail = tail + 1;
               tail = (if tail = of_nat RX_BUFFER_SIZE then 0 else tail)
           in (d, s\<lparr>serial_rx_buffer_tail := tail\<rparr>))"

definition serial_reset_read_buffer :: "serial \<Rightarrow> serial" where
  "serial_reset_read_buffer s = s\<lparr>serial_rx_buffer_tail := serial_rx_buffer_head s\<rparr>"

datatype rt_command = CMD_STATUS_REPORT | CMD_CYCLE_START | CMD_FEED_HOLD | CMD_SAFETY_DOOR | CMD_RESET

definition realtime_command :: "u8 \<Rightarrow> rt_command option" where
  "realtime_command c =
     (if c = 63 then Some CMD_STATUS_REPORT
      else if c = 126 then Some CMD_CYCLE_START
      else if c = 33 then Some CMD_FEED_HOLD
      else if c = 64 then Some CMD_SAFETY_DOOR
      else if c = 0x18 then Some CMD_RESET
      else None)"

text \<open>The default case of \<open>SERIAL_DMA_ISR\<close>: the byte is stored whether or not there is room.\<close>

definition serial_dma_store :: "u8 \<Rightarrow> serial \<Rightarrow> serial" where
  "serial_dma_store c s =
     (let s = s\<lparr>serial_rx_buffer := (serial_rx_buffer s)[unat (serial_rx_buffer_head s) := c],
               serial_rx_buffer_head := serial_rx_buffer_head s + 1\<rparr>
      in if serial_rx_buffer_head s = of_nat RX_BUFFER_SIZE then s\<lparr>serial_rx_buffer_head := 0\<rparr> else s)"

text \<open>The whole interrupt, given what \<open>mc_reset\<close> does to the flags and the rest of the state.\<close>

definition SERIAL_DMA_ISR :: "(u8 \<times> serial \<Rightarrow> u8 \<times> serial) \<Rightarrow> u8 \<Rightarrow> u8 \<times> serial \<Rightarrow> u8 \<times> serial" where
  "SERIAL_DMA_ISR mc_reset c = (\<lambda>(rt, s).
     case realtime_command c of
       Some CMD_STATUS_REPORT \<Rightarrow> (bit_true rt EXEC_STATUS_REPORT, s)
     | Some CMD_CYCLE_START \<Rightarrow> (bit_true rt EXEC_CYCLE_START, s)
     | Some CMD_FEED_HOLD \<Rightarrow> (bit_true rt EXEC_FEED_HOLD, s)
     | Some CMD_SAFETY_DOOR \<Rightarrow> (bit_true rt EXEC_SAFETY_DOOR, s)
     | Some CMD_RESET \<Rightarrow> mc_reset (rt, s)
     | None \<Rightarrow> (rt, serial_dma_store c s))"

section \<open>Transmitting\<close>

text \<open>\<open>serial_write\<close> in the three stages an interrupt can separate: the wait for room, the
  store that advances the head, and the enabling of the transmit interrupt.\<close>

definition tx_next :: "u8 \<Rightarrow> u8" where
  "tx_next i = (if i + 1 = of_nat TX_BUFFER_SIZE then 0 else i + 1)"

definition tx_full :: "serial \<Rightarrow> bool" where
  "tx_full s = (tx_next (serial_tx_buffer_head s) = serial_tx_buffer_tail s)"

definition serial_write_store :: "u8 \<Rightarrow> serial \<Rightarrow> serial" where
  "serial_write_store d s =
     s\<lparr>serial_tx_buffer := (serial_tx_buffer s)[unat (serial_tx_buffer_head s) := d],
       serial_tx_buffer_head := tx_next (serial_tx_buffer_head s)\<rparr>"

definition serial_write_enable :: "serial \<Rightarrow> serial" where
  "serial_write_enable s = s\<lparr>usart_txeie := True\<rparr>"

text \<open>The transmit half of \<open>SERIAL_USART_ISR\<close>, raised when the data register is empty and its
  interrupt enabled.\<close>

definition SERIAL_USART_ISR :: "serial \<Rightarrow> serial" where
  "SERIAL_USART_ISR s =
     (if usart_txeie s then
        let tail = serial_tx_buffer_tail s;
            s = s\<lparr>usart_dr := usart_dr s @ [serial_tx_buffer s ! unat tail], serial_tx_buffer_tail := tx_next tail\<rparr>
        in if serial_tx_buffer_tail s = serial_tx_buffer_head s then s\<lparr>usart_txeie := False\<rparr> else s
      else s)"

text \<open>What can happen during one turn of the wait loop: the transmit interrupt, or a realtime
  flag set by another interrupt.\<close>

datatype tx_event = TX_ISR | RT_FLAG u8

text \<open>\<open>serial_write\<close> with the interrupts that occur while it waits; \<open>None\<close> when it is still
  waiting after the last of them.  The result carries the realtime flags.\<close>

fun serial_write :: "tx_event list \<Rightarrow> u8 \<Rightarrow> u8 \<Rightarrow> serial \<Rightarrow> (u8 \<times> serial) option" where
  "serial_write es rt d s =
     (if \<not> tx_full s then Some (rt, serial_write_enable (serial_write_store d s))
      else if bit_istrue rt EXEC_RESET then Some (rt, s)
      else case es of
          [] \<Rightarrow> None
        | TX_ISR # es \<Rightarrow> serial_write es rt d (SERIAL_USART_ISR s)
        | RT_FLAG f # es \<Rightarrow> serial_write es (bit_true rt f) d s)"

declare serial_write.simps [simp del]

section \<open>The buffers as queues\<close>

definition rx_inv :: "serial \<Rightarrow> bool" where
  "rx_inv s = (length (serial_rx_buffer s) = RX_BUFFER_SIZE \<and>
     unat (serial_rx_buffer_head s) < RX_BUFFER_SIZE \<and> unat (serial_rx_buffer_tail s) < RX_BUFFER_SIZE)"

definition rx_contents :: "serial \<Rightarrow> u8 list" where
  "rx_contents s = ring_list (serial_rx_buffer s) (unat (serial_rx_buffer_head s)) (unat (serial_rx_buffer_tail s))"

definition tx_inv :: "serial \<Rightarrow> bool" where
  "tx_inv s = (length (serial_tx_buffer s) = TX_BUFFER_SIZE \<and>
     unat (serial_tx_buffer_head s) < TX_BUFFER_SIZE \<and> unat (serial_tx_buffer_tail s) < TX_BUFFER_SIZE)"

definition tx_contents :: "serial \<Rightarrow> u8 list" where
  "tx_contents s = ring_list (serial_tx_buffer s) (unat (serial_tx_buffer_head s)) (unat (serial_tx_buffer_tail s))"

lemma rx_index_next:
  fixes i :: u32
  assumes "unat i < RX_BUFFER_SIZE"
  shows "unat (if i + 1 = of_nat RX_BUFFER_SIZE then 0 else i + 1) = ring_next RX_BUFFER_SIZE (unat i)"
    and "i + 1 = of_nat RX_BUFFER_SIZE \<longleftrightarrow> unat i + 1 = RX_BUFFER_SIZE"
proof -
  have u: "unat (i + 1) = unat i + 1"
    using assms by (simp add: unat_word_ariths RX_BUFFER_SIZE_def)
  show "i + 1 = of_nat RX_BUFFER_SIZE \<longleftrightarrow> unat i + 1 = RX_BUFFER_SIZE"
    by (simp add: word_unat_eq_iff u) (simp add: RX_BUFFER_SIZE_def)
  then show "unat (if i + 1 = of_nat RX_BUFFER_SIZE then 0 else i + 1) = ring_next RX_BUFFER_SIZE (unat i)"
    by (simp add: ring_next_def u)
qed

lemma tx_index_next:
  fixes i :: u8
  assumes "unat i < TX_BUFFER_SIZE"
  shows "unat (tx_next i) = ring_next TX_BUFFER_SIZE (unat i)"
proof -
  have u: "unat (i + 1) = unat i + 1"
    using assms by (simp add: unat_word_ariths TX_BUFFER_SIZE_def)
  have "i + 1 = of_nat TX_BUFFER_SIZE \<longleftrightarrow> unat i + 1 = TX_BUFFER_SIZE"
    by (simp add: word_unat_eq_iff u) (simp add: TX_BUFFER_SIZE_def)
  then show ?thesis by (simp add: ring_next_def tx_next_def u)
qed

lemma rx_inv_zero: "rx_inv serial_zero" "rx_contents serial_zero = []"
  by (simp_all add: rx_inv_def rx_contents_def serial_zero_def RX_BUFFER_SIZE_def)

lemma rx_length: "rx_inv s \<Longrightarrow> length (rx_contents s) = ring_count RX_BUFFER_SIZE (unat (serial_rx_buffer_head s)) (unat (serial_rx_buffer_tail s))"
  by (simp add: rx_inv_def rx_contents_def)

lemma serial_dma_store_fields:
  assumes "rx_inv s"
  shows "unat (serial_rx_buffer_head (serial_dma_store c s)) = ring_next RX_BUFFER_SIZE (unat (serial_rx_buffer_head s))"
    and "serial_rx_buffer (serial_dma_store c s) = (serial_rx_buffer s)[unat (serial_rx_buffer_head s) := c]"
    and "serial_rx_buffer_tail (serial_dma_store c s) = serial_rx_buffer_tail s"
  using rx_index_next [of "serial_rx_buffer_head s"] assms
  by (auto simp: serial_dma_store_def rx_inv_def Let_def)

lemma serial_dma_store_inv: "rx_inv s \<Longrightarrow> rx_inv (serial_dma_store c s)"
  using serial_dma_store_fields [of s c] by (simp add: rx_inv_def ring_next_less)

lemma serial_dma_store_contents:
  assumes "rx_inv s" "length (rx_contents s) < RX_BUFFER_SIZE - 1"
  shows "rx_contents (serial_dma_store c s) = rx_contents s @ [c]"
proof -
  note f = serial_dma_store_fields [OF assms(1), of c]
  have "ring_next RX_BUFFER_SIZE (unat (serial_rx_buffer_head s)) \<noteq> unat (serial_rx_buffer_tail s)"
    using ring_count_full_iff [of _ RX_BUFFER_SIZE] assms rx_length [OF assms(1)]
    by (metis less_irrefl rx_inv_def One_nat_def)
  then show ?thesis
    using assms(1) by (simp add: rx_contents_def f rx_inv_def ring_list_put)
qed

lemma serial_dma_store_full:
  assumes "rx_inv s" "length (rx_contents s) = RX_BUFFER_SIZE - 1"
  shows "rx_contents (serial_dma_store c s) = []"
proof -
  note f = serial_dma_store_fields [OF assms(1), of c]
  have "ring_next RX_BUFFER_SIZE (unat (serial_rx_buffer_head s)) = unat (serial_rx_buffer_tail s)"
    using ring_count_full_iff [of _ RX_BUFFER_SIZE] assms rx_length [OF assms(1)]
    by (metis rx_inv_def One_nat_def)
  then show ?thesis by (simp add: rx_contents_def f)
qed

lemma serial_read_step:
  assumes "rx_inv s" "rx_contents s \<noteq> []"
  shows "rx_inv (snd (serial_read s))" "rx_contents s = fst (serial_read s) # rx_contents (snd (serial_read s))"
proof -
  let ?h = "serial_rx_buffer_head s" and ?t = "serial_rx_buffer_tail s"
  have b: "unat ?h < length (serial_rx_buffer s)" "unat ?t < length (serial_rx_buffer s)"
    and n: "length (serial_rx_buffer s) = RX_BUFFER_SIZE" using assms(1) by (simp_all add: rx_inv_def)
  have ne: "?h \<noteq> ?t" using assms(2) by (auto simp: rx_contents_def)
  have r: "serial_read s = (serial_rx_buffer s ! unat ?t,
      s\<lparr>serial_rx_buffer_tail := (if ?t + 1 = of_nat RX_BUFFER_SIZE then 0 else ?t + 1)\<rparr>)"
    using ne by (simp add: serial_read_def Let_def)
  have t: "unat (serial_rx_buffer_tail (snd (serial_read s))) = ring_next RX_BUFFER_SIZE (unat ?t)"
    using rx_index_next [of ?t] b n by (simp add: r)
  show "rx_inv (snd (serial_read s))"
    using t b n by (simp add: rx_inv_def ring_next_less) (simp add: r)
  have "unat ?h \<noteq> unat ?t" using ne by (simp add: word_unat_eq_iff)
  from ring_list_dequeue [OF b(1,2) this] n t
  show "rx_contents s = fst (serial_read s) # rx_contents (snd (serial_read s))"
    by (simp add: rx_contents_def) (simp add: r)
qed

interpretation rxq: bounded_fifo rx_inv rx_contents "RX_BUFFER_SIZE - 1" serial_dma_store serial_read
  by unfold_locales
     (simp_all add: serial_dma_store_inv serial_dma_store_contents serial_read_step(1) flip: serial_read_step(2))

section \<open>Transmit queue\<close>

lemma tx_inv_zero: "tx_inv serial_zero" "tx_contents serial_zero = []"
  by (simp_all add: tx_inv_def tx_contents_def serial_zero_def TX_BUFFER_SIZE_def)

lemma tx_length: "tx_inv s \<Longrightarrow> length (tx_contents s) =
    ring_count TX_BUFFER_SIZE (unat (serial_tx_buffer_head s)) (unat (serial_tx_buffer_tail s))"
  by (simp add: tx_inv_def tx_contents_def)

lemma tx_full_iff: "tx_inv s \<Longrightarrow> tx_full s \<longleftrightarrow> length (tx_contents s) = TX_BUFFER_SIZE - 1"
  by (simp add: tx_length tx_inv_def tx_full_def word_unat_eq_iff tx_index_next ring_count_full_iff)

lemma tx_room: "tx_inv s \<Longrightarrow> length (tx_contents s) < TX_BUFFER_SIZE - 1 \<longleftrightarrow> \<not> tx_full s"
proof -
  assume i: "tx_inv s"
  then have "length (tx_contents s) < TX_BUFFER_SIZE"
    by (simp add: tx_length tx_inv_def ring_count_less)
  then show ?thesis using tx_full_iff [OF i] by linarith
qed

lemma tx_store_step:
  assumes "tx_inv s" "\<not> tx_full s"
  shows "tx_inv (serial_write_store d s)" "tx_contents (serial_write_store d s) = tx_contents s @ [d]"
  using assms
  by (simp_all add: tx_inv_def tx_contents_def serial_write_store_def tx_index_next ring_next_less
      ring_list_put tx_full_def word_unat_eq_iff)

lemma tx_store_frame [simp]:
  "usart_dr (serial_write_store d s) = usart_dr s" "usart_txeie (serial_write_store d s) = usart_txeie s"
  "usart_dr (serial_write_enable s) = usart_dr s" "usart_txeie (serial_write_enable s)"
  "tx_contents (serial_write_enable s) = tx_contents s" "tx_inv (serial_write_enable s) = tx_inv s"
  by (simp_all add: serial_write_store_def serial_write_enable_def tx_contents_def tx_inv_def)

definition tx_send :: "serial \<Rightarrow> u8 \<times> serial" where
  "tx_send s = (last (usart_dr (SERIAL_USART_ISR s)), SERIAL_USART_ISR s)"

lemma tx_isr_step:
  assumes "tx_inv s" "tx_contents s \<noteq> []" "usart_txeie s"
  shows "tx_inv (SERIAL_USART_ISR s)"
    and "tx_contents s = hd (tx_contents s) # tx_contents (SERIAL_USART_ISR s)"
    and "usart_dr (SERIAL_USART_ISR s) = usart_dr s @ [hd (tx_contents s)]"
    and "usart_txeie (SERIAL_USART_ISR s) \<longleftrightarrow> tx_contents (SERIAL_USART_ISR s) \<noteq> []"
proof -
  let ?h = "serial_tx_buffer_head s" and ?t = "serial_tx_buffer_tail s" and ?s = "SERIAL_USART_ISR s"
  have f: "serial_tx_buffer ?s = serial_tx_buffer s" "serial_tx_buffer_head ?s = ?h"
    "serial_tx_buffer_tail ?s = tx_next ?t" "usart_dr ?s = usart_dr s @ [serial_tx_buffer s ! unat ?t]"
    "usart_txeie ?s \<longleftrightarrow> tx_next ?t \<noteq> ?h"
    using assms(3) by (simp_all add: SERIAL_USART_ISR_def Let_def)
  have b: "unat ?h < TX_BUFFER_SIZE" "unat ?t < TX_BUFFER_SIZE" "length (serial_tx_buffer s) = TX_BUFFER_SIZE"
    using assms(1) by (simp_all add: tx_inv_def)
  have ne: "unat ?h \<noteq> unat ?t" using assms(2) by (auto simp: tx_contents_def)
  note g = ring_list_get [OF b(3,1,2) ne]
  show inv: "tx_inv ?s" using b by (simp add: tx_inv_def f tx_index_next ring_next_less)
  show "tx_contents s = hd (tx_contents s) # tx_contents ?s" "usart_dr ?s = usart_dr s @ [hd (tx_contents s)]"
    using b by (simp_all add: tx_contents_def f g tx_index_next)
  have "tx_contents ?s = [] \<longleftrightarrow> unat ?h = unat (tx_next ?t)"
    using ring_count_0_iff [of "unat ?h" TX_BUFFER_SIZE "unat (tx_next ?t)"] inv tx_length [OF inv]
    by (simp add: tx_inv_def f flip: length_0_conv)
  then show "usart_txeie ?s \<longleftrightarrow> tx_contents ?s \<noteq> []" by (auto simp: f word_unat_eq_iff)
qed

definition tx_ok :: "serial \<Rightarrow> bool" where
  "tx_ok s = (tx_inv s \<and> (usart_txeie s \<longleftrightarrow> tx_contents s \<noteq> []))"

lemma tx_ok_isr:
  "tx_ok s \<Longrightarrow> tx_ok (SERIAL_USART_ISR s) \<and>
     usart_dr (SERIAL_USART_ISR s) @ tx_contents (SERIAL_USART_ISR s) = usart_dr s @ tx_contents s"
proof (cases "usart_txeie s")
  case True
  assume ok: "tx_ok s"
  then have "tx_inv s" "tx_contents s \<noteq> []" using True by (auto simp: tx_ok_def)
  note st = tx_isr_step [OF this True]
  show ?thesis using st by (metis append.assoc append_Cons append_Nil tx_ok_def)
qed (simp add: SERIAL_USART_ISR_def)

lemma tx_ok_put:
  assumes "tx_ok s" "\<not> tx_full s"
  shows "tx_ok (serial_write_enable (serial_write_store d s))"
  using assms tx_store_step [of s d] by (simp add: tx_ok_def)

text \<open>\<open>serial_write\<close> seen as a queue: an enabled put, and the interrupt as the get.\<close>

interpretation txq: bounded_fifo tx_ok tx_contents "TX_BUFFER_SIZE - 1"
    "\<lambda>d s. serial_write_enable (serial_write_store d s)" tx_send
proof unfold_locales
  fix s x assume a: "tx_ok s" "length (tx_contents s) < TX_BUFFER_SIZE - 1"
  then have i: "tx_inv s" "\<not> tx_full s" using tx_room [of s] by (simp_all add: tx_ok_def)
  then show "tx_ok (serial_write_enable (serial_write_store x s))" using a(1) tx_ok_put by blast
  show "tx_contents (serial_write_enable (serial_write_store x s)) = tx_contents s @ [x]"
    using tx_store_step [OF i] by simp
next
  fix s assume a: "tx_ok s" "tx_contents s \<noteq> []"
  then have i: "tx_inv s" "usart_txeie s" by (simp_all add: tx_ok_def)
  show "tx_ok (snd (tx_send s))" using tx_ok_isr [OF a(1)] by (simp add: tx_send_def)
  show "tx_contents s = fst (tx_send s) # tx_contents (snd (tx_send s))"
    using tx_isr_step(2,3) [OF i(1) a(2) i(2)] by (simp add: tx_send_def)
qed

section \<open>Properties\<close>

text \<open>The receive side under any interleaving of received bytes and reads by the main program.\<close>

datatype rx_event = Recv u8 | Read

fun rx_run :: "(u8 \<times> serial \<Rightarrow> u8 \<times> serial) \<Rightarrow> rx_event list \<Rightarrow> u8 \<times> serial \<Rightarrow> u8 list \<times> u8 \<times> serial" where
  "rx_run mc_reset [] rs = ([], rs)"
| "rx_run mc_reset (Recv c # es) rs = rx_run mc_reset es (SERIAL_DMA_ISR mc_reset c rs)"
| "rx_run mc_reset (Read # es) (rt, s) =
     (case serial_read s of (d, s') \<Rightarrow>
       let (ds, rs') = rx_run mc_reset es (rt, s') in
       (if serial_rx_buffer_head s = serial_rx_buffer_tail s then ds else d # ds, rs'))"

fun received :: "rx_event list \<Rightarrow> u8 list" where
  "received [] = []"
| "received (Recv c # es) = (if realtime_command c = None then c # received es else received es)"
| "received (Read # es) = received es"

lemma rx_empty_iff: "rx_inv s \<Longrightarrow> serial_rx_buffer_head s = serial_rx_buffer_tail s \<longleftrightarrow> rx_contents s = []"
  using rx_length [of s] ring_count_0_iff [of "unat (serial_rx_buffer_head s)" RX_BUFFER_SIZE "unat (serial_rx_buffer_tail s)"]
  by (simp add: rx_inv_def word_unat_eq_iff flip: length_0_conv)

lemma SERIAL_DMA_ISR_serial:
  assumes "\<And>x. snd (mc_reset x) = snd x"
  shows "snd (SERIAL_DMA_ISR mc_reset c (rt, s)) = (if realtime_command c = None then serial_dma_store c s else s)"
  using assms by (auto simp: SERIAL_DMA_ISR_def split: option.splits rt_command.splits)



text \<open>
  C36: The DMA interrupt stores without looking for room: one byte more than the 1023 the buffer
  holds and every byte waiting in it is lost.
\<close>

theorem rx_overflow_loses_all:
  assumes "rx_inv s" "length (rx_contents s) = RX_BUFFER_SIZE - 1" "realtime_command c = None"
  shows "rx_contents (snd (SERIAL_DMA_ISR mc_reset c (rt, s))) = []"
  using assms by (simp add: SERIAL_DMA_ISR_def serial_dma_store_full)

theorem rx_overflow_loses_all_witness:
  "\<exists>s. length (rx_contents s) = 1023 \<and> rx_contents (snd (SERIAL_DMA_ISR (\<lambda>x. x) 88 (0, s))) = []"
proof -
  let ?s = "fold serial_dma_store (replicate 1023 65) serial_zero"
  have "rx_inv ?s \<and> rx_contents ?s = rx_contents serial_zero @ replicate 1023 65"
    by (rule rxq.put_all) (simp_all add: rx_inv_zero RX_BUFFER_SIZE_def)
  then have "rx_inv ?s" and l: "length (rx_contents ?s) = 1023" by (simp_all add: rx_inv_zero)
  then show ?thesis
    using rx_overflow_loses_all [of ?s 88 "\<lambda>x. x" 0] by (auto simp: RX_BUFFER_SIZE_def realtime_command_def)
qed

lemma u8_of_u32_diff: "(ucast (x - y) :: u8) = ucast x - ucast y" for x y :: u32
proof transfer
  fix x y :: int
  have "take_bit 8 (take_bit 32 x - take_bit 32 y) = take_bit 8 (take_bit 8 (take_bit 32 x) - take_bit 8 (take_bit 32 y))"
    by (rule take_bit_diff [symmetric])
  also have "\<dots> = take_bit 8 (take_bit 8 x - take_bit 8 y)" by simp
  also have "\<dots> = take_bit 8 (x - y)" by (rule take_bit_diff)
  finally show "take_bit LENGTH(8) (take_bit LENGTH(32) (x - y))
      = take_bit LENGTH(8) (take_bit LENGTH(32) x - take_bit LENGTH(32) y)" by simp
qed

text \<open>
  \<open>serial_get_rx_buffer_count\<close> returns the number of waiting bytes modulo 256, because the
  tail and the result are truncated to eight bits.
\<close>

lemma rx_count_mod_256:
  assumes "rx_inv s"
  shows "serial_get_rx_buffer_count s = of_nat (length (rx_contents s))"
proof -
  let ?h = "serial_rx_buffer_head s" and ?t = "serial_rx_buffer_tail s"
  have lit: "(ucast (of_nat RX_BUFFER_SIZE :: u32) :: u8) = 0" by (simp add: RX_BUFFER_SIZE_def)
  have up: "(ucast (ucast b :: u32) :: u8) = b" for b :: u8 by transfer simp
  have cnt: "serial_get_rx_buffer_count s = ucast ?h - ucast ?t"
    by (simp add: serial_get_rx_buffer_count_def Let_def u8_of_u32_diff lit up del: of_nat_numeral)
  have b: "unat ?h < 1024" "unat ?t < 1024" using assms by (simp_all add: rx_inv_def RX_BUFFER_SIZE_def)
  show ?thesis
  proof (cases "unat ?t \<le> unat ?h")
    case True
    then show ?thesis by (simp add: cnt rx_length [OF assms] ring_count_def of_nat_diff)
  next
    case False
    then have "RX_BUFFER_SIZE - (unat ?t - unat ?h) = RX_BUFFER_SIZE + unat ?h - unat ?t"
      using b by (simp add: RX_BUFFER_SIZE_def)
    moreover have "unat ?t \<le> RX_BUFFER_SIZE + unat ?h" using b by (simp add: RX_BUFFER_SIZE_def)
    ultimately have "(of_nat (RX_BUFFER_SIZE - (unat ?t - unat ?h)) :: u8) = of_nat RX_BUFFER_SIZE + ucast ?h - ucast ?t"
      by (simp add: of_nat_diff)
    then show ?thesis using False
      by (simp add: cnt rx_length [OF assms] ring_count_def) (simp add: RX_BUFFER_SIZE_def)
  qed
qed

text \<open>What the call leaves behind when it returns.\<close>

lemma serial_write_result:
  assumes "tx_ok s" "serial_write es rt d s = Some (rt', s')"
  shows "tx_ok s' \<and> (usart_dr s' @ tx_contents s' = usart_dr s @ tx_contents s @ [d] \<or>
    (bit_istrue rt' EXEC_RESET \<and> tx_full s' \<and> usart_dr s' @ tx_contents s' = usart_dr s @ tx_contents s))"
  using assms
proof (induction es rt d s rule: serial_write.induct)
  case (1 es rt d s)
  show ?case
  proof (cases "tx_full s")
    case False
    then have "s' = serial_write_enable (serial_write_store d s)"
      using 1(4) by (simp add: serial_write.simps [of es])
    then show ?thesis using tx_ok_put [OF 1(3) False, of d] tx_store_step [of s d] 1(3) False
      by (simp add: tx_ok_def)
  next
    case full: True
    show ?thesis
    proof (cases "bit_istrue rt EXEC_RESET")
      case True
      then show ?thesis using 1(3,4) full by (simp add: serial_write.simps [of es])
    next
      case False
      then obtain e es' where es: "es = e # es'"
        using 1(4) full by (cases es) (simp_all add: serial_write.simps [of "[]"])
      show ?thesis
      proof (cases e)
        case TX_ISR
        have "serial_write es' rt d (SERIAL_USART_ISR s) = Some (rt', s')"
          using 1(4) full False by (subst (asm) serial_write.simps) (simp add: es TX_ISR)
        then show ?thesis
          using 1(1) [OF _ False es TX_ISR] full tx_ok_isr [OF 1(3)] by (metis append_assoc)
      next
        case (RT_FLAG f)
        have "serial_write es' (bit_true rt f) d s = Some (rt', s')"
          using 1(4) full False by (subst (asm) serial_write.simps) (simp add: es RT_FLAG)
        then show ?thesis using 1(2) [OF _ False es RT_FLAG] full 1(3) by simp
      qed
    qed
  qed
qed

lemma serial_write_returns:
  assumes "tx_ok s" "TX_ISR \<in> set es \<or> bit_istrue rt EXEC_RESET"
  shows "serial_write es rt d s \<noteq> None"
  using assms
proof (induction es arbitrary: rt s)
  case Nil
  then show ?case by (simp add: serial_write.simps [of "[]"])
next
  case (Cons e es)
  show ?case
  proof (cases e)
    case TX_ISR
    show ?thesis
    proof (cases "tx_full s")
      case True
      have "tx_inv s" "tx_contents s \<noteq> []"
        using Cons.prems(1) True tx_full_iff [of s] by (auto simp: tx_ok_def TX_BUFFER_SIZE_def)
      note st = tx_isr_step [OF this]
      have "usart_txeie s" using Cons.prems(1) \<open>tx_contents s \<noteq> []\<close> by (simp add: tx_ok_def)
      then have "length (tx_contents (SERIAL_USART_ISR s)) < TX_BUFFER_SIZE - 1"
        using st(2) \<open>tx_inv s\<close> True tx_full_iff [of s] by (metis length_Cons lessI)
      then have "\<not> tx_full (SERIAL_USART_ISR s)" using tx_room [OF st(1)] \<open>usart_txeie s\<close> by blast
      then have "serial_write es rt d (SERIAL_USART_ISR s) \<noteq> None" by (simp add: serial_write.simps [of es])
      then show ?thesis by (subst serial_write.simps) (simp add: TX_ISR)
    next
      case False
      then show ?thesis by (subst serial_write.simps) simp
    qed
  next
    case (RT_FLAG f)
    then have "serial_write es (bit_true rt f) d s \<noteq> None"
      using Cons by (intro Cons.IH) (auto simp: bit_istrue_or)
    then show ?thesis by (subst serial_write.simps) (simp add: RT_FLAG)
  qed
qed

text \<open>
  C30: \<open>serial_write\<close> either queues its byte behind the bytes still to be sent, while the interrupts
  that occur during its wait send the oldest ones, or gives up on a full buffer because a reset is
  pending; nothing sent or waiting is lost, duplicated or reordered.  One transmit interrupt is enough to
  end its wait: it returns whenever the interrupt occurs or a reset is pending.
\<close>

theorem serial_write_fifo:
  assumes "tx_ok s"
  shows "pred_option (\<lambda>(rt', s'). tx_ok s' \<and> (usart_dr s' @ tx_contents s' = usart_dr s @ tx_contents s @ [d] \<or>
      (bit_istrue rt' EXEC_RESET \<and> tx_full s' \<and> usart_dr s' @ tx_contents s' = usart_dr s @ tx_contents s)))
      (serial_write es rt d s) \<and>
    (TX_ISR \<in> set es \<or> bit_istrue rt EXEC_RESET \<longrightarrow> serial_write es rt d s \<noteq> None)"
proof (intro conjI impI)
  show "pred_option (\<lambda>(rt', s'). tx_ok s' \<and> (usart_dr s' @ tx_contents s' = usart_dr s @ tx_contents s @ [d] \<or>
      (bit_istrue rt' EXEC_RESET \<and> tx_full s' \<and> usart_dr s' @ tx_contents s' = usart_dr s @ tx_contents s)))
      (serial_write es rt d s)"
  proof (cases "serial_write es rt d s")
    case (Some r)
    obtain rt' s' where r: "r = (rt', s')" by fastforce
    from serial_write_result [OF assms Some [unfolded r]] show ?thesis by (simp add: Some r)
  qed simp
qed (rule serial_write_returns [OF assms])

theorem serial_write_fifo_witness:
  "tx_ok serial_zero \<and> (\<exists>rt' s'. serial_write [TX_ISR] 0 65 serial_zero = Some (rt', s') \<and>
     (tx_full s' \<or> usart_dr s' @ tx_contents s' = [65]))"
proof -
  have ok: "tx_ok serial_zero" using tx_inv_zero by (simp add: tx_ok_def serial_zero_def)
  have e: "usart_dr serial_zero = []" "tx_contents serial_zero = []" using tx_inv_zero by (simp_all add: serial_zero_def)
  show ?thesis
    using serial_write_fifo [OF ok, where es = "[TX_ISR]" and rt = 0 and d = 65] ok e
    by (cases "serial_write [TX_ISR] 0 65 serial_zero") auto
qed

text \<open>
  The interleaving of the main program with the transmit interrupt at the granularity of its
  three memory operations.  A configuration holds the bytes written so far and whether the
  program is between the store and the enabling of the interrupt; with \<open>masked\<close> the interrupt
  does not occur there.
\<close>

inductive tx_step :: "bool \<Rightarrow> u8 list \<times> bool \<times> serial \<Rightarrow> u8 list \<times> bool \<times> serial \<Rightarrow> bool" for masked where
  tx_store: "\<not> tx_full s \<Longrightarrow> tx_step masked (w, False, s) (w @ [d], True, serial_write_store d s)"
| tx_enable: "tx_step masked (w, True, s) (w, False, serial_write_enable s)"
| tx_isr: "usart_txeie s \<Longrightarrow> (masked \<Longrightarrow> \<not> mid) \<Longrightarrow> tx_step masked (w, mid, s) (w, mid, SERIAL_USART_ISR s)"

inductive_cases tx_stepE: "tx_step masked c c'"

definition tx_agrees :: "u8 list \<times> bool \<times> serial \<Rightarrow> bool" where
  "tx_agrees = (\<lambda>(w, mid, s). tx_inv s \<and> (usart_txeie s \<longrightarrow> tx_contents s \<noteq> [])
     \<and> (\<not> mid \<longrightarrow> tx_ok s) \<and> (mid \<longrightarrow> tx_contents s \<noteq> []) \<and> usart_dr s @ tx_contents s = w)"

lemma tx_agrees_step: "tx_step True c c' \<Longrightarrow> tx_agrees c \<Longrightarrow> tx_agrees c'"
proof (induction rule: tx_step.induct)
  case (tx_store s w d)
  then show ?case using tx_store_step [of s d] by (simp add: tx_agrees_def tx_ok_def)
next
  case (tx_enable w s)
  then show ?case by (simp add: tx_agrees_def tx_ok_def)
next
  case (tx_isr s mid w)
  then have "\<not> mid" "tx_ok s" "usart_dr s @ tx_contents s = w" by (auto simp: tx_agrees_def)
  then show ?case using tx_ok_isr [of s] by (auto simp: tx_agrees_def tx_ok_def)
qed

text \<open>
  C31: If the transmit interrupt never falls between the store and the enabling, the bytes sent
  followed by the bytes waiting are at every moment exactly the bytes written.
\<close>

theorem tx_masked_exact:
  "(tx_step True)\<^sup>*\<^sup>* ([], False, serial_zero) (w, mid, s) \<Longrightarrow> usart_dr s @ tx_contents s = w"
proof -
  assume r: "(tx_step True)\<^sup>*\<^sup>* ([], False, serial_zero) (w, mid, s)"
  have "tx_agrees ([], False, serial_zero)"
    using tx_inv_zero by (simp add: tx_agrees_def tx_ok_def serial_zero_def)
  with r have "tx_agrees (w, mid, s)"
    by (induction rule: rtranclp_induct) (auto intro: tx_agrees_step)
  then show ?thesis by (simp add: tx_agrees_def)
qed

theorem tx_masked_exact_witness:
  "usart_dr (serial_write_store 65 serial_zero) @ tx_contents (serial_write_store 65 serial_zero) = [65]"
proof (rule tx_masked_exact)
  have "\<not> tx_full serial_zero" by (simp add: tx_full_def serial_zero_def tx_next_def TX_BUFFER_SIZE_def)
  from tx_store [OF this, of True "[]" 65]
  show "(tx_step True)\<^sup>*\<^sup>* ([], False, serial_zero) ([65], True, serial_write_store 65 serial_zero)" by simp
qed


end
