(* ===== verification/System.thy ===== *)
theory System
  imports Settings Serial "HOL-Library.Monad_Syntax"
begin

text \<open>
  The global system variables (\<open>system.h\<close>): the state machine flags, the machine position in
  motor steps and the two flag bytes through which interrupts talk to the main program, with
  the CoreXY conversions of \<open>system.c\<close> between motor steps and machine position.
\<close>

section \<open>State, suspend and alarm flags\<close>

abbreviation (input) STATE_IDLE :: u8 where "STATE_IDLE \<equiv> 0"
abbreviation (input) STATE_ALARM :: u8 where "STATE_ALARM \<equiv> 1"
abbreviation (input) STATE_CHECK_MODE :: u8 where "STATE_CHECK_MODE \<equiv> 2"
abbreviation (input) STATE_HOMING :: u8 where "STATE_HOMING \<equiv> 4"
abbreviation (input) STATE_CYCLE :: u8 where "STATE_CYCLE \<equiv> 8"
abbreviation (input) STATE_HOLD :: u8 where "STATE_HOLD \<equiv> 16"
abbreviation (input) STATE_SAFETY_DOOR :: u8 where "STATE_SAFETY_DOOR \<equiv> 32"
abbreviation (input) STATE_MOTION_CANCEL :: u8 where "STATE_MOTION_CANCEL \<equiv> 64"

abbreviation (input) SUSPEND_DISABLE :: u8 where "SUSPEND_DISABLE \<equiv> 0"
abbreviation (input) SUSPEND_ENABLE_HOLD :: u8 where "SUSPEND_ENABLE_HOLD \<equiv> 1"
abbreviation (input) SUSPEND_ENABLE_READY :: u8 where "SUSPEND_ENABLE_READY \<equiv> 2"
abbreviation (input) SUSPEND_ENERGIZE :: u8 where "SUSPEND_ENERGIZE \<equiv> 4"
abbreviation (input) SUSPEND_MOTION_CANCEL :: u8 where "SUSPEND_MOTION_CANCEL \<equiv> 8"

abbreviation (input) EXEC_CRITICAL_EVENT :: u8 where "EXEC_CRITICAL_EVENT \<equiv> 1"
abbreviation (input) EXEC_ALARM_HARD_LIMIT :: u8 where "EXEC_ALARM_HARD_LIMIT \<equiv> 2"
abbreviation (input) EXEC_ALARM_SOFT_LIMIT :: u8 where "EXEC_ALARM_SOFT_LIMIT \<equiv> 4"
abbreviation (input) EXEC_ALARM_ABORT_CYCLE :: u8 where "EXEC_ALARM_ABORT_CYCLE \<equiv> 8"
abbreviation (input) EXEC_ALARM_PROBE_FAIL :: u8 where "EXEC_ALARM_PROBE_FAIL \<equiv> 16"
abbreviation (input) EXEC_ALARM_HOMING_FAIL :: u8 where "EXEC_ALARM_HOMING_FAIL \<equiv> 32"

section \<open>The system variables\<close>

record system_t =
  abort :: bool
  state :: u8
  suspend :: u8
  soft_limit :: bool
  position :: "i32 vec"
  probe_position :: "i32 vec"
  probe_succeeded :: bool
  homing_axis_lock :: u16

definition zero_system :: system_t where
  "zero_system = \<lparr>abort = False, state = 0, suspend = 0, soft_limit = False, position = [0, 0, 0],
     probe_position = [0, 0, 0], probe_succeeded = False, homing_axis_lock = 0\<rparr>"

record sys_env =
  env :: settings_env
  sys :: system_t
  sys_probe_state :: u8
  sys_rt_exec_state :: u8
  sys_rt_exec_alarm :: u8

abbreviation cfg :: "'a sys_env_scheme \<Rightarrow> settings_t" where
  "cfg s \<equiv> settings (env s)"

definition upd_sys :: "(system_t \<Rightarrow> system_t) \<Rightarrow> 'a sys_env_scheme \<Rightarrow> 'a sys_env_scheme" where
  "upd_sys f s = s\<lparr>sys := f (sys s)\<rparr>"

abbreviation set_state :: "u8 \<Rightarrow> 'a sys_env_scheme \<Rightarrow> 'a sys_env_scheme" where
  "set_state x \<equiv> upd_sys (state_update (\<lambda>_. x))"

abbreviation set_suspend :: "u8 \<Rightarrow> 'a sys_env_scheme \<Rightarrow> 'a sys_env_scheme" where
  "set_suspend x \<equiv> upd_sys (suspend_update (\<lambda>_. x))"

text \<open>\<open>sys.state & m\<close> as a condition, and the atomic updates of the two flag bytes.\<close>

definition in_state :: "u8 \<Rightarrow> 'a sys_env_scheme \<Rightarrow> bool" where
  "in_state m s = bit_istrue (state (sys s)) m"

definition raise_exec :: "u8 \<Rightarrow> 'a sys_env_scheme \<Rightarrow> 'a sys_env_scheme" where
  "raise_exec m s = s\<lparr>sys_rt_exec_state := bit_true (sys_rt_exec_state s) m\<rparr>"

definition clear_exec :: "u8 \<Rightarrow> 'a sys_env_scheme \<Rightarrow> 'a sys_env_scheme" where
  "clear_exec m s = s\<lparr>sys_rt_exec_state := bit_false (sys_rt_exec_state s) m\<rparr>"

definition raise_alarm :: "u8 \<Rightarrow> 'a sys_env_scheme \<Rightarrow> 'a sys_env_scheme" where
  "raise_alarm m s = s\<lparr>sys_rt_exec_alarm := bit_true (sys_rt_exec_alarm s) m\<rparr>"

definition clear_alarm :: "u8 \<Rightarrow> 'a sys_env_scheme \<Rightarrow> 'a sys_env_scheme" where
  "clear_alarm m s = s\<lparr>sys_rt_exec_alarm := bit_false (sys_rt_exec_alarm s) m\<rparr>"

text \<open>The safety door input is not compiled in (\<open>ENABLE_SAFETY_DOOR_INPUT_PIN\<close>).\<close>

definition system_check_safety_door_ajar :: "'a sys_env_scheme \<Rightarrow> bool" where
  "system_check_safety_door_ajar s = False"

section \<open>CoreXY positions\<close>

abbreviation (input) A_MOTOR :: nat where "A_MOTOR \<equiv> 0"
abbreviation (input) B_MOTOR :: nat where "B_MOTOR \<equiv> 1"

text \<open>The sign an axis is driven with, and C's division of a signed integer by two.\<close>

definition dir_sign :: "settings_t \<Rightarrow> nat \<Rightarrow> int" where
  "dir_sign c idx = (if bit_istrue (dir_invert_mask c) (bit_of idx) then - 1 else 1)"

definition i32_half :: "i32 \<Rightarrow> i32" where
  "i32_half w = word_of_int (let n = sint w in if n < 0 then - ((- n) div 2) else n div 2)"

definition system_convert_corexy_to_x_axis_steps :: "settings_t \<Rightarrow> i32 vec \<Rightarrow> i32" where
  "system_convert_corexy_to_x_axis_steps c steps =
     i32_half (word_of_int (dir_sign c X_AXIS) * (steps ! A_MOTOR + steps ! B_MOTOR))"

definition system_convert_corexy_to_y_axis_steps :: "settings_t \<Rightarrow> i32 vec \<Rightarrow> i32" where
  "system_convert_corexy_to_y_axis_steps c steps =
     i32_half (word_of_int (dir_sign c Y_AXIS) * (steps ! A_MOTOR - steps ! B_MOTOR))"

definition f32_of_i32 :: "i32 \<Rightarrow> fl" where
  "f32_of_i32 w = f32_of_int (sint w)"

definition f32_of_u32 :: "u32 \<Rightarrow> fl" where
  "f32_of_u32 w = f32_of_int (uint w)"

definition system_convert_axis_steps_to_mpos :: "settings_t \<Rightarrow> i32 vec \<Rightarrow> nat \<Rightarrow> fl" where
  "system_convert_axis_steps_to_mpos c steps idx =
     (if idx = X_AXIS then
        f32_div (f32_of_i32 (system_convert_corexy_to_x_axis_steps c steps)) (steps_per_mm c ! A_MOTOR)
      else if idx = Y_AXIS then
        f32_div (f32_of_i32 (system_convert_corexy_to_y_axis_steps c steps)) (steps_per_mm c ! B_MOTOR)
      else f32_div (f32_of_i32 (word_of_int (dir_sign c Z_AXIS) * steps ! idx)) (steps_per_mm c ! idx))"

definition system_convert_array_steps_to_mpos :: "settings_t \<Rightarrow> i32 vec \<Rightarrow> fl vec" where
  "system_convert_array_steps_to_mpos c steps = map (system_convert_axis_steps_to_mpos c steps) [0..<N_AXIS]"

text \<open>The motor steps of a position in axis steps, as the planner and the homing cycle form them.\<close>

definition corexy_motor_steps :: "settings_t \<Rightarrow> i32 \<Rightarrow> i32 \<Rightarrow> i32 vec" where
  "corexy_motor_steps c x y =
     [word_of_int (dir_sign c X_AXIS) * x + word_of_int (dir_sign c Y_AXIS) * y,
      word_of_int (dir_sign c X_AXIS) * x - word_of_int (dir_sign c Y_AXIS) * y]"

lemma dir_sign_cases: "dir_sign c i = 1 \<or> dir_sign c i = - 1"
  by (auto simp: dir_sign_def)

lemma dir_sign_square: "(word_of_int (dir_sign c i) :: i32) * word_of_int (dir_sign c i) = 1"
  using dir_sign_cases [of c i] by auto

lemma i32_half_double:
  assumes "- (2 ^ 30) \<le> sint x" "sint x < 2 ^ 30"
  shows "i32_half (2 * x) = (x :: i32)"
proof -
  have "sint (2 * x) = signed_take_bit 31 (2 * sint x)"
    by (simp add: sint_word_ariths)
  also have "\<dots> = 2 * sint x"
    using assms by (intro signed_take_bit_int_eq_self) simp_all
  finally have d: "sint (2 * x) = 2 * sint x" .
  have "- ((- (2 * sint x)) div 2) = sint x" by simp
  then show ?thesis unfolding i32_half_def Let_def d by simp
qed

text \<open>The position conversions invert the motor steps: with both coordinates below \<open>2\<^sup>3\<^sup>0\<close> steps
  nothing is lost.\<close>

lemma corexy_x_of_motor:
  assumes "- (2 ^ 30) \<le> sint x" "sint x < 2 ^ 30"
  shows "system_convert_corexy_to_x_axis_steps c (corexy_motor_steps c x y) = x"
proof -
  have "word_of_int (dir_sign c X_AXIS) * (corexy_motor_steps c x y ! 0 + corexy_motor_steps c x y ! 1)
      = 2 * ((word_of_int (dir_sign c X_AXIS) * word_of_int (dir_sign c X_AXIS)) * x)"
    by (simp add: corexy_motor_steps_def algebra_simps)
  then show ?thesis
    by (simp add: system_convert_corexy_to_x_axis_steps_def dir_sign_square i32_half_double [OF assms])
qed

lemma corexy_y_of_motor:
  assumes "- (2 ^ 30) \<le> sint y" "sint y < 2 ^ 30"
  shows "system_convert_corexy_to_y_axis_steps c (corexy_motor_steps c x y) = y"
proof -
  have "word_of_int (dir_sign c Y_AXIS) * (corexy_motor_steps c x y ! 0 - corexy_motor_steps c x y ! 1)
      = 2 * ((word_of_int (dir_sign c Y_AXIS) * word_of_int (dir_sign c Y_AXIS)) * y)"
    by (simp add: corexy_motor_steps_def algebra_simps)
  then show ?thesis
    by (simp add: system_convert_corexy_to_y_axis_steps_def dir_sign_square i32_half_double [OF assms])
qed

end
