(* ===== verification/Planner.thy ===== *)
theory Planner
  imports System
begin

text \<open>
  The motion planner (\<open>planner.c\<close>): a ring of line blocks, each with its Bresenham step counts
  and the speeds the junctions allow, and the two passes that compute the entry speeds.  The
  state also holds the two variables of \<open>stepper.c\<close> the planner writes through
  \<open>st_update_plan_block_parameters\<close>: the block being prepared and the preparation data.
\<close>

abbreviation (input) BLOCK_BUFFER_SIZE :: u8 where "BLOCK_BUFFER_SIZE \<equiv> 18"

definition SOME_LARGE_VALUE :: fl where "SOME_LARGE_VALUE = f32_lit (10 ^ 38)"
definition MINIMUM_FEED_RATE :: fl where "MINIMUM_FEED_RATE = f64_lit 1"
definition MINIMUM_JUNCTION_SPEED :: fl where "MINIMUM_JUNCTION_SPEED = f64_lit 0"

record plan_block_t =
  direction_bits :: u16
  steps :: "u32 vec"
  step_event_count :: u32
  entry_speed_sqr :: fl
  max_entry_speed_sqr :: fl
  max_junction_speed_sqr :: fl
  nominal_speed_sqr :: fl
  block_acceleration :: fl
  millimeters :: fl

definition zero_block :: plan_block_t where
  "zero_block = \<lparr>direction_bits = 0, steps = [0, 0, 0], step_event_count = 0, entry_speed_sqr = Fin 0,
     max_entry_speed_sqr = Fin 0, max_junction_speed_sqr = Fin 0, nominal_speed_sqr = Fin 0,
     block_acceleration = Fin 0, millimeters = Fin 0\<rparr>"

text \<open>The preparation data of \<open>stepper.c\<close>; \<open>ramp_type\<close> is one of the three ramps.\<close>

record st_prep_t =
  prep_block_index :: u8
  flag_partial_block :: bool
  steps_remaining :: fl
  step_per_mm :: fl
  req_mm_increment :: fl
  dt_remainder :: fl
  ramp_type :: u8
  mm_complete :: fl
  current_speed :: fl
  maximum_speed :: fl
  exit_speed :: fl
  accelerate_until :: fl
  decelerate_after :: fl

definition zero_prep :: st_prep_t where
  "zero_prep = \<lparr>prep_block_index = 0, flag_partial_block = False, steps_remaining = Fin 0, step_per_mm = Fin 0,
     req_mm_increment = Fin 0, dt_remainder = Fin 0, ramp_type = 0, mm_complete = Fin 0, current_speed = Fin 0,
     maximum_speed = Fin 0, exit_speed = Fin 0, accelerate_until = Fin 0, decelerate_after = Fin 0\<rparr>"

record plan_state = sys_env +
  block_buffer :: "plan_block_t list"
  block_buffer_tail :: u8
  block_buffer_head :: u8
  next_buffer_head :: u8
  block_buffer_planned :: u8
  pl_position :: "i32 vec"
  previous_unit_vec :: "fl vec"
  previous_nominal_speed_sqr :: fl
  pl_block :: "u8 option"
  prep :: st_prep_t

section \<open>The ring of blocks\<close>

definition plan_next_block_index :: "u8 \<Rightarrow> u8" where
  "plan_next_block_index i = (let i = i + 1 in if i = BLOCK_BUFFER_SIZE then 0 else i)"

definition plan_prev_block_index :: "u8 \<Rightarrow> u8" where
  "plan_prev_block_index i = (if i = 0 then BLOCK_BUFFER_SIZE else i) - 1"

definition block_at :: "'a plan_state_scheme \<Rightarrow> u8 \<Rightarrow> plan_block_t" where
  "block_at s i = block_buffer s ! unat i"

definition upd_block :: "u8 \<Rightarrow> (plan_block_t \<Rightarrow> plan_block_t) \<Rightarrow> 'a plan_state_scheme \<Rightarrow> 'a plan_state_scheme" where
  "upd_block i f s = s\<lparr>block_buffer := (block_buffer s)[unat i := f (block_at s i)]\<rparr>"

abbreviation set_entry :: "u8 \<Rightarrow> fl \<Rightarrow> 'a plan_state_scheme \<Rightarrow> 'a plan_state_scheme" where
  "set_entry i v \<equiv> upd_block i (entry_speed_sqr_update (\<lambda>_. v))"

definition plan_reset :: "'a plan_state_scheme \<Rightarrow> 'a plan_state_scheme" where
  "plan_reset s = s\<lparr>pl_position := [0, 0, 0], previous_unit_vec := zero_vec, previous_nominal_speed_sqr := Fin 0,
     block_buffer_tail := 0, block_buffer_head := 0, next_buffer_head := 1, block_buffer_planned := 0\<rparr>"

definition plan_discard_current_block :: "'a plan_state_scheme \<Rightarrow> 'a plan_state_scheme" where
  "plan_discard_current_block s =
     (if block_buffer_head s \<noteq> block_buffer_tail s then
        let block_index = plan_next_block_index (block_buffer_tail s);
            s = (if block_buffer_tail s = block_buffer_planned s then s\<lparr>block_buffer_planned := block_index\<rparr> else s)
        in s\<lparr>block_buffer_tail := block_index\<rparr>
      else s)"

definition plan_get_current_block :: "'a plan_state_scheme \<Rightarrow> u8 option" where
  "plan_get_current_block s =
     (if block_buffer_head s = block_buffer_tail s then None else Some (block_buffer_tail s))"

definition f32_sqrt :: "fl \<Rightarrow> fl" where
  "f32_sqrt x = to_f32 (f64_sqrt x)"

definition plan_get_exec_block_exit_speed :: "'a plan_state_scheme \<Rightarrow> fl" where
  "plan_get_exec_block_exit_speed s =
     (let block_index = plan_next_block_index (block_buffer_tail s) in
      if block_index = block_buffer_head s then Fin 0
      else f32_sqrt (entry_speed_sqr (block_at s block_index)))"

definition plan_check_full_buffer :: "'a plan_state_scheme \<Rightarrow> bool" where
  "plan_check_full_buffer s = (block_buffer_tail s = next_buffer_head s)"

definition plan_get_block_buffer_count :: "'a plan_state_scheme \<Rightarrow> u8" where
  "plan_get_block_buffer_count s =
     (if block_buffer_tail s \<le> block_buffer_head s then block_buffer_head s - block_buffer_tail s
      else BLOCK_BUFFER_SIZE - (block_buffer_tail s - block_buffer_head s))"

section \<open>Computing the plan\<close>

text \<open>\<open>st_update_plan_block_parameters\<close> of \<open>stepper.c\<close>: the speed reached becomes the entry speed of
  the rest of the block being executed, whose profile is to be computed anew.\<close>

definition st_update_plan_block_parameters :: "'a plan_state_scheme \<Rightarrow> 'a plan_state_scheme" where
  "st_update_plan_block_parameters s =
     (case pl_block s of
        None \<Rightarrow> s
      | Some b \<Rightarrow>
          (set_entry b (f32_mul (current_speed (prep s)) (current_speed (prep s)))
             (s\<lparr>prep := (prep s)\<lparr>flag_partial_block := True\<rparr>\<rparr>))\<lparr>pl_block := None\<rparr>)"

text \<open>The square of the speed gained over a block at its acceleration: \<open>2*acceleration*millimeters\<close>.\<close>

definition speed_gain :: "plan_block_t \<Rightarrow> fl" where
  "speed_gain b = f32_mul (f32_mul (Fin 2) (block_acceleration b)) (millimeters b)"

partial_function (option) reverse_pass :: "u8 \<Rightarrow> u8 \<Rightarrow> 'a plan_state_scheme \<Rightarrow> 'a plan_state_scheme option" where
  "reverse_pass current block_index s =
     (if block_index = block_buffer_planned s then Some s
      else
        let next = current; current = block_index; block_index = plan_prev_block_index block_index;
            s = (if block_index = block_buffer_tail s then st_update_plan_block_parameters s else s);
            b = block_at s current;
            s = (if \<not> fl_eq (entry_speed_sqr b) (max_entry_speed_sqr b) then
                   let e = f32_add (entry_speed_sqr (block_at s next)) (speed_gain b) in
                   if fl_lt e (max_entry_speed_sqr b) then set_entry current e s
                   else set_entry current (max_entry_speed_sqr b) s
                 else s)
        in reverse_pass current block_index s)"

partial_function (option) forward_pass :: "u8 \<Rightarrow> u8 \<Rightarrow> 'a plan_state_scheme \<Rightarrow> 'a plan_state_scheme option" where
  "forward_pass next block_index s =
     (if block_index = block_buffer_head s then Some s
      else
        let current = next; next = block_index; c = block_at s current; n = block_at s next;
            s = (if fl_lt (entry_speed_sqr c) (entry_speed_sqr n) then
                   let e = f32_add (entry_speed_sqr c) (speed_gain c) in
                   if fl_lt e (entry_speed_sqr n) then (set_entry next e s)\<lparr>block_buffer_planned := block_index\<rparr> else s
                 else s);
            n = block_at s next;
            s = (if fl_eq (entry_speed_sqr n) (max_entry_speed_sqr n) then s\<lparr>block_buffer_planned := block_index\<rparr> else s)
        in forward_pass next (plan_next_block_index block_index) s)"

declare reverse_pass.simps [code] forward_pass.simps [code]

definition planner_recalculate :: "'a plan_state_scheme \<Rightarrow> 'a plan_state_scheme option" where
  "planner_recalculate s =
     (let current = plan_prev_block_index (block_buffer_head s) in
      if current = block_buffer_planned s then Some s
      else
        let b = block_at s current;
            s = set_entry current (fl_min (max_entry_speed_sqr b) (speed_gain b)) s;
            block_index = plan_prev_block_index current
        in do {
          s \<leftarrow> (if block_index = block_buffer_planned s then
                 Some (if block_index = block_buffer_tail s then st_update_plan_block_parameters s else s)
               else reverse_pass current block_index s);
          forward_pass (block_buffer_planned s) (plan_next_block_index (block_buffer_planned s)) s
        })"

section \<open>Adding a line\<close>

definition i32_labs :: "i32 \<Rightarrow> i32" where
  "i32_labs w = (if sint w < 0 then - w else w)"

text \<open>Target and displacement in axis steps, and the direction factors as floats.\<close>

definition line_steps :: "settings_t \<Rightarrow> fl vec \<Rightarrow> i32 vec" where
  "line_steps c target = map (\<lambda>idx. fl_lround (f32_mul (target ! idx) (steps_per_mm c ! idx))) [0..<N_AXIS]"

definition signed_delta :: "settings_t \<Rightarrow> i32 vec \<Rightarrow> nat \<Rightarrow> fl" where
  "signed_delta c d idx =
     (let sx = f32_mul (f32_of_int (dir_sign c X_AXIS)) (f32_of_i32 (d ! X_AXIS)) in
      if idx = A_MOTOR then f32_add sx (f32_mul (f32_of_int (dir_sign c Y_AXIS)) (f32_of_i32 (d ! Y_AXIS)))
      else if idx = B_MOTOR then f32_add sx (f32_mul (f32_of_int (dir_sign c Y_AXIS)) (f32_of_i32 (- (d ! Y_AXIS))))
      else f32_mul (f32_of_int (dir_sign c Z_AXIS)) (f32_of_i32 (d ! idx)))"

definition block_steps :: "settings_t \<Rightarrow> i32 vec \<Rightarrow> u32 vec" where
  "block_steps c d =
     (let sx = f32_mul (f32_of_int (dir_sign c X_AXIS)) (f32_of_i32 (d ! X_AXIS));
          sy = f32_mul (f32_of_int (dir_sign c Y_AXIS)) (f32_of_i32 (d ! Y_AXIS))
      in [i32_labs (fl_to_i32 (f32_add sx sy)), i32_labs (fl_to_i32 (f32_sub sx sy)), i32_labs (d ! Z_AXIS)])"

definition delta_mm :: "settings_t \<Rightarrow> i32 vec \<Rightarrow> nat \<Rightarrow> fl" where
  "delta_mm c d idx =
     f32_div (f32_of_i32 (if idx = A_MOTOR then d ! X_AXIS + d ! Y_AXIS
                          else if idx = B_MOTOR then d ! X_AXIS - d ! Y_AXIS else d ! idx))
       (steps_per_mm c ! idx)"

definition delta_mm_signed :: "settings_t \<Rightarrow> i32 vec \<Rightarrow> nat \<Rightarrow> fl" where
  "delta_mm_signed c d idx = f32_div (signed_delta c d idx) (steps_per_mm c ! idx)"

definition line_direction_bits :: "fl vec \<Rightarrow> u16" where
  "line_direction_bits v =
     fold (\<lambda>idx acc. if fl_lt (v ! idx) (Fin 0) then acc OR get_direction_pin_mask idx else acc) [0..<N_AXIS] 0"

definition line_event_count :: "u32 vec \<Rightarrow> u32" where
  "line_event_count st = fold (\<lambda>n acc. if n < acc then acc else n) st 0"

definition line_millimeters :: "fl vec \<Rightarrow> fl" where
  "line_millimeters v = f32_sqrt (fold (\<lambda>d acc. f32_add acc (f32_mul d d)) v (Fin 0))"

text \<open>The limits of each moving axis on rate and acceleration, and the cosine of the junction.\<close>

record line_limits =
  ll_unit_vec :: "fl vec"
  ll_feed_rate :: fl
  ll_acceleration :: fl
  ll_cos_theta :: fl

definition limit_axis :: "settings_t \<Rightarrow> fl vec \<Rightarrow> fl \<Rightarrow> nat \<Rightarrow> line_limits \<Rightarrow> line_limits" where
  "limit_axis c prev_unit inverse_mm idx l =
     (if \<not> fl_eq (ll_unit_vec l ! idx) (Fin 0) then
        let u = f32_mul (ll_unit_vec l ! idx) inverse_mm;
            inv = to_f32 (fl_abs (f64_div (f64_lit 1) u))
        in l\<lparr>ll_unit_vec := (ll_unit_vec l)[idx := u],
             ll_feed_rate := fl_min (ll_feed_rate l) (f32_mul (max_rate c ! idx) inv),
             ll_acceleration := fl_min (ll_acceleration l) (f32_mul (settings_t.acceleration c ! idx) inv),
             ll_cos_theta := f32_sub (ll_cos_theta l) (f32_mul (prev_unit ! idx) u)\<rparr>
      else l)"

text \<open>The junction speed by the centripetal acceleration approximation.\<close>

definition junction_speed_sqr :: "settings_t \<Rightarrow> fl \<Rightarrow> fl \<Rightarrow> fl" where
  "junction_speed_sqr c cos_theta acc =
     (let min_speed_sqr = f64_mul MINIMUM_JUNCTION_SPEED MINIMUM_JUNCTION_SPEED in
      if fl_gt cos_theta (f64_lit (999999 / 1000000)) then to_f32 min_speed_sqr
      else
        let ct = to_f32 (fl_max cos_theta (f64_lit (- (999999 / 1000000))));
            sin_theta_d2 = f32_sqrt (f64_mul (f64_lit (1 / 2)) (f64_sub (f64_lit 1) ct))
        in to_f32 (fl_max min_speed_sqr
             (f64_div (f32_mul (f32_mul acc (junction_deviation c)) sin_theta_d2) (f64_sub (f64_lit 1) sin_theta_d2))))"

definition adjusted_feed_rate :: "fl \<Rightarrow> bool \<Rightarrow> fl \<Rightarrow> fl" where
  "adjusted_feed_rate feed_rate invert_feed_rate mm =
     (let r = (if fl_lt feed_rate (Fin 0) then SOME_LARGE_VALUE
               else if invert_feed_rate then f32_mul feed_rate mm else feed_rate)
      in if fl_lt r MINIMUM_FEED_RATE then to_f32 MINIMUM_FEED_RATE else r)"

definition plan_buffer_line :: "fl vec \<Rightarrow> fl \<Rightarrow> bool \<Rightarrow> 'a plan_state_scheme \<Rightarrow> 'a plan_state_scheme option" where
  "plan_buffer_line target feed_rate invert_feed_rate s =
     (let c = cfg s; h = block_buffer_head s;
          target_steps = line_steps c target;
          d = map (\<lambda>idx. target_steps ! idx - pl_position s ! idx) [0..<N_AXIS];
          st = block_steps c d;
          vec = map (delta_mm_signed c d) [0..<N_AXIS];
          mm = line_millimeters (map (delta_mm c d) [0..<N_AXIS]);
          s = upd_block h (\<lambda>b. b\<lparr>direction_bits := line_direction_bits vec, steps := st,
                step_event_count := line_event_count st, block_acceleration := SOME_LARGE_VALUE, millimeters := mm\<rparr>) s
      in if line_event_count st = 0 then Some s
      else
        let inverse_mm = to_f32 (f64_div (f64_lit 1) mm);
            l = fold (limit_axis c (previous_unit_vec s) inverse_mm) [0..<N_AXIS]
                  \<lparr>ll_unit_vec = vec, ll_feed_rate = adjusted_feed_rate feed_rate invert_feed_rate mm,
                   ll_acceleration = SOME_LARGE_VALUE, ll_cos_theta = Fin 0\<rparr>;
            s = upd_block h (block_acceleration_update (\<lambda>_. ll_acceleration l)) s;
            s = (if h = block_buffer_tail s then
                   upd_block h (\<lambda>b. b\<lparr>entry_speed_sqr := Fin 0, max_junction_speed_sqr := Fin 0\<rparr>) s
                 else upd_block h (max_junction_speed_sqr_update
                        (\<lambda>_. junction_speed_sqr c (ll_cos_theta l) (ll_acceleration l))) s);
            nominal = f32_mul (ll_feed_rate l) (ll_feed_rate l);
            s = upd_block h (\<lambda>b. b\<lparr>nominal_speed_sqr := nominal,
                  max_entry_speed_sqr := fl_min (max_junction_speed_sqr b)
                    (fl_min nominal (previous_nominal_speed_sqr s))\<rparr>) s;
            s = s\<lparr>previous_unit_vec := ll_unit_vec l, previous_nominal_speed_sqr := nominal,
                  pl_position := target_steps, block_buffer_head := next_buffer_head s\<rparr>;
            s = s\<lparr>next_buffer_head := plan_next_block_index (block_buffer_head s)\<rparr>
        in planner_recalculate s)"

definition plan_sync_position :: "'a plan_state_scheme \<Rightarrow> 'a plan_state_scheme" where
  "plan_sync_position s =
     (let p = position (sys s) in
      s\<lparr>pl_position := [system_convert_corexy_to_x_axis_steps (cfg s) p,
                        system_convert_corexy_to_y_axis_steps (cfg s) p, p ! Z_AXIS]\<rparr>)"

definition plan_cycle_reinitialize :: "'a plan_state_scheme \<Rightarrow> 'a plan_state_scheme option" where
  "plan_cycle_reinitialize s =
     (let s = st_update_plan_block_parameters s in
      planner_recalculate (s\<lparr>block_buffer_planned := block_buffer_tail s\<rparr>))"

end
