(* ===== verification/Stepper.thy ===== *)
theory Stepper
  imports Planner
begin

text \<open>
  The stepper (\<open>stepper.c\<close>): the ring of step segments between the main program, which cuts the
  planned blocks into segments of constant speed (\<open>st_prep_buffer\<close>), and the step interrupt, which
  traces them with the Bresenham algorithm (\<open>MAIN_TIMER_ISR\<close>).  The pins the two drive are the
  output registers of the GPIO ports; of the timers only what the interrupts see is kept.  Pointers
  into the two buffers are their indices.
\<close>

abbreviation (input) SEGMENT_BUFFER_SIZE :: u8 where "SEGMENT_BUFFER_SIZE \<equiv> 6"
abbreviation (input) MAX_AMASS_LEVEL :: nat where "MAX_AMASS_LEVEL \<equiv> 3"
abbreviation (input) RAMP_ACCEL :: u8 where "RAMP_ACCEL \<equiv> 0"
abbreviation (input) RAMP_CRUISE :: u8 where "RAMP_CRUISE \<equiv> 1"
abbreviation (input) RAMP_DECEL :: u8 where "RAMP_DECEL \<equiv> 2"
abbreviation (input) TICKS_PER_MICROSECOND :: u32 where "TICKS_PER_MICROSECOND \<equiv> 16"
abbreviation (input) AMASS_LEVEL1 :: u32 where "AMASS_LEVEL1 \<equiv> 2000"
abbreviation (input) AMASS_LEVEL2 :: u32 where "AMASS_LEVEL2 \<equiv> 4000"
abbreviation (input) AMASS_LEVEL3 :: u32 where "AMASS_LEVEL3 \<equiv> 8000"

definition DT_SEGMENT :: fl where "DT_SEGMENT = f64_div (f64_lit 1) (f64_mul (f64_lit 100) (f64_lit 60))"
definition REQ_MM_INCREMENT_SCALAR :: fl where "REQ_MM_INCREMENT_SCALAR = f64_lit (125 / 100)"

record st_block_t =
  st_direction_bits :: u16
  st_steps :: "u32 vec"
  st_step_event_count :: u32

definition zero_st_block :: st_block_t where
  "zero_st_block = \<lparr>st_direction_bits = 0, st_steps = [0, 0, 0], st_step_event_count = 0\<rparr>"

record segment_t =
  n_step :: u16
  seg_block_index :: u8
  cycles_per_tick :: u16
  amass_level :: u8

text \<open>The counters \<open>counter_x\<close>, \<open>counter_y\<close>, \<open>counter_z\<close> are one vector; \<open>tick_steps\<close> is its \<open>steps\<close>.\<close>

record stepper_t =
  counters :: "u32 vec"
  step_pulse_time :: u8
  step_outbits :: u16
  dir_outbits :: u16
  tick_steps :: "u32 vec"
  step_count :: u16
  exec_block_index :: u8
  exec_block :: "u8 option"
  exec_segment :: "u8 option"

definition zero_stepper :: stepper_t where
  "zero_stepper = \<lparr>counters = [0, 0, 0], step_pulse_time = 0, step_outbits = 0, dir_outbits = 0,
     tick_steps = [0, 0, 0], step_count = 0, exec_block_index = 0, exec_block = None, exec_segment = None\<rparr>"

record step_state = plan_state +
  st_block_buffer :: "st_block_t list"
  segment_buffer :: "segment_t list"
  st :: stepper_t
  segment_buffer_tail :: u8
  segment_buffer_head :: u8
  segment_next_head :: u8
  busy :: bool
  st_prep_block :: "u8 option"
  gpioa_odr :: u16
  gpiob_odr :: u16
  gpioc_odr :: u16
  main_timer_irq :: bool
  main_timer_period :: u16
  pulse_timer_on :: bool
  pulse_timer_period :: u8
  probe_pin :: bool
  probe_invert_mask :: bool

definition upd_st :: "(stepper_t \<Rightarrow> stepper_t) \<Rightarrow> 'a step_state_scheme \<Rightarrow> 'a step_state_scheme" where
  "upd_st f s = s\<lparr>st := f (st s)\<rparr>"

definition upd_prep :: "(st_prep_t \<Rightarrow> st_prep_t) \<Rightarrow> 'a plan_state_scheme \<Rightarrow> 'a plan_state_scheme" where
  "upd_prep f s = s\<lparr>prep := f (prep s)\<rparr>"

section \<open>Pins\<close>

definition port_put :: "u16 \<Rightarrow> u16 \<Rightarrow> u16 \<Rightarrow> u16" where
  "port_put m b p = (p AND NOT m) OR (b AND m)"

abbreviation (input) STEP_MASK_X :: u16 where "STEP_MASK_X \<equiv> 1024"
abbreviation (input) STEP_MASK_YZ :: u16 where "STEP_MASK_YZ \<equiv> 40"
abbreviation (input) DIRECTION_MASK_Z :: u16 where "DIRECTION_MASK_Z \<equiv> 256"
abbreviation (input) DIRECTION_MASK_XY :: u16 where "DIRECTION_MASK_XY \<equiv> 1040"
abbreviation (input) STEPPERS_DISABLE_MASK :: u16 where "STEPPERS_DISABLE_MASK \<equiv> 512"

definition SET_STEP_BITS :: "u16 \<Rightarrow> 'a step_state_scheme \<Rightarrow> 'a step_state_scheme" where
  "SET_STEP_BITS b s =
     s\<lparr>gpioa_odr := port_put STEP_MASK_X b (gpioa_odr s), gpiob_odr := port_put STEP_MASK_YZ b (gpiob_odr s)\<rparr>"

definition SET_DIRECTION_BITS :: "u16 \<Rightarrow> 'a step_state_scheme \<Rightarrow> 'a step_state_scheme" where
  "SET_DIRECTION_BITS b s =
     s\<lparr>gpioa_odr := port_put DIRECTION_MASK_Z b (gpioa_odr s), gpiob_odr := port_put DIRECTION_MASK_XY b (gpiob_odr s)\<rparr>"

definition put_steppers_disable :: "bool \<Rightarrow> 'a step_state_scheme \<Rightarrow> 'a step_state_scheme" where
  "put_steppers_disable high s =
     s\<lparr>gpioa_odr := (if high then bit_true (gpioa_odr s) STEPPERS_DISABLE_MASK
                     else bit_false (gpioa_odr s) STEPPERS_DISABLE_MASK)\<rparr>"

section \<open>Waking up, going idle, reset\<close>

definition st_wake_up :: "'a step_state_scheme \<Rightarrow> 'a step_state_scheme" where
  "st_wake_up s =
     (let s = put_steppers_disable (bit_istrue (flags (cfg s)) BITFLAG_INVERT_ST_ENABLE) s in
      if in_state (STATE_CYCLE OR STATE_HOMING) s then
        let s = upd_st (\<lambda>t. t\<lparr>dir_outbits := dir_port_invert_mask (env s), step_outbits := step_port_invert_mask (env s),
              step_pulse_time := ucast (drop_bit 3 (ucast (pulse_microseconds (cfg s)) * TICKS_PER_MICROSECOND))\<rparr>) s
        in s\<lparr>main_timer_irq := True\<rparr>
      else s)"

definition st_go_idle :: "'a step_state_scheme \<Rightarrow> 'a step_state_scheme" where
  "st_go_idle s =
     (let s = s\<lparr>main_timer_irq := False, busy := False\<rparr>;
          pin_state = ((stepper_idle_lock_time (cfg s) \<noteq> 0xff \<or> sys_rt_exec_alarm s \<noteq> 0) \<and> state (sys s) \<noteq> STATE_HOMING);
          pin_state = (if bit_istrue (flags (cfg s)) BITFLAG_INVERT_ST_ENABLE then \<not> pin_state else pin_state)
      in put_steppers_disable pin_state s)"

definition st_reset :: "'a step_state_scheme \<Rightarrow> 'a step_state_scheme" where
  "st_reset s =
     (let s = st_go_idle s;
          s = s\<lparr>prep := zero_prep, st := zero_stepper, pl_block := None, segment_buffer_tail := 0,
                segment_buffer_head := 0, segment_next_head := 1, busy := False, env := regenerate_masks (env s)\<rparr>
      in SET_DIRECTION_BITS (dir_port_invert_mask (env s)) (SET_STEP_BITS (step_port_invert_mask (env s)) s))"

section \<open>Probing\<close>

abbreviation (input) PROBE_OFF :: u8 where "PROBE_OFF \<equiv> 0"
abbreviation (input) PROBE_ACTIVE :: u8 where "PROBE_ACTIVE \<equiv> 1"

text \<open>\<open>probe.c\<close>.  The probe is one pin; the mask is kept as whether it is set.\<close>

definition probe_configure_invert_mask :: "bool \<Rightarrow> 'a step_state_scheme \<Rightarrow> 'a step_state_scheme" where
  "probe_configure_invert_mask is_probe_away s =
     s\<lparr>probe_invert_mask := (bit_isfalse (flags (cfg s)) BITFLAG_INVERT_PROBE_PIN \<noteq> is_probe_away)\<rparr>"

definition probe_get_state :: "'a step_state_scheme \<Rightarrow> bool" where
  "probe_get_state s = (probe_pin s \<noteq> probe_invert_mask s)"

definition probe_state_monitor :: "'a step_state_scheme \<Rightarrow> 'a step_state_scheme" where
  "probe_state_monitor s =
     (if sys_probe_state s = PROBE_ACTIVE \<and> probe_get_state s then
        raise_exec EXEC_MOTION_CANCEL
          (upd_sys (\<lambda>y. y\<lparr>probe_position := position y\<rparr>) (s\<lparr>sys_probe_state := PROBE_OFF\<rparr>))
      else s)"

section \<open>The step interrupt\<close>

definition exec_block_data :: "'a step_state_scheme \<Rightarrow> st_block_t" where
  "exec_block_data s = (case exec_block (st s) of Some b \<Rightarrow> st_block_buffer s ! unat b | None \<Rightarrow> zero_st_block)"

text \<open>Popping a segment; \<open>None\<close> when the segment buffer is empty.\<close>

definition load_segment :: "'a step_state_scheme \<Rightarrow> 'a step_state_scheme option" where
  "load_segment s =
     (if segment_buffer_head s = segment_buffer_tail s then None
      else
        let g = segment_buffer s ! unat (segment_buffer_tail s);
            s = upd_st (\<lambda>t. t\<lparr>exec_segment := Some (segment_buffer_tail s), step_count := n_step g\<rparr>)
                  (s\<lparr>main_timer_period := cycles_per_tick g\<rparr>);
            s = (if exec_block_index (st s) \<noteq> seg_block_index g then
                   let half = drop_bit 1 (st_step_event_count (st_block_buffer s ! unat (seg_block_index g)))
                   in upd_st (\<lambda>t. t\<lparr>exec_block_index := seg_block_index g, exec_block := Some (seg_block_index g),
                        counters := [half, half, half]\<rparr>) s
                 else s);
            b = exec_block_data s
        in Some (upd_st (\<lambda>t. t\<lparr>dir_outbits := st_direction_bits b,
             tick_steps := map (drop_bit (unat (amass_level g))) (st_steps b)\<rparr>) s))"

text \<open>One axis of the Bresenham tracer.\<close>

definition axis_tick :: "nat \<Rightarrow> 'a step_state_scheme \<Rightarrow> 'a step_state_scheme" where
  "axis_tick idx s =
     (let b = exec_block_data s; c = counters (st s) ! idx + tick_steps (st s) ! idx in
      if st_step_event_count b < c then
        upd_sys (\<lambda>y. y\<lparr>position := (position y)[idx :=
            (if bit_istrue (st_direction_bits b) (get_direction_pin_mask idx) then position y ! idx - 1
             else position y ! idx + 1)]\<rparr>)
          (upd_st (\<lambda>t. t\<lparr>step_outbits := step_outbits t OR get_step_pin_mask idx,
             counters := (counters t)[idx := c - st_step_event_count b]\<rparr>) s)
      else upd_st (\<lambda>t. t\<lparr>counters := (counters t)[idx := c]\<rparr>) s)"

definition segment_tick :: "'a step_state_scheme \<Rightarrow> 'a step_state_scheme" where
  "segment_tick s =
     (let s = upd_st (\<lambda>t. t\<lparr>step_outbits := 0\<rparr>) (probe_state_monitor s);
          s = axis_tick Z_AXIS (axis_tick Y_AXIS (axis_tick X_AXIS s));
          s = (if state (sys s) = STATE_HOMING then
                 upd_st (\<lambda>t. t\<lparr>step_outbits := step_outbits t AND homing_axis_lock (sys s)\<rparr>) s
               else s);
          s = upd_st (\<lambda>t. t\<lparr>step_count := step_count t - 1\<rparr>) s;
          s = (if step_count (st s) = 0 then
                 let tail = segment_buffer_tail s + 1 in
                 (upd_st (\<lambda>t. t\<lparr>exec_segment := None\<rparr>) s)
                   \<lparr>segment_buffer_tail := (if tail = SEGMENT_BUFFER_SIZE then 0 else tail)\<rparr>
               else s)
      in (upd_st (\<lambda>t. t\<lparr>step_outbits := step_outbits t XOR step_port_invert_mask (env s)\<rparr>) s)\<lparr>busy := False\<rparr>)"

definition MAIN_TIMER_ISR :: "'a step_state_scheme \<Rightarrow> 'a step_state_scheme" where
  "MAIN_TIMER_ISR s =
     (if busy s then s
      else
        let s = SET_STEP_BITS (step_outbits (st s)) (SET_DIRECTION_BITS (dir_outbits (st s)) s);
            s = s\<lparr>pulse_timer_period := step_pulse_time (st s), pulse_timer_on := True, busy := True\<rparr>
        in case (if exec_segment (st s) = None then load_segment s else Some s) of
             None \<Rightarrow> raise_exec EXEC_CYCLE_STOP (st_go_idle s)
           | Some s \<Rightarrow> segment_tick s)"

text \<open>The end of the step pulse.\<close>

definition PULSE_TIMER_ISR :: "'a step_state_scheme \<Rightarrow> 'a step_state_scheme" where
  "PULSE_TIMER_ISR s = (SET_STEP_BITS (step_port_invert_mask (env s)) s)\<lparr>pulse_timer_on := False\<rparr>"

end
