(* ===== verification/StepPrep.thy ===== *)
theory StepPrep
  imports Stepper
begin

text \<open>
  \<open>st_prep_buffer\<close> of \<open>stepper.c\<close>: the main program's side of the segment buffer.  It loads the
  next planner block (or the rest of a replanned one), computes its velocity profile and cuts
  segments from it until the buffer is full or the plan is used up.  Each local of the C
  function is a field of \<open>seg_locals\<close> or a let-bound name; its expressions mix \<open>float\<close> and
  \<open>double\<close> as the C code does.
\<close>

abbreviation (input) HOLD_STATES :: u8 where
  "HOLD_STATES \<equiv> STATE_HOLD OR STATE_MOTION_CANCEL OR STATE_SAFETY_DOOR"

section \<open>Loading a block\<close>

text \<open>The Bresenham data of a new block, shifted by the highest smoothing level.\<close>

definition st_block_of :: "plan_block_t \<Rightarrow> st_block_t" where
  "st_block_of b = \<lparr>st_direction_bits = direction_bits b, st_steps = map (push_bit MAX_AMASS_LEVEL) (steps b),
     st_step_event_count = push_bit MAX_AMASS_LEVEL (step_event_count b)\<rparr>"

definition load_new_block :: "u8 \<Rightarrow> 'a step_state_scheme \<Rightarrow> 'a step_state_scheme" where
  "load_new_block pb s =
     (let i = prep_block_index (prep s) + 1; i = (if i = SEGMENT_BUFFER_SIZE - 1 then 0 else i);
          b = block_at s pb;
          s = s\<lparr>st_prep_block := Some i, st_block_buffer := (st_block_buffer s)[unat i := st_block_of b]\<rparr>;
          n = f32_of_u32 (step_event_count b); spm = f32_div n (millimeters b);
          s = upd_prep (\<lambda>p. p\<lparr>prep_block_index := i, steps_remaining := n, step_per_mm := spm,
                req_mm_increment := to_f32 (f64_div REQ_MM_INCREMENT_SCALAR spm), dt_remainder := Fin 0\<rparr>) s
      in if in_state HOLD_STATES s then
           set_entry pb (f32_mul (exit_speed (prep s)) (exit_speed (prep s)))
             (upd_prep (\<lambda>p. p\<lparr>current_speed := exit_speed p\<rparr>) s)
         else upd_prep (\<lambda>p. p\<lparr>current_speed := f32_sqrt (entry_speed_sqr b)\<rparr>) s)"

section \<open>The velocity profile\<close>

definition inv_2_accel :: "plan_block_t \<Rightarrow> fl" where
  "inv_2_accel b = to_f32 (f64_div (f64_lit (1 / 2)) (block_acceleration b))"

definition hold_profile :: "plan_block_t \<Rightarrow> st_prep_t \<Rightarrow> st_prep_t" where
  "hold_profile b p =
     (let decel_dist = f32_sub (millimeters b) (f32_mul (inv_2_accel b) (entry_speed_sqr b)) in
      if fl_lt decel_dist (Fin 0) then
        p\<lparr>ramp_type := RAMP_DECEL, exit_speed := f32_sqrt (f32_sub (entry_speed_sqr b) (speed_gain b))\<rparr>
      else p\<lparr>ramp_type := RAMP_DECEL, mm_complete := decel_dist, exit_speed := Fin 0\<rparr>)"

definition normal_profile :: "plan_block_t \<Rightarrow> fl \<Rightarrow> st_prep_t \<Rightarrow> st_prep_t" where
  "normal_profile b exec_exit_speed p =
     (let p = p\<lparr>ramp_type := RAMP_ACCEL, accelerate_until := millimeters b, exit_speed := exec_exit_speed\<rparr>;
          exit_sqr = f32_mul (exit_speed p) (exit_speed p);
          intersect = to_f32 (f64_mul (f64_lit (1 / 2))
            (f32_add (millimeters b) (f32_mul (inv_2_accel b) (f32_sub (entry_speed_sqr b) exit_sqr))))
      in if fl_gt intersect (Fin 0) then
           if fl_lt intersect (millimeters b) then
             let p = p\<lparr>decelerate_after := f32_mul (inv_2_accel b) (f32_sub (nominal_speed_sqr b) exit_sqr)\<rparr> in
             if fl_lt (decelerate_after p) intersect then
               let p = p\<lparr>maximum_speed := f32_sqrt (nominal_speed_sqr b)\<rparr> in
               if fl_eq (entry_speed_sqr b) (nominal_speed_sqr b) then p\<lparr>ramp_type := RAMP_CRUISE\<rparr>
               else p\<lparr>accelerate_until := f32_sub (accelerate_until p)
                       (f32_mul (inv_2_accel b) (f32_sub (nominal_speed_sqr b) (entry_speed_sqr b)))\<rparr>
             else p\<lparr>accelerate_until := intersect, decelerate_after := intersect,
                    maximum_speed := f32_sqrt (f64_add (f64_mul (f64_mul (f64_lit 2) (block_acceleration b)) intersect) exit_sqr)\<rparr>
           else p\<lparr>ramp_type := RAMP_DECEL, maximum_speed := current_speed p\<rparr>
         else p\<lparr>accelerate_until := Fin 0, maximum_speed := exit_speed p\<rparr>)"

text \<open>Loading or reloading the current planner block; \<open>None\<close> when the planner is empty.\<close>

definition load_block :: "'a step_state_scheme \<Rightarrow> 'a step_state_scheme option" where
  "load_block s =
     (case plan_get_current_block s of
        None \<Rightarrow> None
      | Some pb \<Rightarrow>
          let s = s\<lparr>pl_block := Some pb\<rparr>;
              s = (if flag_partial_block (prep s) then upd_prep (\<lambda>p. p\<lparr>flag_partial_block := False\<rparr>) s
                   else load_new_block pb s);
              s = upd_prep (\<lambda>p. p\<lparr>mm_complete := Fin 0\<rparr>) s; b = block_at s pb
          in Some (if in_state HOLD_STATES s then upd_prep (hold_profile b) s
                   else upd_prep (normal_profile b (plan_get_exec_block_exit_speed s)) s))"

section \<open>One segment\<close>

record seg_locals =
  dt_max :: fl
  seg_dt :: fl
  time_var :: fl
  mm_remaining :: fl

definition accel_ramp :: "plan_block_t \<Rightarrow> st_prep_t \<times> seg_locals \<Rightarrow> st_prep_t \<times> seg_locals" where
  "accel_ramp b = (\<lambda>(p, l).
     let speed_var = f32_mul (block_acceleration b) (time_var l);
         mm = to_f32 (f64_sub (mm_remaining l)
                (f64_mul (time_var l) (f64_add (current_speed p) (f64_mul (f64_lit (1 / 2)) speed_var))))
     in if fl_lt mm (accelerate_until p) then
          let mm = accelerate_until p in
          (p\<lparr>ramp_type := (if fl_eq mm (decelerate_after p) then RAMP_DECEL else RAMP_CRUISE),
             current_speed := maximum_speed p\<rparr>,
           l\<lparr>mm_remaining := mm,
             time_var := to_f32 (f64_div (f64_mul (f64_lit 2) (f32_sub (millimeters b) mm))
               (f32_add (current_speed p) (maximum_speed p)))\<rparr>)
        else (p\<lparr>current_speed := f32_add (current_speed p) speed_var\<rparr>, l\<lparr>mm_remaining := mm\<rparr>))"

definition cruise_ramp :: "st_prep_t \<times> seg_locals \<Rightarrow> st_prep_t \<times> seg_locals" where
  "cruise_ramp = (\<lambda>(p, l).
     let mm_var = f32_sub (mm_remaining l) (f32_mul (maximum_speed p) (time_var l)) in
     if fl_lt mm_var (decelerate_after p) then
       (p\<lparr>ramp_type := RAMP_DECEL\<rparr>,
        l\<lparr>time_var := f32_div (f32_sub (mm_remaining l) (decelerate_after p)) (maximum_speed p),
          mm_remaining := decelerate_after p\<rparr>)
     else (p, l\<lparr>mm_remaining := mm_var\<rparr>))"

definition decel_ramp :: "plan_block_t \<Rightarrow> st_prep_t \<times> seg_locals \<Rightarrow> st_prep_t \<times> seg_locals" where
  "decel_ramp b = (\<lambda>(p, l).
     let speed_var = f32_mul (block_acceleration b) (time_var l);
         mm_var = to_f32 (f64_sub (mm_remaining l)
           (f64_mul (time_var l) (f64_sub (current_speed p) (f64_mul (f64_lit (1 / 2)) speed_var))))
     in if fl_gt (current_speed p) speed_var \<and> fl_gt mm_var (mm_complete p) then
          (p\<lparr>current_speed := f32_sub (current_speed p) speed_var\<rparr>, l\<lparr>mm_remaining := mm_var\<rparr>)
        else
          (p, l\<lparr>time_var := to_f32 (f64_div (f64_mul (f64_lit 2) (f32_sub (mm_remaining l) (mm_complete p)))
                  (f32_add (current_speed p) (exit_speed p))),
                mm_remaining := mm_complete p\<rparr>))"

definition ramp_step :: "plan_block_t \<Rightarrow> st_prep_t \<times> seg_locals \<Rightarrow> st_prep_t \<times> seg_locals" where
  "ramp_step b = (\<lambda>(p, l).
     if ramp_type p = RAMP_ACCEL then accel_ramp b (p, l)
     else if ramp_type p = RAMP_CRUISE then cruise_ramp (p, l) else decel_ramp b (p, l))"

text \<open>The \<open>do ... while\<close> loop over the ramps of one segment.\<close>

partial_function (option) segment_ramps ::
  "plan_block_t \<Rightarrow> fl \<Rightarrow> st_prep_t \<times> seg_locals \<Rightarrow> (st_prep_t \<times> seg_locals) option" where
  "segment_ramps b minimum_mm pl =
     (let (p, l) = ramp_step b pl; l = l\<lparr>seg_dt := f32_add (seg_dt l) (time_var l)\<rparr> in
      if fl_lt (seg_dt l) (dt_max l) then
        let l = l\<lparr>time_var := f32_sub (dt_max l) (seg_dt l)\<rparr> in
        if fl_gt (mm_remaining l) (mm_complete p) then segment_ramps b minimum_mm (p, l) else Some (p, l)
      else if fl_gt (mm_remaining l) minimum_mm then
        let l = l\<lparr>dt_max := to_f32 (f64_add (dt_max l) DT_SEGMENT)\<rparr>;
            l = l\<lparr>time_var := f32_sub (dt_max l) (seg_dt l)\<rparr> in
        if fl_gt (mm_remaining l) (mm_complete p) then segment_ramps b minimum_mm (p, l) else Some (p, l)
      else Some (p, l))"

declare segment_ramps.simps [code]

definition fl_to_u16 :: "fl \<Rightarrow> u16" where
  "fl_to_u16 a = ucast (fl_to_u32 a)"

definition upd_segment :: "(segment_t \<Rightarrow> segment_t) \<Rightarrow> 'a step_state_scheme \<Rightarrow> 'a step_state_scheme" where
  "upd_segment f s = (let h = unat (segment_buffer_head s) in
     s\<lparr>segment_buffer := (segment_buffer s)[h := f (segment_buffer s ! h)]\<rparr>)"

text \<open>The step rate and the smoothing level of a segment of \<open>cycles\<close> timer ticks per step.\<close>

definition amass_level_of :: "u32 \<Rightarrow> u8" where
  "amass_level_of cycles =
     (if cycles < AMASS_LEVEL1 then 0 else if cycles < AMASS_LEVEL2 then 1 else if cycles < AMASS_LEVEL3 then 2 else 3)"

definition set_segment_rate :: "u32 \<Rightarrow> segment_t \<Rightarrow> segment_t" where
  "set_segment_rate cycles g =
     (let level = amass_level_of cycles; cycles = drop_bit (unat level) cycles
      in g\<lparr>amass_level := level, n_step := push_bit (unat level) (n_step g),
           cycles_per_tick := (if cycles < 65536 then ucast cycles else 0xffff)\<rparr>)"

definition cycles_of_rate :: "fl \<Rightarrow> u32" where
  "cycles_of_rate inv_rate =
     fl_to_u32 (fl_ceil (f32_mul (f32_of_u32 (TICKS_PER_MICROSECOND * 60)) (f32_mul (f32_of_u32 1000000) inv_rate)))"

text \<open>The end of a forced deceleration: what is left of the block is rounded to whole steps and
  planned again from rest.\<close>

definition end_of_hold :: "fl \<Rightarrow> u8 \<Rightarrow> 'a step_state_scheme \<Rightarrow> 'a step_state_scheme option" where
  "end_of_hold n_steps pb s =
     (let s = upd_prep (\<lambda>p. p\<lparr>current_speed := Fin 0, dt_remainder := Fin 0, steps_remaining := n_steps\<rparr>) s
      in plan_cycle_reinitialize
           (upd_block pb (millimeters_update (\<lambda>_. f32_div n_steps (step_per_mm (prep s)))) s))"

section \<open>Filling the buffer\<close>

text \<open>One round of the loop for the block \<open>pb\<close>; the first component tells whether to go on.\<close>

definition prep_segment :: "u8 \<Rightarrow> 'a step_state_scheme \<Rightarrow> (bool \<times> 'a step_state_scheme) option" where
  "prep_segment pb s =
     (let b = block_at s pb;
          s = upd_segment (\<lambda>g. g\<lparr>seg_block_index := prep_block_index (prep s)\<rparr>) s;
          minimum_mm = f32_sub (millimeters b) (req_mm_increment (prep s));
          minimum_mm = (if fl_lt minimum_mm (Fin 0) then Fin 0 else minimum_mm);
          dtm = to_f32 DT_SEGMENT
      in do {
        (p, l) \<leftarrow> segment_ramps b minimum_mm
          (prep s, \<lparr>dt_max = dtm, seg_dt = Fin 0, time_var = dtm, mm_remaining = millimeters b\<rparr>);
        let s = upd_prep (\<lambda>_. p) s;
        let mm = mm_remaining l;
        let stepsr = f32_mul (step_per_mm p) mm;
        let n_steps = fl_ceil stepsr;
        let last_n_steps = fl_ceil (steps_remaining p);
        let n = fl_to_u16 (f32_sub last_n_steps n_steps);
        let s = upd_segment (\<lambda>g. g\<lparr>n_step := n\<rparr>) s;
        if n = 0 \<and> in_state HOLD_STATES s then do { s \<leftarrow> end_of_hold n_steps pb s; Some (False, s) }
        else
          let dt = f32_add (seg_dt l) (dt_remainder p);
              inv_rate = f32_div dt (f32_sub last_n_steps stepsr);
              s = upd_prep (\<lambda>p. p\<lparr>dt_remainder := f32_mul (f32_sub n_steps stepsr) inv_rate\<rparr>) s;
              s = upd_segment (set_segment_rate (cycles_of_rate inv_rate)) s;
              next = segment_next_head s + 1;
              s = s\<lparr>segment_buffer_head := segment_next_head s,
                    segment_next_head := (if next = SEGMENT_BUFFER_SIZE then 0 else next)\<rparr>
          in if fl_gt mm (mm_complete p) then
               Some (True, upd_prep (\<lambda>p. p\<lparr>steps_remaining := stepsr\<rparr>) (upd_block pb (millimeters_update (\<lambda>_. mm)) s))
             else if fl_gt mm (Fin 0) then do { s \<leftarrow> end_of_hold (fl_ceil stepsr) pb s; Some (False, s) }
             else Some (True, plan_discard_current_block (s\<lparr>pl_block := None\<rparr>))
      })"

partial_function (option) prep_loop :: "'a step_state_scheme \<Rightarrow> 'a step_state_scheme option" where
  "prep_loop s =
     (if segment_buffer_tail s = segment_next_head s then Some s
      else case (if pl_block s = None then load_block s else Some s) of
        None \<Rightarrow> Some s
      | Some s \<Rightarrow> do {
          (more, s) \<leftarrow> prep_segment (the (pl_block s)) s;
          if more then prep_loop s else Some s
        })"

declare prep_loop.simps [code]

definition st_prep_buffer :: "'a step_state_scheme \<Rightarrow> 'a step_state_scheme option" where
  "st_prep_buffer s =
     (if in_state HOLD_STATES s \<and> fl_eq (current_speed (prep s)) (Fin 0) then Some s else prep_loop s)"

end
