(* ===== verification/Machine.thy ===== *)
theory Machine
  imports StepPrep Gcode
begin

text \<open>
  The whole machine: the planner and stepper state with the g-code parser, the serial buffers, the
  spindle timer, the limit switches and the text sent to the host.  Interrupts come from the
  environment: \<open>future\<close> lists the interrupts that arrive between one polling point of the main
  program and the next.  A wait loop takes one entry per round, and a program that still waits when
  the list is used up has no result (\<open>None\<close>); a delay takes an entry when there is one.
\<close>

section \<open>The state\<close>

datatype interrupt =
    StepTick
  | PulseEnd
  | RxByte u8
  | LimitEdge
  | DebounceTimeout
  | ResetPin
  | FeedHoldPin
  | SafetyDoorPin
  | CycleStartPin
  | ProbePin bool
  | LimitPins u8

record machine = step_state +
  gc_state :: parser_state_t
  ser :: serial
  spindle_timer_on :: bool
  spindle_output_on :: bool
  spindle_oc_value :: u16
  spindle_timer_period :: u32
  limit_pins :: u8
  debounce_timer_on :: bool
  line_buf :: "u8 list"
  sent :: "u8 list"
  future :: "interrupt list list"

text \<open>The memory at power-up: every static variable is zero; the flash keeps its contents.\<close>

definition zero_settings :: settings_t where
  "zero_settings = \<lparr>steps_per_mm = zero_vec, max_rate = zero_vec, acceleration = zero_vec, max_travel = zero_vec,
     pulse_microseconds = 0, step_invert_mask = 0, dir_invert_mask = 0, stepper_idle_lock_time = 0,
     status_report_mask = 0, junction_deviation = Fin 0, arc_tolerance = Fin 0, flags = 0, homing_dir_mask = 0,
     homing_feed_rate = Fin 0, homing_seek_rate = Fin 0, homing_debounce_delay = 0, homing_pulloff = Fin 0,
     spindle_pwm_period = 0, spindle_pwm_max_time_on = 0, spindle_pwm_min_time_on = 0,
     spindle_pwm_enable_at_start = 0\<rparr>"

definition zero_machine :: "flash \<Rightarrow> machine" where
  "zero_machine f =
    \<lparr>env = \<lparr>settings = zero_settings, nvm = f, step_port_invert_mask = 0, dir_port_invert_mask = 0,
        limit_irq_enabled = False\<rparr>,
     sys = zero_system, sys_probe_state = 0, sys_rt_exec_state = 0, sys_rt_exec_alarm = 0,
     block_buffer = replicate 18 zero_block, block_buffer_tail = 0, block_buffer_head = 0, next_buffer_head = 0,
     block_buffer_planned = 0, pl_position = [0, 0, 0], previous_unit_vec = zero_vec,
     previous_nominal_speed_sqr = Fin 0, pl_block = None, prep = zero_prep,
     st_block_buffer = replicate 5 zero_st_block,
     segment_buffer = replicate 6 \<lparr>n_step = 0, seg_block_index = 0, cycles_per_tick = 0, amass_level = 0\<rparr>,
     st = zero_stepper, segment_buffer_tail = 0, segment_buffer_head = 0, segment_next_head = 0, busy = False,
     st_prep_block = None, gpioa_odr = 0, gpiob_odr = 0, gpioc_odr = 0, main_timer_irq = False,
     main_timer_period = 0, pulse_timer_on = False, pulse_timer_period = 0, probe_pin = False,
     probe_invert_mask = False, gc_state = zero_parser_state, ser = serial_zero, spindle_timer_on = False,
     spindle_output_on = False, spindle_oc_value = 0, spindle_timer_period = 0, limit_pins = 0,
     debounce_timer_on = False, line_buf = replicate LINE_BUFFER_SIZE 0, sent = [], future = []\<rparr>"

definition emit :: "u8 list \<Rightarrow> machine \<Rightarrow> machine" where
  "emit bs m = m\<lparr>sent := sent m @ bs\<rparr>"

definition upd_gc :: "(parser_state_t \<Rightarrow> parser_state_t) \<Rightarrow> machine \<Rightarrow> machine" where
  "upd_gc f m = m\<lparr>gc_state := f (gc_state m)\<rparr>"

abbreviation upd_gc_modal :: "(gc_modal_t \<Rightarrow> gc_modal_t) \<Rightarrow> machine \<Rightarrow> machine" where
  "upd_gc_modal f \<equiv> upd_gc (modal_update f)"

section \<open>Spindle and coolant\<close>

abbreviation (input) SPINDLE_DIRECTION_MASK :: u16 where "SPINDLE_DIRECTION_MASK \<equiv> 32"
abbreviation (input) COOLANT_FLOOD_MASK :: u16 where "COOLANT_FLOOD_MASK \<equiv> 2"

definition SPINDLE_MAX_RPM :: fl where "SPINDLE_MAX_RPM = f64_lit 1000"
definition SPINDLE_MIN_RPM :: fl where "SPINDLE_MIN_RPM = f64_lit 0"

definition spindle_stop :: "machine \<Rightarrow> machine" where
  "spindle_stop m = m\<lparr>spindle_output_on := False, spindle_timer_on := False\<rparr>"

text \<open>The on-time of the pulse for a speed already clamped, the duty formula of \<open>spindle_set_state\<close>.\<close>

definition spindle_pwm :: "u32 \<Rightarrow> u32 \<Rightarrow> fl \<Rightarrow> u16" where
  "spindle_pwm pwm_range min_time_on rpm =
     fl_to_u16 (fl_floor (f64_add (f64_add
       (f64_mul rpm (f64_div (f64_of_int (uint pwm_range)) (f64_sub SPINDLE_MAX_RPM SPINDLE_MIN_RPM)))
       (f64_of_int (uint min_time_on))) (f64_lit (1 / 2))))"

definition spindle_set_state :: "u8 \<Rightarrow> fl \<Rightarrow> machine \<Rightarrow> machine" where
  "spindle_set_state mode rpm m =
     (if mode = SPINDLE_DISABLE then spindle_stop m
      else
        let m = m\<lparr>gpioa_odr := (if mode = SPINDLE_ENABLE_CW then bit_false (gpioa_odr m) SPINDLE_DIRECTION_MASK
                               else bit_true (gpioa_odr m) SPINDLE_DIRECTION_MASK)\<rparr>;
            m = m\<lparr>spindle_timer_on := False, spindle_oc_value := 0xFFFF, spindle_timer_period := spindle_pwm_period (cfg m)\<rparr>;
            spindle_pwm_range = spindle_pwm_max_time_on (cfg m) - spindle_pwm_min_time_on (cfg m)
        in if fl_lt rpm (Fin 0) \<or> fl_le (f64_of_int (uint spindle_pwm_range)) (Fin 0) then spindle_stop m
        else
          let rpm = (if fl_lt rpm SPINDLE_MIN_RPM then Fin 0
                     else if fl_gt rpm SPINDLE_MAX_RPM then to_f32 SPINDLE_MAX_RPM else rpm)
          in m\<lparr>spindle_oc_value := spindle_pwm spindle_pwm_range (spindle_pwm_min_time_on (cfg m)) rpm,
               spindle_output_on := True, spindle_timer_on := True\<rparr>)"

definition coolant_stop :: "machine \<Rightarrow> machine" where
  "coolant_stop m = m\<lparr>gpioc_odr := bit_false (gpioc_odr m) COOLANT_FLOOD_MASK\<rparr>"

definition coolant_set_state :: "u8 \<Rightarrow> machine \<Rightarrow> machine" where
  "coolant_set_state mode m =
     (if mode = COOLANT_FLOOD_ENABLE then m\<lparr>gpioc_odr := bit_true (gpioc_odr m) COOLANT_FLOOD_MASK\<rparr>
      else coolant_stop m)"

section \<open>Reset\<close>

definition mc_reset :: "machine \<Rightarrow> machine" where
  "mc_reset m =
     (if bit_isfalse (sys_rt_exec_state m) EXEC_RESET then
        let m = coolant_stop (spindle_stop (raise_exec EXEC_RESET m)) in
        if in_state (STATE_CYCLE OR STATE_HOMING) m \<or> suspend (sys m) = SUSPEND_ENABLE_HOLD then
          st_go_idle (raise_alarm (if state (sys m) = STATE_HOMING then EXEC_ALARM_HOMING_FAIL
                                   else EXEC_ALARM_ABORT_CYCLE) m)
        else m
      else m)"

section \<open>Limit switches\<close>

abbreviation (input) LIMIT_MASK :: u8 where "LIMIT_MASK \<equiv> 0xC1"

definition limits_get_state :: "machine \<Rightarrow> u8" where
  "limits_get_state m =
     (let pin = limit_pins m AND LIMIT_MASK;
          pin = (if bit_isfalse (flags (cfg m)) BITFLAG_INVERT_LIMIT_PINS then pin XOR LIMIT_MASK else pin)
      in fold (\<lambda>idx acc. if (ucast pin :: u16) AND get_limit_pin_mask idx \<noteq> 0 then acc OR bit_of idx else acc) [0..<N_AXIS] 0)"

definition enable_debounce_timer :: "machine \<Rightarrow> machine" where
  "enable_debounce_timer m = m\<lparr>debounce_timer_on := True\<rparr>"

text \<open>The pin interrupts \<open>exti0_isr\<close> and \<open>exti9_5_isr\<close>, while they are enabled.\<close>

definition limit_pin_isr :: "machine \<Rightarrow> machine" where
  "limit_pin_isr m = (if limit_irq_enabled (env m) then enable_debounce_timer m else m)"

definition SW_DEBOUNCE_TIMER_ISR :: "machine \<Rightarrow> machine" where
  "SW_DEBOUNCE_TIMER_ISR m =
     (let m = m\<lparr>debounce_timer_on := False\<rparr> in
      if state (sys m) \<noteq> STATE_HOMING \<and> state (sys m) \<noteq> STATE_ALARM \<and> sys_rt_exec_alarm m = 0 \<and> limits_get_state m \<noteq> 0 then
        raise_alarm (EXEC_ALARM_HARD_LIMIT OR EXEC_CRITICAL_EVENT) (mc_reset m)
      else m)"

section \<open>Interrupts\<close>

definition RESET_CONTROL_ISR :: "machine \<Rightarrow> machine" where
  "RESET_CONTROL_ISR m = mc_reset m"

definition FEED_HOLD_CONTROL_ISR :: "machine \<Rightarrow> machine" where
  "FEED_HOLD_CONTROL_ISR m = raise_exec EXEC_FEED_HOLD m"

definition SAFETY_DOOR_CONTROL_ISR :: "machine \<Rightarrow> machine" where
  "SAFETY_DOOR_CONTROL_ISR m = raise_exec EXEC_SAFETY_DOOR m"

definition CYCLE_START_CONTROL_ISR :: "machine \<Rightarrow> machine" where
  "CYCLE_START_CONTROL_ISR m = raise_exec EXEC_CYCLE_START m"

text \<open>A received byte: the reset command runs \<open>mc_reset\<close>, the rest is the receive interrupt.\<close>

definition receive_byte :: "u8 \<Rightarrow> machine \<Rightarrow> machine" where
  "receive_byte c m =
     (if realtime_command c = Some CMD_RESET then mc_reset m
      else case SERIAL_DMA_ISR id c (sys_rt_exec_state m, ser m) of
        (rt, s) \<Rightarrow> m\<lparr>sys_rt_exec_state := rt, ser := s\<rparr>)"

fun interrupt_step :: "interrupt \<Rightarrow> machine \<Rightarrow> machine" where
  "interrupt_step StepTick m = (if main_timer_irq m then MAIN_TIMER_ISR m else m)"
| "interrupt_step PulseEnd m = (if pulse_timer_on m then PULSE_TIMER_ISR m else m)"
| "interrupt_step (RxByte c) m = receive_byte c m"
| "interrupt_step LimitEdge m = limit_pin_isr m"
| "interrupt_step DebounceTimeout m = (if debounce_timer_on m then SW_DEBOUNCE_TIMER_ISR m else m)"
| "interrupt_step ResetPin m = RESET_CONTROL_ISR m"
| "interrupt_step FeedHoldPin m = FEED_HOLD_CONTROL_ISR m"
| "interrupt_step SafetyDoorPin m = SAFETY_DOOR_CONTROL_ISR m"
| "interrupt_step CycleStartPin m = CYCLE_START_CONTROL_ISR m"
| "interrupt_step (ProbePin b) m = m\<lparr>probe_pin := b\<rparr>"
| "interrupt_step (LimitPins p) m = m\<lparr>limit_pins := p\<rparr>"

text \<open>The next entry of the environment: \<open>poll\<close> goes on without one, \<open>await\<close> does not.\<close>

definition await :: "machine \<Rightarrow> machine option" where
  "await m = (case future m of [] \<Rightarrow> None | evs # rest \<Rightarrow> Some (fold interrupt_step evs (m\<lparr>future := rest\<rparr>)))"

definition poll :: "machine \<Rightarrow> machine" where
  "poll m = (case await m of None \<Rightarrow> m | Some m \<Rightarrow> m)"

definition delay_ms :: "u16 \<Rightarrow> machine \<Rightarrow> machine" where
  "delay_ms ms m = (if ms = 0 then m else poll m)"

end
