(* ===== verification/StepTrace.thy ===== *)
theory StepTrace
  imports Machine
begin

text \<open>
  What the step interrupt does with a block that was cut into segments: a sequence of interrupts
  traces the segments one after the other, and the Bresenham counters make every motor take exactly
  its number of steps, whatever the smoothing levels of the segments are.
\<close>

section \<open>Frames of the interrupt\<close>

lemma upd_sys_fields [simp]:
  "sys (upd_sys f s) = f (sys s)" "env (upd_sys f s) = env s"
  "sys_rt_exec_state (upd_sys f s) = sys_rt_exec_state s" "sys_rt_exec_alarm (upd_sys f s) = sys_rt_exec_alarm s"
  "sys_env.more (upd_sys f s) = sys_env.more s"
  by (simp_all add: upd_sys_def)

lemma upd_st_fields [simp]:
  "st (upd_st f s) = f (st s)" "sys (upd_st f s) = sys s" "env (upd_st f s) = env s"
  "st_block_buffer (upd_st f s) = st_block_buffer s" "segment_buffer (upd_st f s) = segment_buffer s"
  "segment_buffer_tail (upd_st f s) = segment_buffer_tail s" "segment_buffer_head (upd_st f s) = segment_buffer_head s"
  "busy (upd_st f s) = busy s"
  by (simp_all add: upd_st_def)

lemma upd_sys_step_fields [simp]:
  "st (upd_sys f s) = st s" 
  "st_block_buffer (upd_sys f s) = st_block_buffer s" "segment_buffer (upd_sys f s) = segment_buffer s"
  "segment_buffer_tail (upd_sys f s) = segment_buffer_tail s" "segment_buffer_head (upd_sys f s) = segment_buffer_head s"
  "busy (upd_sys f s) = busy s"
  by (simp_all add: upd_sys_def)

lemma raise_exec_fields [simp]:
  "st (raise_exec f s) = st s" "sys (raise_exec f s) = sys s"
  "st_block_buffer (raise_exec f s) = st_block_buffer s" "segment_buffer (raise_exec f s) = segment_buffer s"
  "segment_buffer_tail (raise_exec f s) = segment_buffer_tail s" "segment_buffer_head (raise_exec f s) = segment_buffer_head s"
  "busy (raise_exec f s) = busy s"
  by (simp_all add: raise_exec_def)

lemma put_bits_fields [simp]:
  "st (SET_STEP_BITS b s) = st s" "sys (SET_STEP_BITS b s) = sys s"
  "st_block_buffer (SET_STEP_BITS b s) = st_block_buffer s" "segment_buffer (SET_STEP_BITS b s) = segment_buffer s"
  "segment_buffer_tail (SET_STEP_BITS b s) = segment_buffer_tail s" "segment_buffer_head (SET_STEP_BITS b s) = segment_buffer_head s"
  "st (SET_DIRECTION_BITS b s) = st s" "sys (SET_DIRECTION_BITS b s) = sys s"
  "st_block_buffer (SET_DIRECTION_BITS b s) = st_block_buffer s" "segment_buffer (SET_DIRECTION_BITS b s) = segment_buffer s"
  "segment_buffer_tail (SET_DIRECTION_BITS b s) = segment_buffer_tail s" "segment_buffer_head (SET_DIRECTION_BITS b s) = segment_buffer_head s"
  by (simp_all add: SET_STEP_BITS_def SET_DIRECTION_BITS_def)

lemma probe_monitor_fields [simp]:
  "st (probe_state_monitor s) = st s" "position (sys (probe_state_monitor s)) = position (sys s)"
  "st_block_buffer (probe_state_monitor s) = st_block_buffer s" "segment_buffer (probe_state_monitor s) = segment_buffer s"
  "segment_buffer_tail (probe_state_monitor s) = segment_buffer_tail s" "segment_buffer_head (probe_state_monitor s) = segment_buffer_head s"
  by (simp_all add: probe_state_monitor_def)

lemma exec_block_data_cong:
  "exec_block (st s') = exec_block (st s) \<Longrightarrow> st_block_buffer s' = st_block_buffer s \<Longrightarrow> exec_block_data s' = exec_block_data s"
  by (simp add: exec_block_data_def split: option.split)

section \<open>One axis, one tick\<close>

definition axis_step :: "st_block_t \<Rightarrow> nat \<Rightarrow> i32" where
  "axis_step b idx = (if bit_istrue (st_direction_bits b) (get_direction_pin_mask idx) then - 1 else 1)"

text \<open>The counter of an axis and its steps: what a tick of \<open>a\<close> does to a counter below \<open>n\<close>.\<close>

definition bresenham :: "u32 \<Rightarrow> u32 \<Rightarrow> u32 \<Rightarrow> u32 \<times> bool" where
  "bresenham n a c = (if n < c + a then (c + a - n, True) else (c + a, False))"

lemma bresenham_unat:
  assumes "unat n < 2 ^ 31" "a \<le> n" "c \<le> n" "bresenham n a c = (c', k)"
  shows "c' \<le> n \<and> unat c' + (if k then unat n else 0) = unat c + unat a"
proof -
  have s: "unat (c + a) = unat c + unat a"
    using assms by (subst unat_add_lem [THEN iffD1]) (simp_all add: word_le_nat_alt)
  show ?thesis
  proof (cases "n < c + a")
    case True
    then have "unat (c + a - n) = unat c + unat a - unat n" using s by (simp add: unat_sub)
    then show ?thesis using assms True s by (auto simp: bresenham_def word_le_nat_alt word_less_nat_alt)
  next
    case False
    then show ?thesis using assms s by (auto simp: bresenham_def word_le_nat_alt word_less_nat_alt)
  qed
qed

lemma axis_tick_fields:
  assumes "idx < length (counters (st s))" "idx < length (position (sys s))"
  defines "r \<equiv> bresenham (st_step_event_count (exec_block_data s)) (tick_steps (st s) ! idx) (counters (st s) ! idx)"
  shows "counters (st (axis_tick idx s)) = (counters (st s))[idx := fst r]"
    "position (sys (axis_tick idx s)) =
       (position (sys s))[idx := position (sys s) ! idx + (if snd r then axis_step (exec_block_data s) idx else 0)]"
  using assms by (auto simp: axis_tick_def bresenham_def axis_step_def Let_def)

lemma axis_tick_frame [simp]:
  "tick_steps (st (axis_tick idx s)) = tick_steps (st s)" "step_count (st (axis_tick idx s)) = step_count (st s)"
  "exec_block (st (axis_tick idx s)) = exec_block (st s)" "exec_segment (st (axis_tick idx s)) = exec_segment (st s)"
  "exec_block_index (st (axis_tick idx s)) = exec_block_index (st s)"
  "st_block_buffer (axis_tick idx s) = st_block_buffer s" "segment_buffer (axis_tick idx s) = segment_buffer s"
  "segment_buffer_tail (axis_tick idx s) = segment_buffer_tail s" "segment_buffer_head (axis_tick idx s) = segment_buffer_head s"
  "exec_block_data (axis_tick idx s) = exec_block_data s"
  by (simp_all add: axis_tick_def Let_def exec_block_data_def split: option.split)

section \<open>One tick of all axes\<close>

lemma axis_ticks:
  assumes "length (counters (st s)) = 3" "length (position (sys s)) = 3" "i < 3"
  defines "s' \<equiv> axis_tick Z_AXIS (axis_tick Y_AXIS (axis_tick X_AXIS s))"
    and "r \<equiv> bresenham (st_step_event_count (exec_block_data s)) (tick_steps (st s) ! i) (counters (st s) ! i)"
  shows "length (counters (st s')) = 3 \<and> length (position (sys s')) = 3 \<and> counters (st s') ! i = fst r \<and>
    position (sys s') ! i = position (sys s) ! i + (if snd r then axis_step (exec_block_data s) i else 0)"
proof -
  have "i = 0 \<or> i = 1 \<or> i = 2" using assms(3) by arith
  then show ?thesis using assms(1,2) unfolding s'_def r_def by (elim disjE) (simp_all add: axis_tick_fields)
qed

lemma segment_tick_fields:
  "counters (st (segment_tick s)) = counters (st (axis_tick Z_AXIS (axis_tick Y_AXIS (axis_tick X_AXIS
     (upd_st (\<lambda>t. t\<lparr>step_outbits := 0\<rparr>) (probe_state_monitor s))))))"
  "position (sys (segment_tick s)) = position (sys (axis_tick Z_AXIS (axis_tick Y_AXIS (axis_tick X_AXIS
     (upd_st (\<lambda>t. t\<lparr>step_outbits := 0\<rparr>) (probe_state_monitor s))))))"
  "tick_steps (st (segment_tick s)) = tick_steps (st s)"
  "step_count (st (segment_tick s)) = step_count (st s) - 1"
  "exec_block (st (segment_tick s)) = exec_block (st s)"
  "exec_block_index (st (segment_tick s)) = exec_block_index (st s)"
  "exec_segment (st (segment_tick s)) = (if step_count (st s) = 1 then None else exec_segment (st s))"
  "segment_buffer_tail (segment_tick s) =
     (if step_count (st s) = 1 then if segment_buffer_tail s + 1 = 6 then 0 else segment_buffer_tail s + 1
      else segment_buffer_tail s)"
  "segment_buffer_head (segment_tick s) = segment_buffer_head s"
  "segment_buffer (segment_tick s) = segment_buffer s"
  "st_block_buffer (segment_tick s) = st_block_buffer s"
  "\<not> busy (segment_tick s)"
  by (simp_all add: segment_tick_def Let_def)


section \<open>Tracing segments\<close>

text \<open>
  From \<open>s\<close> to \<open>s'\<close> every axis received the amount \<open>w\<close>: its counter and \<open>n\<close> times the steps taken
  add up, and the position moved by these steps.
\<close>

definition moved :: "st_block_t \<Rightarrow> (nat \<Rightarrow> nat) \<Rightarrow> 'a step_state_scheme \<Rightarrow> 'a step_state_scheme \<Rightarrow> bool" where
  "moved b w s s' = (\<forall>i<N_AXIS. \<exists>k. position (sys s') ! i = position (sys s) ! i + of_nat k * axis_step b i \<and>
     counters (st s') ! i \<le> st_step_event_count b \<and>
     unat (counters (st s') ! i) + k * unat (st_step_event_count b) = unat (counters (st s) ! i) + w i)"

definition same_job :: "'a step_state_scheme \<Rightarrow> 'a step_state_scheme \<Rightarrow> bool" where
  "same_job s s' = (length (counters (st s')) = length (counters (st s)) \<and>
     length (position (sys s')) = length (position (sys s)) \<and> st_block_buffer s' = st_block_buffer s \<and>
     segment_buffer s' = segment_buffer s \<and> segment_buffer_head s' = segment_buffer_head s \<and>
     exec_block (st s') = exec_block (st s) \<and> exec_block_index (st s') = exec_block_index (st s) \<and> \<not> busy s')"

lemma moved_trans: "moved b v s t \<Longrightarrow> moved b w t u \<Longrightarrow> moved b (\<lambda>i. v i + w i) s u"
  unfolding moved_def
proof (intro allI impI)
  fix i assume a: "\<forall>i<N_AXIS. \<exists>k. position (sys t) ! i = position (sys s) ! i + of_nat k * axis_step b i \<and>
     counters (st t) ! i \<le> st_step_event_count b \<and>
     unat (counters (st t) ! i) + k * unat (st_step_event_count b) = unat (counters (st s) ! i) + v i"
    and b: "\<forall>i<N_AXIS. \<exists>k. position (sys u) ! i = position (sys t) ! i + of_nat k * axis_step b i \<and>
     counters (st u) ! i \<le> st_step_event_count b \<and>
     unat (counters (st u) ! i) + k * unat (st_step_event_count b) = unat (counters (st t) ! i) + w i"
    and i: "i < N_AXIS"
  obtain k1 where k1: "position (sys t) ! i = position (sys s) ! i + of_nat k1 * axis_step b i"
     "unat (counters (st t) ! i) + k1 * unat (st_step_event_count b) = unat (counters (st s) ! i) + v i"
    using a i by blast
  obtain k2 where k2: "position (sys u) ! i = position (sys t) ! i + of_nat k2 * axis_step b i"
     "counters (st u) ! i \<le> st_step_event_count b"
     "unat (counters (st u) ! i) + k2 * unat (st_step_event_count b) = unat (counters (st t) ! i) + w i"
    using b i by blast
  show "\<exists>k. position (sys u) ! i = position (sys s) ! i + of_nat k * axis_step b i \<and>
     counters (st u) ! i \<le> st_step_event_count b \<and>
     unat (counters (st u) ! i) + k * unat (st_step_event_count b) = unat (counters (st s) ! i) + (v i + w i)"
    using k1 k2 by (intro exI [of _ "k1 + k2"]) (simp add: algebra_simps)
qed

lemma same_job_trans: "same_job s t \<Longrightarrow> same_job t u \<Longrightarrow> same_job s u"
  by (simp add: same_job_def)

definition ticking :: "st_block_t \<Rightarrow> 'a step_state_scheme \<Rightarrow> bool" where
  "ticking b s = (length (counters (st s)) = N_AXIS \<and> length (position (sys s)) = N_AXIS \<and>
     exec_block_data s = b \<and> unat (st_step_event_count b) < 2 ^ 31 \<and>
     (\<forall>i<N_AXIS. counters (st s) ! i \<le> st_step_event_count b \<and> tick_steps (st s) ! i \<le> st_step_event_count b))"

lemma segment_tick_moved:
  assumes "ticking b s"
  shows "moved b (\<lambda>i. unat (tick_steps (st s) ! i)) s (segment_tick s)"
  unfolding moved_def
proof (intro allI impI)
  fix i :: nat assume i: "i < N_AXIS"
  define s0 where "s0 = upd_st (\<lambda>t. t\<lparr>step_outbits := 0\<rparr>) (probe_state_monitor s)"
  have s0: "counters (st s0) = counters (st s)" "position (sys s0) = position (sys s)"
      "tick_steps (st s0) = tick_steps (st s)" "exec_block_data s0 = b"
    using assms by (auto simp: s0_def ticking_def exec_block_data_def split: option.splits)
  obtain c' k where r: "bresenham (st_step_event_count b) (tick_steps (st s) ! i) (counters (st s) ! i) = (c', k)"
    by fastforce
  have "counters (st (segment_tick s)) ! i = c' \<and>
      position (sys (segment_tick s)) ! i = position (sys s) ! i + (if k then axis_step b i else 0)"
    using axis_ticks [of s0 i] s0 r i assms unfolding segment_tick_fields ticking_def s0_def [symmetric] by (simp add: N_AXIS_def)
  then show "\<exists>k. position (sys (segment_tick s)) ! i = position (sys s) ! i + of_nat k * axis_step b i \<and>
     counters (st (segment_tick s)) ! i \<le> st_step_event_count b \<and>
     unat (counters (st (segment_tick s)) ! i) + k * unat (st_step_event_count b) =
       unat (counters (st s) ! i) + unat (tick_steps (st s) ! i)"
    using bresenham_unat [OF _ _ _ r] assms i by (intro exI [of _ "if k then 1 else 0"]) (auto simp: ticking_def)
qed

lemma segment_tick_same_job: "length (counters (st s)) = 3 \<Longrightarrow> length (position (sys s)) = 3 \<Longrightarrow> same_job s (segment_tick s)"
  using axis_ticks [of "upd_st (\<lambda>t. t\<lparr>step_outbits := 0\<rparr>) (probe_state_monitor s)" 0]
  by (simp add: same_job_def segment_tick_fields)


text \<open>The interrupt with a segment loaded, and with one to be loaded.\<close>

lemma isr_ticks:
  assumes "ticking b s" "\<not> busy s" "exec_segment (st s) = Some g"
  shows "moved b (\<lambda>i. unat (tick_steps (st s) ! i)) s (MAIN_TIMER_ISR s) \<and> same_job s (MAIN_TIMER_ISR s) \<and>
    tick_steps (st (MAIN_TIMER_ISR s)) = tick_steps (st s) \<and>
    step_count (st (MAIN_TIMER_ISR s)) = step_count (st s) - 1 \<and>
    exec_segment (st (MAIN_TIMER_ISR s)) = (if step_count (st s) = 1 then None else exec_segment (st s)) \<and>
    segment_buffer_tail (MAIN_TIMER_ISR s) =
      (if step_count (st s) = 1 then if segment_buffer_tail s + 1 = 6 then 0 else segment_buffer_tail s + 1
       else segment_buffer_tail s)"
proof -
  define s1 where "s1 = (SET_STEP_BITS (step_outbits (st s)) (SET_DIRECTION_BITS (dir_outbits (st s)) s))
    \<lparr>pulse_timer_period := step_pulse_time (st s), pulse_timer_on := True, busy := True\<rparr>"
  have isr: "MAIN_TIMER_ISR s = segment_tick s1"
    using assms(2,3) by (simp add: MAIN_TIMER_ISR_def s1_def Let_def)
  have f: "st s1 = st s" "sys s1 = sys s" "segment_buffer_tail s1 = segment_buffer_tail s"
      "same_job s1 t = same_job s t" "exec_block_data s1 = exec_block_data s" for t
    by (auto simp: s1_def same_job_def exec_block_data_def split: option.split)
  have t: "ticking b s1"
    using assms(1) by (simp add: ticking_def f)
  have "moved b (\<lambda>i. unat (tick_steps (st s) ! i)) s (segment_tick s1)"
    using segment_tick_moved [OF t] by (simp add: moved_def f)
  moreover have "same_job s (segment_tick s1)"
    using segment_tick_same_job [of s1] t by (simp add: f ticking_def N_AXIS_def)
  ultimately show ?thesis
    unfolding isr by (simp add: segment_tick_fields f)
qed

lemma ticking_step:
  assumes "ticking b s" "moved b w s s'" "same_job s s'" "tick_steps (st s') = tick_steps (st s)"
  shows "ticking b s'"
proof -
  have "exec_block_data s' = exec_block_data s"
    using assms(3) by (intro exec_block_data_cong) (simp_all add: same_job_def)
  moreover have "\<forall>i<N_AXIS. counters (st s') ! i \<le> st_step_event_count b"
    using assms(2) unfolding moved_def by blast
  ultimately show ?thesis using assms(1,3,4) by (simp add: ticking_def same_job_def)
qed

text \<open>The rest of a segment: as many interrupts as its step count.\<close>

lemma segment_rest:
  assumes "ticking b s" "\<not> busy s" "exec_segment (st s) = Some g" "unat (step_count (st s)) = Suc n"
  shows "moved b (\<lambda>i. Suc n * unat (tick_steps (st s) ! i)) s ((MAIN_TIMER_ISR ^^ Suc n) s) \<and>
    same_job s ((MAIN_TIMER_ISR ^^ Suc n) s) \<and> exec_segment (st ((MAIN_TIMER_ISR ^^ Suc n) s)) = None \<and>
    segment_buffer_tail ((MAIN_TIMER_ISR ^^ Suc n) s) =
      (if segment_buffer_tail s + 1 = 6 then 0 else segment_buffer_tail s + 1)"
  using assms
proof (induction n arbitrary: s)
  case 0
  have "step_count (st s) = 1" using 0(4) by (metis One_nat_def unat_1 unsigned_word_eqI)
  then show ?case using isr_ticks [OF 0(1,2,3)] by simp
next
  case (Suc n)
  let ?s = "MAIN_TIMER_ISR s"
  have ne: "step_count (st s) \<noteq> 1" using Suc.prems(4) by auto
  have p: "moved b (\<lambda>i. unat (tick_steps (st s) ! i)) s ?s" "same_job s ?s"
      "tick_steps (st ?s) = tick_steps (st s)" "exec_segment (st ?s) = Some g"
      "segment_buffer_tail ?s = segment_buffer_tail s" "step_count (st ?s) = step_count (st s) - 1"
    using isr_ticks [OF Suc.prems(1,2,3)] ne Suc.prems(3) by auto
  have u: "unat (step_count (st ?s)) = Suc n"
    using Suc.prems(4) p(6) by (simp add: unat_sub word_le_nat_alt)
  have t: "ticking b ?s" by (rule ticking_step [OF Suc.prems(1) p(1-3)])
  have b: "\<not> busy ?s" using p(2) by (simp add: same_job_def)
  note IH = Suc.IH [OF t b p(4) u]
  have "(MAIN_TIMER_ISR ^^ Suc (Suc n)) s = (MAIN_TIMER_ISR ^^ Suc n) ?s"
    by (simp only: funpow_Suc_right o_apply)
  moreover have "moved b (\<lambda>i. Suc (Suc n) * unat (tick_steps (st s) ! i)) s ((MAIN_TIMER_ISR ^^ Suc n) ?s)"
    using moved_trans [OF p(1) IH [THEN conjunct1]] p(3) by simp
  ultimately show ?case using IH same_job_trans [OF p(2)] p(5) by auto
qed

text \<open>The start of the first segment of a block.\<close>

definition start_block :: "u8 \<Rightarrow> 'a step_state_scheme \<Rightarrow> 'a step_state_scheme" where
  "start_block j s =
     (let half = drop_bit 1 (st_step_event_count (st_block_buffer s ! unat j))
      in upd_st (\<lambda>t. t\<lparr>exec_block_index := j, exec_block := Some j, counters := [half, half, half]\<rparr>) s)"

text \<open>The state between two segments of the block \<open>j\<close> with the Bresenham data \<open>b\<close>.\<close>

definition between :: "st_block_t \<Rightarrow> u8 \<Rightarrow> 'a step_state_scheme \<Rightarrow> bool" where
  "between b j s = (length (counters (st s)) = N_AXIS \<and> length (position (sys s)) = N_AXIS \<and>
     exec_segment (st s) = None \<and> \<not> busy s \<and> exec_block (st s) = Some j \<and> exec_block_index (st s) = j \<and>
     st_block_buffer s ! unat j = b \<and> unat (st_step_event_count b) < 2 ^ 31 \<and> length (st_steps b) = N_AXIS \<and>
     (\<forall>i<N_AXIS. counters (st s) ! i \<le> st_step_event_count b \<and> st_steps b ! i \<le> st_step_event_count b))"

lemma drop_bit_word_le: "drop_bit n x \<le> (x :: u32)"
  by (simp add: word_le_nat_alt unat_drop_bit_eq) (simp add: drop_bit_eq_div)

lemma isr_loads:
  fixes s :: "'a step_state_scheme"
  assumes bt: "between b j s" and ne: "segment_buffer_head s \<noteq> segment_buffer_tail s"
    and g: "segment_buffer s ! unat (segment_buffer_tail s) = g" and j: "seg_block_index g = j"
  defines "ticks \<equiv> map (drop_bit (unat (amass_level g))) (st_steps b)"
  shows "moved b (\<lambda>i. unat (ticks ! i)) s (MAIN_TIMER_ISR s) \<and> same_job s (MAIN_TIMER_ISR s) \<and>
    tick_steps (st (MAIN_TIMER_ISR s)) = ticks \<and>
    step_count (st (MAIN_TIMER_ISR s)) = n_step g - 1 \<and>
    exec_segment (st (MAIN_TIMER_ISR s)) = (if n_step g = 1 then None else Some (segment_buffer_tail s)) \<and>
    segment_buffer_tail (MAIN_TIMER_ISR s) =
      (if n_step g = 1 then if segment_buffer_tail s + 1 = 6 then 0 else segment_buffer_tail s + 1
       else segment_buffer_tail s)"
proof -
  define s1 where "s1 = (SET_STEP_BITS (step_outbits (st s)) (SET_DIRECTION_BITS (dir_outbits (st s)) s))
    \<lparr>pulse_timer_period := step_pulse_time (st s), pulse_timer_on := True, busy := True\<rparr>"
  have f: "st s1 = st s" "sys s1 = sys s" "segment_buffer_tail s1 = segment_buffer_tail s"
      "segment_buffer_head s1 = segment_buffer_head s" "segment_buffer s1 = segment_buffer s"
      "st_block_buffer s1 = st_block_buffer s"
    by (simp_all add: s1_def)
  obtain s2 where s2: "load_segment s1 = Some s2"
    using ne by (simp add: load_segment_def f Let_def)
  have l: "counters (st s2) = counters (st s)" "sys s2 = sys s" "tick_steps (st s2) = ticks"
      "exec_block_data s2 = b" "step_count (st s2) = n_step g" "exec_segment (st s2) = Some (segment_buffer_tail s)"
      "segment_buffer_tail s2 = segment_buffer_tail s" "segment_buffer_head s2 = segment_buffer_head s"
      "segment_buffer s2 = segment_buffer s" "st_block_buffer s2 = st_block_buffer s"
      "exec_block (st s2) = exec_block (st s)" "exec_block_index (st s2) = exec_block_index (st s)"
    using s2 ne bt g j unfolding load_segment_def ticks_def
    by (auto simp: f Let_def between_def exec_block_data_def)
  have isr: "MAIN_TIMER_ISR s = segment_tick s2"
    using bt s2 by (simp add: MAIN_TIMER_ISR_def s1_def Let_def between_def)
  have t: "ticking b s2"
    using bt unfolding ticking_def l between_def ticks_def
    by (auto intro: order_trans [OF drop_bit_word_le])
  have "moved b (\<lambda>i. unat (ticks ! i)) s (segment_tick s2)"
    using segment_tick_moved [OF t] by (simp add: moved_def l)
  moreover have "same_job s (segment_tick s2)"
    using segment_tick_same_job [of s2] t by (simp add: l ticking_def N_AXIS_def same_job_def)
  ultimately show ?thesis
    unfolding isr by (simp add: segment_tick_fields l)
qed

text \<open>A whole segment.\<close>

lemma segment_run:
  assumes bt: "between b j s" and ne: "segment_buffer_head s \<noteq> segment_buffer_tail s"
    and g: "segment_buffer s ! unat (segment_buffer_tail s) = g" and j: "seg_block_index g = j" and n: "n_step g \<noteq> 0"
  shows "moved b (\<lambda>i. unat (n_step g) * unat (drop_bit (unat (amass_level g)) (st_steps b ! i))) s
      ((MAIN_TIMER_ISR ^^ unat (n_step g)) s) \<and>
    same_job s ((MAIN_TIMER_ISR ^^ unat (n_step g)) s) \<and> between b j ((MAIN_TIMER_ISR ^^ unat (n_step g)) s) \<and>
    segment_buffer_tail ((MAIN_TIMER_ISR ^^ unat (n_step g)) s) =
      (if segment_buffer_tail s + 1 = 6 then 0 else segment_buffer_tail s + 1)"
proof -
  let ?s = "MAIN_TIMER_ISR s" and ?ticks = "map (drop_bit (unat (amass_level g))) (st_steps b)"
  have p: "moved b (\<lambda>i. unat (?ticks ! i)) s ?s" "same_job s ?s" "tick_steps (st ?s) = ?ticks"
      "step_count (st ?s) = n_step g - 1"
    using isr_loads [OF bt ne g j] by auto
  obtain k where k: "unat (n_step g) = Suc k" using n by (metis not0_implies_Suc unat_eq_0)
  have main: "moved b (\<lambda>i. Suc k * unat (?ticks ! i)) s ((MAIN_TIMER_ISR ^^ Suc k) s) \<and>
     same_job s ((MAIN_TIMER_ISR ^^ Suc k) s) \<and> exec_segment (st ((MAIN_TIMER_ISR ^^ Suc k) s)) = None \<and>
     segment_buffer_tail ((MAIN_TIMER_ISR ^^ Suc k) s) =
      (if segment_buffer_tail s + 1 = 6 then 0 else segment_buffer_tail s + 1)"
  proof (cases k)
    case 0
    then have "n_step g = 1" using k by (metis One_nat_def unat_1 unsigned_word_eqI)
    then show ?thesis using isr_loads [OF bt ne g j] 0 by simp
  next
    case (Suc m)
    have "n_step g \<noteq> 1" using k Suc by auto
    then have q: "exec_segment (st ?s) = Some (segment_buffer_tail s)" "segment_buffer_tail ?s = segment_buffer_tail s"
      using isr_loads [OF bt ne g j] by auto
    have cnt: "unat (step_count (st ?s)) = Suc m"
      using k Suc p(4) by (simp add: unat_sub word_le_nat_alt)
    have "exec_block_data ?s = b" "length (counters (st ?s)) = N_AXIS" "length (position (sys ?s)) = N_AXIS" "\<not> busy ?s"
      using p(2) bt by (auto simp: same_job_def between_def exec_block_data_def)
    moreover have "\<forall>i<N_AXIS. counters (st ?s) ! i \<le> st_step_event_count b"
      using p(1) unfolding moved_def by blast
    moreover have "\<forall>i<N_AXIS. ?ticks ! i \<le> st_step_event_count b"
      using bt by (auto simp: between_def intro: order_trans [OF drop_bit_word_le])
    ultimately have t: "ticking b ?s" "\<not> busy ?s"
      using bt by (auto simp: ticking_def p(3) between_def)
    note r = segment_rest [OF t q(1) cnt]
    have "(MAIN_TIMER_ISR ^^ Suc k) s = (MAIN_TIMER_ISR ^^ Suc m) ?s"
      unfolding Suc by (simp only: funpow_Suc_right o_apply)
    moreover have "moved b (\<lambda>i. Suc k * unat (?ticks ! i)) s ((MAIN_TIMER_ISR ^^ Suc m) ?s)"
      using moved_trans [OF p(1) r [THEN conjunct1]] by (simp add: p(3) Suc)
    ultimately show ?thesis using r same_job_trans [OF p(2)] q(2) by simp
  qed
  let ?e = "(MAIN_TIMER_ISR ^^ Suc k) s"
  have "\<forall>i<N_AXIS. counters (st ?e) ! i \<le> st_step_event_count b"
    using main unfolding moved_def by blast
  then have "between b j ?e"
    using main bt by (simp add: between_def same_job_def)
  moreover have "moved b (\<lambda>i. Suc k * unat (drop_bit (unat (amass_level g)) (st_steps b ! i))) s ?e"
    using main bt by (simp add: moved_def between_def)
  ultimately show ?thesis using main unfolding k by blast
qed


section \<open>Tracing a block\<close>

definition seg_ring :: "'a step_state_scheme \<Rightarrow> bool" where
  "seg_ring s = (length (segment_buffer s) = unat SEGMENT_BUFFER_SIZE \<and>
     segment_buffer_head s < SEGMENT_BUFFER_SIZE \<and> segment_buffer_tail s < SEGMENT_BUFFER_SIZE)"

definition segments :: "'a step_state_scheme \<Rightarrow> segment_t list" where
  "segments s = ring_list (segment_buffer s) (unat (segment_buffer_head s)) (unat (segment_buffer_tail s))"

lemma segments_pop:
  assumes "seg_ring s" "segments s = g # gs" "same_job s s'"
    "segment_buffer_tail s' = (if segment_buffer_tail s + 1 = 6 then 0 else segment_buffer_tail s + 1)"
  shows "seg_ring s' \<and> segments s' = gs \<and> segment_buffer_head s \<noteq> segment_buffer_tail s \<and>
    segment_buffer s ! unat (segment_buffer_tail s) = g"
proof -
  have len: "length (segment_buffer s) = 6" "unat (segment_buffer_head s) < 6" "unat (segment_buffer_tail s) < 6"
    using assms(1) by (simp_all add: seg_ring_def word_less_nat_alt)
  have ne: "unat (segment_buffer_head s) \<noteq> unat (segment_buffer_tail s)"
    using assms(2) by (auto simp: segments_def)
  have s1: "unat (segment_buffer_tail s + 1) = unat (segment_buffer_tail s) + 1"
    using len(3) by (simp add: unat_word_ariths)
  have t: "unat (segment_buffer_tail s') = ring_next 6 (unat (segment_buffer_tail s))"
    using s1 unfolding assms(4) ring_next_def by (auto simp: word_unat_eq_iff)
  then have "unat (segment_buffer_tail s') < 6" using len(3) by (simp add: ring_next_less)
  then show ?thesis
    using ring_list_get [OF len ne] assms(2,3) len ne t
    by (auto simp: seg_ring_def segments_def same_job_def word_less_nat_alt)
qed

lemma segments_run:
  assumes "between b j s" "seg_ring s" "segments s = gs @ rest"
    "\<forall>g\<in>set gs. seg_block_index g = j \<and> n_step g \<noteq> 0"
  shows "\<exists>s'. s' = (MAIN_TIMER_ISR ^^ (\<Sum>g\<leftarrow>gs. unat (n_step g))) s \<and>
    moved b (\<lambda>i. \<Sum>g\<leftarrow>gs. unat (n_step g) * unat (drop_bit (unat (amass_level g)) (st_steps b ! i))) s s' \<and>
    between b j s' \<and> segments s' = rest"
  using assms
proof (induction gs arbitrary: s)
  case Nil
  then show ?case by (auto simp: moved_def between_def intro!: exI [of _ 0])
next
  case (Cons g gs)
  let ?s = "(MAIN_TIMER_ISR ^^ unat (n_step g)) s"
  have ne: "segment_buffer_head s \<noteq> segment_buffer_tail s" "segment_buffer s ! unat (segment_buffer_tail s) = g"
    using segments_pop [OF Cons.prems(2), of g "gs @ rest" "s\<lparr>busy := False, segment_buffer_tail :=
      (if segment_buffer_tail s + 1 = 6 then 0 else segment_buffer_tail s + 1)\<rparr>"] Cons.prems(3)
    by (simp_all add: same_job_def)
  have r: "moved b (\<lambda>i. unat (n_step g) * unat (drop_bit (unat (amass_level g)) (st_steps b ! i))) s ?s"
      "same_job s ?s" "between b j ?s"
      "segment_buffer_tail ?s = (if segment_buffer_tail s + 1 = 6 then 0 else segment_buffer_tail s + 1)"
    using segment_run [OF Cons.prems(1) ne] Cons.prems(4) by auto
  have q: "seg_ring ?s" "segments ?s = gs @ rest"
    using segments_pop [OF Cons.prems(2) _ r(2,4)] Cons.prems(3) by auto
  obtain s' where s': "s' = (MAIN_TIMER_ISR ^^ (\<Sum>g\<leftarrow>gs. unat (n_step g))) ?s"
      "moved b (\<lambda>i. \<Sum>g\<leftarrow>gs. unat (n_step g) * unat (drop_bit (unat (amass_level g)) (st_steps b ! i))) ?s s'"
      "between b j s'" "segments s' = rest"
    using Cons.IH [OF r(3) q] Cons.prems(4) by auto
  have "s' = (MAIN_TIMER_ISR ^^ (\<Sum>g\<leftarrow>g # gs. unat (n_step g))) s"
    unfolding s'(1) by (simp add: funpow_add [symmetric, THEN fun_cong, unfolded o_apply] add.commute)
  then show ?case using moved_trans [OF r(1) s'(2)] s'(3,4) by auto
qed

lemma bresenham_total:
  fixes c k m n :: nat
  assumes "c + k * (8 * n) = 4 * n + m * (8 * n)" "c \<le> 8 * n" "0 < n"
  shows "k = m"
proof (rule ccontr)
  assume "k \<noteq> m"
  then consider "Suc k \<le> m" | "Suc m \<le> k" by linarith
  then show False
  proof cases
    case 1
    from mult_le_mono1 [OF this, of "8 * n"] show ?thesis using assms by simp
  next
    case 2
    from mult_le_mono1 [OF this, of "8 * n"] show ?thesis using assms by simp
  qed
qed

text \<open>The first interrupt of a block loads it: as if the block had been started before.\<close>

lemma isr_starts_block:
  assumes "\<not> busy s" "exec_segment (st s) = None" "segment_buffer_head s \<noteq> segment_buffer_tail s"
    "seg_block_index (segment_buffer s ! unat (segment_buffer_tail s)) = j" "exec_block_index (st s) \<noteq> j"
  shows "MAIN_TIMER_ISR (start_block j s) = MAIN_TIMER_ISR s"
proof -
  let ?out = "\<lambda>s. (SET_STEP_BITS (step_outbits (st s)) (SET_DIRECTION_BITS (dir_outbits (st s)) s))
    \<lparr>pulse_timer_period := step_pulse_time (st s), pulse_timer_on := True, busy := True\<rparr>"
  have "load_segment (?out (start_block j s)) = load_segment (?out s)"
    using assms by (simp add: load_segment_def start_block_def Let_def upd_st_def SET_STEP_BITS_def
        SET_DIRECTION_BITS_def exec_block_data_def)
  moreover obtain s2 where "load_segment (?out s) = Some s2"
    using assms(3) by (simp add: load_segment_def Let_def)
  ultimately show ?thesis
    using assms(1,2) by (simp add: MAIN_TIMER_ISR_def Let_def start_block_def)
qed

lemma push_drop_bit_3:
  assumes "unat x < 2 ^ 28" "l \<le> 3"
  shows "unat (drop_bit l (push_bit 3 x :: u32)) = unat x * 2 ^ (3 - l)"
proof -
  have "unat (push_bit 3 x) = 8 * unat x"
    using assms(1) by (simp add: push_bit_eq_mult unat_word_ariths)
  then have "unat (drop_bit l (push_bit 3 x)) = 8 * unat x div 2 ^ l"
    by (simp only: unat_drop_bit_eq) (simp only: drop_bit_eq_div)
  moreover have "l = 0 \<or> l = 1 \<or> l = 2 \<or> l = 3" using assms(2) by arith
  ultimately show ?thesis by (elim disjE) (simp_all add: div_eq_dividend_iff)
qed

lemma block_traced:
  fixes s :: "'a step_state_scheme"
  assumes len: "length (counters (st s)) = N_AXIS" "length (position (sys s)) = N_AXIS"
    and idle: "\<not> busy s" "exec_segment (st s) = None" "exec_block_index (st s) \<noteq> j"
    and ring: "seg_ring s" "segments s = gs @ rest" "gs \<noteq> []"
    and gs: "\<forall>g\<in>set gs. seg_block_index g = j \<and> n_step g \<noteq> 0 \<and> unat (amass_level g) \<le> MAX_AMASS_LEVEL"
    and b: "st_block_buffer s ! unat j = st_block_of b" "length (steps b) = N_AXIS"
      "\<forall>i<N_AXIS. steps b ! i \<le> step_event_count b"
      "0 < step_event_count b" "unat (step_event_count b) < 2 ^ 28"
    and total: "(\<Sum>g\<leftarrow>gs. unat (n_step g) * 2 ^ (MAX_AMASS_LEVEL - unat (amass_level g))) = 2 ^ MAX_AMASS_LEVEL * unat (step_event_count b)"
  shows "\<forall>i<N_AXIS. position (sys ((MAIN_TIMER_ISR ^^ (\<Sum>g\<leftarrow>gs. unat (n_step g))) s)) ! i =
    position (sys s) ! i + (if bit_istrue (direction_bits b) (get_direction_pin_mask i) then - (steps b ! i) else steps b ! i)"
proof (intro allI impI)
  fix i :: nat assume i: "i < N_AXIS"
  let ?b = "st_block_of b" and ?s = "start_block j s" and ?n = "\<Sum>g\<leftarrow>gs. unat (n_step g)"
  obtain g gs' where g: "gs = g # gs'" using ring(3) by (cases gs) auto
  have pop: "segment_buffer_head s \<noteq> segment_buffer_tail s" "segment_buffer s ! unat (segment_buffer_tail s) = g"
    using segments_pop [OF ring(1), of g "gs' @ rest" "s\<lparr>busy := False, segment_buffer_tail :=
      (if segment_buffer_tail s + 1 = 6 then 0 else segment_buffer_tail s + 1)\<rparr>"] ring(2) g
    by (simp_all add: same_job_def)
  have N8: "unat (st_step_event_count ?b) = 8 * unat (step_event_count b)"
    using push_drop_bit_3 [of "step_event_count b" 0] b(5) by (simp add: st_block_of_def)
  have half: "unat (drop_bit 1 (st_step_event_count ?b)) = 4 * unat (step_event_count b)"
    using push_drop_bit_3 [of "step_event_count b" 1] b(5) by (simp add: st_block_of_def)
  have small: "unat (steps b ! i) \<le> unat (step_event_count b)" if "i < N_AXIS" for i
    using b(3) that by (simp add: word_le_nat_alt)
  have st8: "unat (st_steps ?b ! i) = 8 * unat (steps b ! i)" if "i < N_AXIS" for i
    using push_drop_bit_3 [of "steps b ! i" 0] small [OF that] b(2,5) that by (simp add: st_block_of_def)
  have cnt: "counters (st ?s) ! i = drop_bit 1 (st_step_event_count ?b)" if "i < N_AXIS" for i
    using that b(1) by (auto simp: start_block_def Let_def N_AXIS_def nth_Cons' less_Suc_eq)
  have "between ?b j ?s"
    unfolding between_def
  proof (intro conjI allI impI)
    fix k assume k: "k < N_AXIS"
    show "counters (st ?s) ! k \<le> st_step_event_count ?b"
      using cnt [OF k] drop_bit_word_le by metis
    show "st_steps ?b ! k \<le> st_step_event_count ?b"
      using small [OF k] st8 [OF k] N8 by (simp add: word_le_nat_alt)
  qed (use len idle b N8 in \<open>simp_all add: start_block_def Let_def N_AXIS_def st_block_of_def\<close>)
  moreover have "seg_ring ?s" "segments ?s = gs @ rest"
    using ring by (simp_all add: seg_ring_def segments_def start_block_def Let_def)
  ultimately have m: "moved ?b (\<lambda>i. \<Sum>g\<leftarrow>gs. unat (n_step g) * unat (drop_bit (unat (amass_level g)) (st_steps ?b ! i)))
      ?s ((MAIN_TIMER_ISR ^^ ?n) ?s)"
    using segments_run [of ?b j ?s gs rest] gs by auto
  have "(MAIN_TIMER_ISR ^^ ?n) ?s = (MAIN_TIMER_ISR ^^ ?n) s"
  proof -
    obtain k where k: "?n = Suc k" using gs g by (cases "unat (n_step g)") (auto simp: unat_eq_0)
    have "MAIN_TIMER_ISR ?s = MAIN_TIMER_ISR s"
      using isr_starts_block [OF idle(1,2) pop(1), of j] pop(2) gs g idle(3) by simp
    then show ?thesis unfolding k by (simp only: funpow_Suc_right o_apply)
  qed
  moreover have "(\<Sum>g\<leftarrow>gs. unat (n_step g) * unat (drop_bit (unat (amass_level g)) (st_steps ?b ! i)))
      = unat (steps b ! i) * (8 * unat (step_event_count b))"
  proof -
    have "(\<Sum>g\<leftarrow>gs. unat (n_step g) * unat (drop_bit (unat (amass_level g)) (st_steps ?b ! i)))
      = (\<Sum>g\<leftarrow>gs. unat (steps b ! i) * (unat (n_step g) * 2 ^ (3 - unat (amass_level g))))"
      using gs push_drop_bit_3 [of "steps b ! i"] small [OF i] b(2,5) i
      by (intro arg_cong [where f = sum_list] map_cong) (auto simp: st_block_of_def)
    then show ?thesis using total by (simp add: sum_list_const_mult)
  qed
  ultimately obtain k where k: "position (sys ((MAIN_TIMER_ISR ^^ ?n) s)) ! i = position (sys ?s) ! i + of_nat k * axis_step ?b i"
      "counters (st ((MAIN_TIMER_ISR ^^ ?n) s)) ! i \<le> st_step_event_count ?b"
      "unat (counters (st ((MAIN_TIMER_ISR ^^ ?n) s)) ! i) + k * unat (st_step_event_count ?b) =
        unat (counters (st ?s) ! i) + unat (steps b ! i) * (8 * unat (step_event_count b))"
    using m i unfolding moved_def by auto
  have "k = unat (steps b ! i)"
    using bresenham_total [of "unat (counters (st ((MAIN_TIMER_ISR ^^ ?n) s)) ! i)" k "unat (step_event_count b)"]
      k(2,3) cnt [OF i] half N8 b(4) by (simp add: word_le_nat_alt word_less_nat_alt)
  then show "position (sys ((MAIN_TIMER_ISR ^^ ?n) s)) ! i = position (sys s) ! i +
      (if bit_istrue (direction_bits b) (get_direction_pin_mask i) then - (steps b ! i) else steps b ! i)"
    using k(1) by (simp add: axis_step_def st_block_of_def start_block_def Let_def)
qed


text \<open>A block of two steps along X and one back along Y, as two segments of different smoothing.\<close>

definition example_block :: plan_block_t where
  "example_block = zero_block\<lparr>direction_bits := get_direction_pin_mask Y_AXIS, steps := [2, 1, 0], step_event_count := 2\<rparr>"

definition example_segments :: "segment_t list" where
  "example_segments =
     [\<lparr>n_step = 2, seg_block_index = 1, cycles_per_tick = 1000, amass_level = 1\<rparr>,
      \<lparr>n_step = 1, seg_block_index = 1, cycles_per_tick = 1500, amass_level = 0\<rparr>]"

definition example_machine :: machine where
  "example_machine = (zero_machine fresh_flash)
     \<lparr>st_block_buffer := [zero_st_block, st_block_of example_block], segment_buffer_head := 2,
      segment_buffer := example_segments @ replicate 4 (hd example_segments)\<rparr>"

lemmas example_defs = example_machine_def zero_machine_def zero_stepper_def zero_system_def


end
