(* ===== verification/StepInvariant.thy ===== *)
theory StepInvariant
  imports StepTrace
begin

text \<open>
  Invariants of the planner and the stepper.  The locales \<open>planner_invariant\<close>,
  \<open>prep_invariant\<close> and \<open>step_invariant\<close> assume of a predicate that it survives the changes of
  single fields, within their ranges; their lemmas carry it through the planner's passes, the
  segment preparation and the interrupts.
\<close>

lemma pred_bind:
  "pred_option Q x \<Longrightarrow> (\<And>a. Q a \<Longrightarrow> pred_option P (f a)) \<Longrightarrow> pred_option P (x \<bind> f)"
  by (cases x) auto

lemma pred_optionI: "(\<And>y. x = Some y \<Longrightarrow> P y) \<Longrightarrow> pred_option P x"
  by (cases x) auto

lemma pred_optionD: "pred_option P x \<Longrightarrow> x = Some y \<Longrightarrow> P y"
  by auto

lemma pred_if: "(c \<Longrightarrow> pred_option P x) \<Longrightarrow> (\<not> c \<Longrightarrow> pred_option P y) \<Longrightarrow> pred_option P (if c then x else y)"
  by simp

lemma pred_Some: "P m \<Longrightarrow> pred_option P (Some m)" "Q m \<Longrightarrow> pred_option (\<lambda>r. Q (snd r)) (Some (a, m))"
  by simp_all

lemma pred_raw: "(\<And>x y. f x = Some y \<Longrightarrow> P x \<longrightarrow> Q y) \<Longrightarrow> P x \<Longrightarrow> pred_option Q (f x)"
  by (cases "f x") auto

lemma plan_next_less: "i < BLOCK_BUFFER_SIZE \<Longrightarrow> plan_next_block_index i < BLOCK_BUFFER_SIZE"
proof (cases "i + 1 = BLOCK_BUFFER_SIZE")
  case False
  assume i: "i < BLOCK_BUFFER_SIZE"
  then have "unat (i + 1) = unat i + 1" by (simp add: unat_word_ariths word_less_nat_alt)
  moreover from this False have "unat i + 1 \<noteq> 18" by (simp add: word_unat_eq_iff)
  ultimately show ?thesis using i False by (simp add: plan_next_block_index_def word_less_nat_alt)
qed (simp add: plan_next_block_index_def)

lemma plan_prev_less: "i < BLOCK_BUFFER_SIZE \<Longrightarrow> plan_prev_block_index i < BLOCK_BUFFER_SIZE"
proof (cases "i = 0")
  case False
  assume i: "i < BLOCK_BUFFER_SIZE"
  have "unat (i - 1) = unat i - 1" using False by (simp add: unat_sub word_le_nat_alt unat_gt_0 Suc_le_eq)
  then show ?thesis using i False by (simp add: plan_prev_block_index_def word_less_nat_alt)
qed (simp add: plan_prev_block_index_def)

section \<open>The planner\<close>

text \<open>The path of a block: what it makes the motors do, whatever its speeds are.\<close>

definition block_path :: "plan_block_t \<Rightarrow> u16 \<times> u32 vec \<times> u32" where
  "block_path b = (direction_bits b, steps b, step_event_count b)"

lemma block_path_keeps [simp]:
  "block_path (entry_speed_sqr_update f b) = block_path b" "block_path (millimeters_update f b) = block_path b"
  "block_path (block_acceleration_update f b) = block_path b" "block_path (max_junction_speed_sqr_update f b) = block_path b"
  "block_path (nominal_speed_sqr_update f b) = block_path b" "block_path (max_entry_speed_sqr_update f b) = block_path b"
  by (simp_all add: block_path_def)

locale planner_invariant =
  fixes P :: "'a plan_state_scheme \<Rightarrow> bool"
  assumes P_tail: "P s \<Longrightarrow> block_buffer_tail s < BLOCK_BUFFER_SIZE"
    and P_head: "P s \<Longrightarrow> block_buffer_head s < BLOCK_BUFFER_SIZE"
    and P_planned: "P s \<Longrightarrow> block_buffer_planned s < BLOCK_BUFFER_SIZE"
    and P_upd_block: "P s \<Longrightarrow> (\<And>b. block_path (f b) = block_path b) \<Longrightarrow> P (upd_block i f s)"
    and P_put_planned: "P s \<Longrightarrow> i < BLOCK_BUFFER_SIZE \<Longrightarrow> P (s\<lparr>block_buffer_planned := i\<rparr>)"
    and P_put_tail: "P s \<Longrightarrow> i < BLOCK_BUFFER_SIZE \<Longrightarrow> P (s\<lparr>block_buffer_tail := i\<rparr>)"
    and P_put_pl_block: "P s \<Longrightarrow> \<forall>i. b = Some i \<longrightarrow> i < BLOCK_BUFFER_SIZE \<Longrightarrow> P (s\<lparr>pl_block := b\<rparr>)"
    and P_put_prep: "P s \<Longrightarrow> prep_block_index p = prep_block_index (prep s) \<Longrightarrow> P (s\<lparr>prep := p\<rparr>)"
begin

lemma P_if: "(c \<Longrightarrow> P m) \<Longrightarrow> (\<not> c \<Longrightarrow> P n) \<Longrightarrow> P (if c then m else n)"
  by simp

lemma P_entry: "P s \<Longrightarrow> P (set_entry i v s)"
  by (rule P_upd_block) simp_all

lemma P_st_update: "P s \<Longrightarrow> P (st_update_plan_block_parameters s)"
  unfolding st_update_plan_block_parameters_def
  by (auto split: option.split intro!: P_put_pl_block P_entry P_put_prep)

lemma P_reverse: "P s \<Longrightarrow> i < BLOCK_BUFFER_SIZE \<Longrightarrow> pred_option P (reverse_pass c i s)"
proof (rule pred_optionI)
  fix r assume "reverse_pass c i s = Some r" and "P s" "i < BLOCK_BUFFER_SIZE"
  then show "P r"
  proof (induction rule: reverse_pass.raw_induct [rotated, consumes 1, case_names step])
    case (step f c i s r)
    have f: "pred_option P (f c i s)" if "P s" "i < BLOCK_BUFFER_SIZE" for c i s
      by (rule pred_optionI) (use step.IH that in blast)
    show "P r"
      by (rule pred_optionD [OF _ step.hyps], unfold Let_def)
        (intro pred_if pred_Some f step.prems P_if P_entry P_st_update plan_prev_less)
  qed
qed

lemma P_forward: "P s \<Longrightarrow> i < BLOCK_BUFFER_SIZE \<Longrightarrow> pred_option P (forward_pass c i s)"
proof (rule pred_optionI)
  fix r assume "forward_pass c i s = Some r" and "P s" "i < BLOCK_BUFFER_SIZE"
  then show "P r"
  proof (induction rule: forward_pass.raw_induct [rotated, consumes 1, case_names step])
    case (step f c i s r)
    have f: "pred_option P (f c i s)" if "P s" "i < BLOCK_BUFFER_SIZE" for c i s
      by (rule pred_optionI) (use step.IH that in blast)
    show "P r"
      by (rule pred_optionD [OF _ step.hyps], unfold Let_def)
        (intro pred_if pred_Some f step.prems P_if P_entry P_put_planned plan_next_less)
  qed
qed

lemma P_recalculate: "P s \<Longrightarrow> pred_option P (planner_recalculate s)"
  unfolding planner_recalculate_def Let_def
  by (intro pred_if pred_Some pred_bind [where Q = P] P_reverse P_forward P_if P_st_update P_entry
      plan_prev_less plan_next_less P_head P_planned)

lemma P_reinitialize: "P s \<Longrightarrow> pred_option P (plan_cycle_reinitialize s)"
  unfolding plan_cycle_reinitialize_def Let_def by (intro P_recalculate P_put_planned P_st_update P_tail)

lemma P_discard: "P s \<Longrightarrow> P (plan_discard_current_block s)"
  unfolding plan_discard_current_block_def Let_def
  by (intro P_if P_put_tail P_put_planned plan_next_less P_tail)

end

section \<open>The stepper\<close>

text \<open>What the interrupt's own variables must satisfy.\<close>

definition stepper_ok :: "stepper_t \<Rightarrow> bool" where
  "stepper_ok t = (length (counters t) = N_AXIS \<and> length (tick_steps t) = N_AXIS \<and>
     (\<forall>j. exec_block t = Some j \<longrightarrow> j < SEGMENT_BUFFER_SIZE - 1) \<and>
     (\<forall>j. exec_segment t = Some j \<longrightarrow> j < SEGMENT_BUFFER_SIZE))"

definition blocks_ok :: "plan_block_t list \<Rightarrow> bool" where
  "blocks_ok bs = (length bs = unat BLOCK_BUFFER_SIZE \<and> (\<forall>b\<in>set bs. length (steps b) = N_AXIS))"

definition st_blocks_ok :: "st_block_t list \<Rightarrow> bool" where
  "st_blocks_ok bs = (length bs = unat SEGMENT_BUFFER_SIZE - 1 \<and> (\<forall>b\<in>set bs. length (st_steps b) = N_AXIS))"

definition segments_ok :: "segment_t list \<Rightarrow> bool" where
  "segments_ok gs = (length gs = unat SEGMENT_BUFFER_SIZE \<and> (\<forall>g\<in>set gs. seg_block_index g < SEGMENT_BUFFER_SIZE - 1))"

lemma all_set_update: "(\<forall>x\<in>set xs. Q x) \<Longrightarrow> Q y \<Longrightarrow> \<forall>x\<in>set (xs[i := y]). Q x"
  using set_update_subset_insert [of xs i y] by auto

lemma st_blocks_ok_put: "st_blocks_ok bs \<Longrightarrow> length (st_steps b) = N_AXIS \<Longrightarrow> st_blocks_ok (bs[i := b])"
  unfolding st_blocks_ok_def using all_set_update [of bs "\<lambda>b. length (st_steps b) = N_AXIS" b i] by simp

lemma segments_ok_put: "segments_ok gs \<Longrightarrow> seg_block_index g < SEGMENT_BUFFER_SIZE - 1 \<Longrightarrow> segments_ok (gs[i := g])"
  unfolding segments_ok_def using all_set_update [of gs "\<lambda>g. seg_block_index g < SEGMENT_BUFFER_SIZE - 1" g i] by simp

lemma segments_ok_nth: "segments_ok gs \<Longrightarrow> i < SEGMENT_BUFFER_SIZE \<Longrightarrow> seg_block_index (gs ! unat i) < SEGMENT_BUFFER_SIZE - 1"
  by (simp add: segments_ok_def word_less_nat_alt)

lemma ramp_step_index: "prep_block_index (fst (ramp_step b pl)) = prep_block_index (fst pl)"
  by (cases pl) (simp add: ramp_step_def accel_ramp_def cruise_ramp_def decel_ramp_def Let_def)

lemma segment_ramps_index:
  "pred_option (\<lambda>r. prep_block_index (fst r) = prep_block_index (fst pl)) (segment_ramps b mm pl)"
proof (rule pred_optionI)
  fix r assume "segment_ramps b mm pl = Some r"
  then show "prep_block_index (fst r) = prep_block_index (fst pl)"
  proof (induction rule: segment_ramps.raw_induct [rotated, consumes 1, case_names step])
    case (step f b mm pl r)
    then show ?case
      using ramp_step_index [of b pl]
      by (cases "ramp_step b pl") (auto simp: Let_def split: if_splits)
  qed
qed

locale prep_invariant = planner_invariant P
  for P :: "'a step_state_scheme \<Rightarrow> bool" +
  assumes P_blocks: "P s \<Longrightarrow> blocks_ok (block_buffer s)"
    and P_st_blocks: "P s \<Longrightarrow> st_blocks_ok (st_block_buffer s)"
    and P_put_st_blocks: "P s \<Longrightarrow> st_blocks_ok bs \<Longrightarrow> P (s\<lparr>st_block_buffer := bs\<rparr>)"
    and P_segments: "P s \<Longrightarrow> segments_ok (segment_buffer s)"
    and P_put_segments: "P s \<Longrightarrow> segments_ok gs \<Longrightarrow> P (s\<lparr>segment_buffer := gs\<rparr>)"
    and P_seg_indices: "P s \<Longrightarrow> segment_buffer_tail s < SEGMENT_BUFFER_SIZE \<and>
      segment_buffer_head s < SEGMENT_BUFFER_SIZE \<and> segment_next_head s < SEGMENT_BUFFER_SIZE"
    and P_put_seg_head: "P s \<Longrightarrow> i < SEGMENT_BUFFER_SIZE \<Longrightarrow> P (s\<lparr>segment_buffer_head := i\<rparr>)"
    and P_put_seg_next: "P s \<Longrightarrow> i < SEGMENT_BUFFER_SIZE \<Longrightarrow> P (s\<lparr>segment_next_head := i\<rparr>)"
    and P_prep_index: "P s \<Longrightarrow> prep_block_index (prep s) < SEGMENT_BUFFER_SIZE - 1"
    and P_prep_any: "P s \<Longrightarrow> prep_block_index p < SEGMENT_BUFFER_SIZE - 1 \<Longrightarrow> P (s\<lparr>prep := p\<rparr>)"
    and P_put_st_prep: "P s \<Longrightarrow> P (s\<lparr>st_prep_block := sb\<rparr>)"
begin

lemma next_segment: "i < SEGMENT_BUFFER_SIZE \<Longrightarrow> (if i + 1 = SEGMENT_BUFFER_SIZE then 0 else i + 1) < SEGMENT_BUFFER_SIZE"
proof (cases "i + 1 = SEGMENT_BUFFER_SIZE")
  case False
  assume i: "i < SEGMENT_BUFFER_SIZE"
  then have "unat (i + 1) = unat i + 1" by (simp add: unat_word_ariths word_less_nat_alt)
  moreover from this False have "unat i + 1 \<noteq> 6" by (simp add: word_unat_eq_iff)
  ultimately show ?thesis using i False by (simp add: word_less_nat_alt)
qed simp

lemma P_upd_prep: "P s \<Longrightarrow> prep_block_index (f (prep s)) < SEGMENT_BUFFER_SIZE - 1 \<Longrightarrow> P (upd_prep f s)"
  by (simp add: upd_prep_def P_prep_any)

text \<open>The segment preparation.\<close>

lemma block_at_ok: "P s \<Longrightarrow> i < BLOCK_BUFFER_SIZE \<Longrightarrow> length (steps (block_at s i)) = N_AXIS"
  using P_blocks [of s] by (auto simp: blocks_ok_def block_at_def word_less_nat_alt)

lemma prep_index_next:
  "i < SEGMENT_BUFFER_SIZE - 1 \<Longrightarrow> (if i + 1 = SEGMENT_BUFFER_SIZE - 1 then 0 else i + 1) < SEGMENT_BUFFER_SIZE - 1"
proof (cases "i + 1 = SEGMENT_BUFFER_SIZE - 1")
  case False
  assume i: "i < SEGMENT_BUFFER_SIZE - 1"
  then have "unat (i + 1) = unat i + 1" by (simp add: unat_word_ariths word_less_nat_alt)
  moreover from this False have "unat i + 1 \<noteq> 5" by (simp add: word_unat_eq_iff)
  ultimately show ?thesis using i False by (simp add: word_less_nat_alt)
qed simp

lemma P_upd_prep_same: "P s \<Longrightarrow> (\<And>p. prep_block_index (f p) = prep_block_index p) \<Longrightarrow> P (upd_prep f s)"
  using P_prep_index [of s] by (intro P_upd_prep) simp_all

lemma P_load_new_block: "P s \<Longrightarrow> pb < BLOCK_BUFFER_SIZE \<Longrightarrow> P (load_new_block pb s)"
proof -
  assume P: "P s" and pb: "pb < BLOCK_BUFFER_SIZE"
  define i where "i = (if prep_block_index (prep s) + 1 = SEGMENT_BUFFER_SIZE - 1 then 0 else prep_block_index (prep s) + 1)"
  have i: "i < SEGMENT_BUFFER_SIZE - 1" unfolding i_def by (rule prep_index_next [OF P_prep_index [OF P]])
  have "st_blocks_ok ((st_block_buffer s)[unat i := st_block_of (block_at s pb)])"
    using P_st_blocks [OF P] block_at_ok [OF P pb] by (intro st_blocks_ok_put) (simp_all add: st_block_of_def)
  then have "P ((s\<lparr>st_prep_block := Some i\<rparr>)\<lparr>st_block_buffer := (st_block_buffer s)[unat i := st_block_of (block_at s pb)]\<rparr>)"
    by (intro P_put_st_blocks P_put_st_prep P)
  then have new: "P (upd_prep (\<lambda>p. p\<lparr>prep_block_index := i, steps_remaining := n, step_per_mm := spm,
      req_mm_increment := r, dt_remainder := d\<rparr>)
      (s\<lparr>st_prep_block := Some i, st_block_buffer := (st_block_buffer s)[unat i := st_block_of (block_at s pb)]\<rparr>))" for n spm r d
    using i by (intro P_upd_prep) simp_all
  show ?thesis
    unfolding load_new_block_def Let_def i_def [symmetric]
    by (intro P_if P_entry P_upd_prep_same new) simp_all
qed

lemma P_load_block: "P s \<Longrightarrow> pred_option P (load_block s)"
proof (cases "plan_get_current_block s")
  case (Some pb)
  assume P: "P s"
  have pb: "pb < BLOCK_BUFFER_SIZE"
    using Some P_tail [OF P] by (simp add: plan_get_current_block_def split: if_splits)
  have "P (s\<lparr>pl_block := Some pb\<rparr>)" by (rule P_put_pl_block [OF P]) (simp add: pb)
  then show ?thesis
    using Some unfolding load_block_def Let_def
    by (simp only: option.case option.pred_inject)
      (intro P_if P_upd_prep_same P_load_new_block pb; simp add: hold_profile_def normal_profile_def Let_def)
qed (simp add: load_block_def)

lemma P_upd_segment: "P s \<Longrightarrow> (\<And>g. seg_block_index g < SEGMENT_BUFFER_SIZE - 1 \<Longrightarrow> seg_block_index (f g) < SEGMENT_BUFFER_SIZE - 1) \<Longrightarrow>
  P (upd_segment f s)"
proof -
  assume P: "P s" and f: "\<And>g. seg_block_index g < SEGMENT_BUFFER_SIZE - 1 \<Longrightarrow> seg_block_index (f g) < SEGMENT_BUFFER_SIZE - 1"
  have "segments_ok ((segment_buffer s)[unat (segment_buffer_head s) := f (segment_buffer s ! unat (segment_buffer_head s))])"
    using P_segments [OF P] P_seg_indices [OF P] by (intro segments_ok_put f segments_ok_nth) simp_all
  then show ?thesis unfolding upd_segment_def Let_def by (rule P_put_segments [OF P])
qed

lemma P_end_of_hold: "P s \<Longrightarrow> pred_option P (end_of_hold n pb s)"
  unfolding end_of_hold_def Let_def
  by (intro P_reinitialize P_upd_block P_upd_prep_same) simp_all

lemma P_next_head: "P s \<Longrightarrow> P (s\<lparr>segment_buffer_head := segment_next_head s,
    segment_next_head := (if segment_next_head s + 1 = SEGMENT_BUFFER_SIZE then 0 else segment_next_head s + 1)\<rparr>)"
proof -
  assume P: "P s"
  have "P (s\<lparr>segment_buffer_head := segment_next_head s\<rparr>)"
    using P_seg_indices [OF P] by (intro P_put_seg_head P) simp
  from P_put_seg_next [OF this next_segment, of "segment_next_head s"] show ?thesis
    using P_seg_indices [OF P] by simp
qed

lemma P_prep_segment: "P s \<Longrightarrow> pred_option (\<lambda>r. P (snd r)) (prep_segment pb s)"
proof -
  assume P: "P s"
  let ?s = "upd_segment (\<lambda>g. g\<lparr>seg_block_index := prep_block_index (prep s)\<rparr>) s"
  have s: "P ?s" using P_prep_index [OF P] by (intro P_upd_segment P) simp
  have prep: "prep ?s = prep s" by (simp add: upd_segment_def Let_def)
  have p: "P (upd_prep (\<lambda>_. fst r) ?s)" if "prep_block_index (fst r) = prep_block_index (prep s)" for r :: "st_prep_t \<times> seg_locals"
    using that P_prep_index [OF P] by (intro P_upd_prep s) simp
  show ?thesis
    unfolding prep_segment_def Let_def case_prod_beta prep
    by (rule pred_bind [OF segment_ramps_index])
      (intro p pred_if pred_Some pred_bind [where Q = P] P_end_of_hold P_upd_segment P_upd_prep_same P_upd_block P_discard
        P_put_pl_block P_next_head P; simp add: set_segment_rate_def Let_def)
qed

lemma P_prep_loop: "P s \<Longrightarrow> pred_option P (prep_loop s)"
proof (rule pred_optionI)
  fix r assume "prep_loop s = Some r" and "P s"
  then show "P r"
  proof (induction rule: prep_loop.raw_induct [rotated, consumes 1, case_names step])
    case (step f s r)
    have f: "pred_option P (f s)" if "P s" for s
      by (rule pred_optionI) (use step.IH that in blast)
    have load: "pred_option P (if pl_block s = None then load_block s else Some s)"
      using step.prems by (simp add: P_load_block)
    have body: "pred_option P (prep_segment pb s \<bind> (\<lambda>r. if fst r then f (snd r) else Some (snd r)))" if "P s" for pb s
      by (rule pred_bind [OF P_prep_segment [OF that]]) (intro pred_if pred_Some f)
    have "pred_option P (if segment_buffer_tail s = segment_next_head s then Some s
      else case (if pl_block s = None then load_block s else Some s) of
        None \<Rightarrow> Some s
      | Some s \<Rightarrow> prep_segment (the (pl_block s)) s \<bind> (\<lambda>r. if fst r then f (snd r) else Some (snd r)))"
      using step.prems load body
      by (cases "if pl_block s = None then load_block s else Some s") (auto intro!: pred_if)
    then show "P r"
      using step.hyps unfolding case_prod_beta by (rule pred_optionD)
  qed
qed

lemma P_st_prep_buffer: "P s \<Longrightarrow> pred_option P (st_prep_buffer s)"
  by (simp add: st_prep_buffer_def P_prep_loop)

end

locale step_invariant = prep_invariant P
  for P :: "'a step_state_scheme \<Rightarrow> bool" +
  assumes P_st: "P s \<Longrightarrow> stepper_ok (st s)"
    and P_put_st: "P s \<Longrightarrow> stepper_ok (f (st s)) \<Longrightarrow> P (upd_st f s)"
    and P_put_seg_tail: "P s \<Longrightarrow> i < SEGMENT_BUFFER_SIZE \<Longrightarrow> P (s\<lparr>segment_buffer_tail := i\<rparr>)"
    and P_hardware: "P s \<Longrightarrow> P (s\<lparr>gpioa_odr := pa, gpiob_odr := pb, main_timer_irq := irq, main_timer_period := per,
      pulse_timer_on := on, pulse_timer_period := pulse, busy := bu\<rparr>)"
    and P_put_exec: "P s \<Longrightarrow> P (s\<lparr>sys_rt_exec_state := x\<rparr>)"
    and P_put_probe_state: "P s \<Longrightarrow> P (s\<lparr>sys_probe_state := x\<rparr>)"
    and P_probed: "P s \<Longrightarrow> P (upd_sys (\<lambda>y. y\<lparr>probe_position := position y\<rparr>) s)"
    and P_position: "P s \<Longrightarrow> length v = length (position (sys s)) \<Longrightarrow> P (upd_sys (position_update (\<lambda>_. v)) s)"
    and P_put_masks: "P s \<Longrightarrow> P (s\<lparr>env := regenerate_masks (env s)\<rparr>)"
begin

lemma P_gpioa: "P s \<Longrightarrow> P (s\<lparr>gpioa_odr := x\<rparr>)"
  using P_hardware [of s "busy s" "pulse_timer_period s" "pulse_timer_on s" "main_timer_period s" "main_timer_irq s" "gpiob_odr s" x]
  by simp

lemma P_gpiob: "P s \<Longrightarrow> P (s\<lparr>gpiob_odr := x\<rparr>)"
  using P_hardware [of s "busy s" "pulse_timer_period s" "pulse_timer_on s" "main_timer_period s" "main_timer_irq s" x "gpioa_odr s"]
  by simp

lemma P_timer_irq: "P s \<Longrightarrow> P (s\<lparr>main_timer_irq := x\<rparr>)"
  using P_hardware [of s "busy s" "pulse_timer_period s" "pulse_timer_on s" "main_timer_period s" x "gpiob_odr s" "gpioa_odr s"]
  by simp

lemma P_timer_period: "P s \<Longrightarrow> P (s\<lparr>main_timer_period := x\<rparr>)"
  using P_hardware [of s "busy s" "pulse_timer_period s" "pulse_timer_on s" x "main_timer_irq s" "gpiob_odr s" "gpioa_odr s"]
  by simp

lemma P_pulse: "P s \<Longrightarrow> P (s\<lparr>pulse_timer_on := x\<rparr>)"
  using P_hardware [of s "busy s" "pulse_timer_period s" x "main_timer_period s" "main_timer_irq s" "gpiob_odr s" "gpioa_odr s"]
  by simp

lemma P_pulse_period: "P s \<Longrightarrow> P (s\<lparr>pulse_timer_period := x\<rparr>)"
  using P_hardware [of s "busy s" x "pulse_timer_on s" "main_timer_period s" "main_timer_irq s" "gpiob_odr s" "gpioa_odr s"]
  by simp

lemma P_busy: "P s \<Longrightarrow> P (s\<lparr>busy := x\<rparr>)"
  using P_hardware [of s x "pulse_timer_period s" "pulse_timer_on s" "main_timer_period s" "main_timer_irq s" "gpiob_odr s" "gpioa_odr s"]
  by simp

lemmas P_pins = P_gpioa P_gpiob P_timer_irq P_timer_period P_pulse P_pulse_period P_busy

lemma P_set_bits: "P s \<Longrightarrow> P (SET_STEP_BITS b s)" "P s \<Longrightarrow> P (SET_DIRECTION_BITS b s)"
  "P s \<Longrightarrow> P (put_steppers_disable h s)"
  using P_gpiob [OF P_gpioa, of s] by (simp_all add: SET_STEP_BITS_def SET_DIRECTION_BITS_def put_steppers_disable_def P_gpioa)

lemma P_raise: "P s \<Longrightarrow> P (raise_exec b s)"
  by (simp add: raise_exec_def P_put_exec)

lemma P_probe_monitor: "P s \<Longrightarrow> P (probe_state_monitor s)"
  by (simp add: probe_state_monitor_def P_raise P_probed P_put_probe_state)

text \<open>The interrupts.\<close>

lemma segment_at: "P s \<Longrightarrow> seg_block_index (segment_buffer s ! unat (segment_buffer_tail s)) < SEGMENT_BUFFER_SIZE - 1"
  using P_segments [of s] P_seg_indices [of s] by (auto simp: segments_ok_def word_less_nat_alt)

lemma st_block_at: "P s \<Longrightarrow> j < SEGMENT_BUFFER_SIZE - 1 \<Longrightarrow> length (st_steps (st_block_buffer s ! unat j)) = N_AXIS"
  using P_st_blocks [of s] by (auto simp: st_blocks_ok_def word_less_nat_alt)

lemma P_load_segment: "P s \<Longrightarrow> pred_option P (load_segment s)"
proof (cases "segment_buffer_head s = segment_buffer_tail s")
  case False
  assume P: "P s"
  define g where "g = segment_buffer s ! unat (segment_buffer_tail s)"
  define s1 where "s1 = upd_st (\<lambda>t. t\<lparr>exec_segment := Some (segment_buffer_tail s), step_count := n_step g\<rparr>)
    (s\<lparr>main_timer_period := cycles_per_tick g\<rparr>)"
  define half where "half = drop_bit 1 (st_step_event_count (st_block_buffer s1 ! unat (seg_block_index g)))"
  define s2 where "s2 = (if exec_block_index (st s1) \<noteq> seg_block_index g then
      upd_st (\<lambda>t. t\<lparr>exec_block_index := seg_block_index g, exec_block := Some (seg_block_index g),
        counters := [half, half, half]\<rparr>) s1 else s1)"
  have g: "seg_block_index g < SEGMENT_BUFFER_SIZE - 1" using segment_at [OF P] by (simp add: g_def)
  have s1: "P s1"
    unfolding s1_def using P_st [OF P] P_seg_indices [OF P]
    by (intro P_put_st P_timer_period P) (simp add: stepper_ok_def)
  have s2: "P s2"
    unfolding s2_def using P_st [OF s1] g by (intro P_if P_put_st s1) (simp_all add: stepper_ok_def N_AXIS_def)
  have "length (st_steps (exec_block_data s2)) = N_AXIS"
    using P_st [OF s2] st_block_at [OF s2]
    by (cases "exec_block (st s2)") (auto simp: exec_block_data_def stepper_ok_def zero_st_block_def N_AXIS_def)
  then have "P (upd_st (\<lambda>t. t\<lparr>dir_outbits := st_direction_bits (exec_block_data s2),
      tick_steps := map (drop_bit (unat (amass_level g))) (st_steps (exec_block_data s2))\<rparr>) s2)"
    using P_st [OF s2] by (intro P_put_st s2) (simp add: stepper_ok_def)
  moreover have "load_segment s = Some (upd_st (\<lambda>t. t\<lparr>dir_outbits := st_direction_bits (exec_block_data s2),
      tick_steps := map (drop_bit (unat (amass_level g))) (st_steps (exec_block_data s2))\<rparr>) s2)"
    using False by (simp only: load_segment_def Let_def s2_def s1_def half_def g_def if_False)
  ultimately show ?thesis by simp
qed (simp add: load_segment_def)

lemma P_axis_tick: "P s \<Longrightarrow> P (axis_tick idx s)"
proof -
  assume P: "P s"
  have put: "P (upd_st f s)" if "stepper_ok (f (st s))" for f
    using that by (rule P_put_st [OF P])
  have pos: "P (upd_sys (\<lambda>y. y\<lparr>position := (position y)[idx := c y]\<rparr>) s')" if "P s'" for c s'
    using P_position [OF that, of "(position (sys s'))[idx := c (sys s')]"] by (simp add: upd_sys_def)
  show ?thesis
    unfolding axis_tick_def Let_def using P_st [OF P]
    by (intro P_if pos put) (simp_all add: stepper_ok_def)
qed

lemma P_put_st_same: "P s \<Longrightarrow> (\<And>t. stepper_ok t \<Longrightarrow> stepper_ok (f t)) \<Longrightarrow> P (upd_st f s)"
  by (rule P_put_st) (simp_all add: P_st)

lemma P_segment_tick: "P s \<Longrightarrow> P (segment_tick s)"
  unfolding segment_tick_def Let_def
  by (intro P_busy P_put_st_same P_if P_put_seg_tail P_axis_tick P_probe_monitor next_segment)
    (simp_all add: stepper_ok_def P_seg_indices)

lemma P_go_idle: "P s \<Longrightarrow> P (st_go_idle s)"
  unfolding st_go_idle_def Let_def
  by (intro P_set_bits) (use P_busy [OF P_timer_irq] in simp)

lemma P_main_isr: "P s \<Longrightarrow> P (MAIN_TIMER_ISR s)"
proof -
  assume P: "P s"
  let ?s = "\<lambda>t. (SET_STEP_BITS (step_outbits (st s)) (SET_DIRECTION_BITS (dir_outbits (st s)) s))
     \<lparr>pulse_timer_period := t, pulse_timer_on := True, busy := True\<rparr>"
  have s: "P (?s t)" for t
    using P_busy [OF P_pulse [OF P_pulse_period [OF P_set_bits(1) [OF P_set_bits(2) [OF P]]]]] by simp
  have "P (case (if c then load_segment (?s t) else Some (?s t)) of
      None \<Rightarrow> raise_exec EXEC_CYCLE_STOP (st_go_idle (?s t)) | Some s \<Rightarrow> segment_tick s)" for c t
    using P_load_segment [OF s, of t] s [of t]
    by (cases "load_segment (?s t)") (auto simp: P_segment_tick P_raise P_go_idle)
  then show ?thesis
    using P unfolding MAIN_TIMER_ISR_def Let_def by (rule_tac P_if)
qed

lemma P_pulse_isr: "P s \<Longrightarrow> P (PULSE_TIMER_ISR s)"
  by (simp add: PULSE_TIMER_ISR_def P_pulse P_set_bits)

lemma P_wake_up: "P s \<Longrightarrow> P (st_wake_up s)"
  unfolding st_wake_up_def Let_def
  by (intro P_if P_timer_irq P_put_st_same P_set_bits) (simp_all add: stepper_ok_def)

lemma P_st_reset: "P s \<Longrightarrow> P (st_reset s)"
proof -
  assume "P s"
  then have "P (st_go_idle s)" by (rule P_go_idle)
  then have "P ((st_go_idle s)\<lparr>prep := zero_prep\<rparr>)" by (rule P_prep_any) (simp add: zero_prep_def)
  then have "P (upd_st (\<lambda>_. zero_stepper) ((st_go_idle s)\<lparr>prep := zero_prep\<rparr>))"
    by (rule P_put_st) (simp add: stepper_ok_def zero_stepper_def N_AXIS_def)
  then have "P (upd_st (\<lambda>_. zero_stepper) ((st_go_idle s)\<lparr>prep := zero_prep\<rparr>)\<lparr>pl_block := None\<rparr>
      \<lparr>segment_buffer_tail := 0\<rparr>\<lparr>segment_buffer_head := 0\<rparr>\<lparr>segment_next_head := 1\<rparr>\<lparr>busy := False\<rparr>)"
    by (intro P_busy P_put_seg_next P_put_seg_head P_put_seg_tail P_put_pl_block) simp_all
  from P_put_masks [OF this] show ?thesis
    unfolding st_reset_def Let_def by (intro P_set_bits) (simp add: upd_st_def)
qed

end

end
