(* ===== verification/PlanQueue.thy ===== *)
theory PlanQueue
  imports StepInvariant
begin

text \<open>
  The planner's ring as a queue of blocks.  \<open>planner_recalculate\<close> on the ring refines a
  computation on the list of queued blocks; from it follow that the planner returns, that it
  changes nothing but entry speeds, and that the speeds it plans respect the limits of the blocks.
\<close>

section \<open>The queue\<close>

definition block_ring :: "'a plan_state_scheme \<Rightarrow> bool" where
  "block_ring s = (length (block_buffer s) = unat BLOCK_BUFFER_SIZE \<and>
     block_buffer_tail s < BLOCK_BUFFER_SIZE \<and> block_buffer_head s < BLOCK_BUFFER_SIZE)"

definition queue :: "'a plan_state_scheme \<Rightarrow> plan_block_t list" where
  "queue s = ring_list (block_buffer s) (unat (block_buffer_head s)) (unat (block_buffer_tail s))"

text \<open>The index of the \<open>k\<close>-th queued block.\<close>

definition slot :: "'a plan_state_scheme \<Rightarrow> nat \<Rightarrow> u8" where
  "slot s k = of_nat ((unat (block_buffer_tail s) + k) mod 18)"

lemma block_ring_nat:
  assumes "block_ring s"
  shows "length (block_buffer s) = 18" "unat (block_buffer_tail s) < 18" "unat (block_buffer_head s) < 18"
  using assms by (simp_all add: block_ring_def word_less_nat_alt)

lemma length_queue_less: "block_ring s \<Longrightarrow> length (queue s) < 18"
  using block_ring_nat [of s] by (simp add: queue_def ring_count_less)

lemma unat_slot: "unat (slot s k) = (unat (block_buffer_tail s) + k) mod 18"
  unfolding slot_def by (subst unat_of_nat) (simp add: mod_mod_cancel less_trans [OF mod_less_divisor])

lemma slot_0: "block_ring s \<Longrightarrow> slot s 0 = block_buffer_tail s"
  using block_ring_nat [of s] by (simp add: word_unat_eq_iff unat_slot)

lemma slot_inj: "i < 18 \<Longrightarrow> j < 18 \<Longrightarrow> slot s i = slot s j \<longleftrightarrow> i = j"
proof -
  assume "i < 18" "j < 18"
  have "slot s i = slot s j \<longleftrightarrow> (unat (block_buffer_tail s) + i) mod 18 = (unat (block_buffer_tail s) + j) mod 18"
    by (simp add: word_unat_eq_iff unat_slot)
  also have "\<dots> \<longleftrightarrow> i mod 18 = j mod 18" by (simp add: nat_mod_eq_iff)
  finally show ?thesis using \<open>i < 18\<close> \<open>j < 18\<close> by simp
qed

lemma slot_less: "slot s k < BLOCK_BUFFER_SIZE"
  by (simp add: word_less_nat_alt unat_slot)

lemma unat_plan_next: "i < BLOCK_BUFFER_SIZE \<Longrightarrow> unat (plan_next_block_index i) = ring_next 18 (unat i)"
proof -
  assume "i < BLOCK_BUFFER_SIZE"
  then have "unat (i + 1) = unat i + 1" by (simp add: unat_word_ariths word_less_nat_alt)
  then show ?thesis by (auto simp: plan_next_block_index_def ring_next_def Let_def word_unat_eq_iff)
qed

lemma unat_plan_prev: "i < BLOCK_BUFFER_SIZE \<Longrightarrow> unat (plan_prev_block_index i) = ring_prev 18 (unat i)"
proof (cases "i = 0")
  case False
  then have "unat (i - 1) = unat i - 1" by (simp add: unat_sub word_le_nat_alt unat_gt_0 Suc_le_eq)
  then show ?thesis using False by (simp add: plan_prev_block_index_def ring_prev_def unat_eq_0)
qed (simp add: plan_prev_block_index_def ring_prev_def)

lemma next_slot: "plan_next_block_index (slot s k) = slot s (Suc k)"
  using unat_plan_next [OF slot_less, of s k]
  by (simp add: word_unat_eq_iff unat_slot ring_next_mod mod_Suc_eq)

lemma prev_slot: "plan_prev_block_index (slot s (Suc k)) = slot s k"
proof -
  have "unat (slot s k) < 18" using slot_less [of s k] by (simp add: word_less_nat_alt)
  moreover have "unat (slot s (Suc k)) = ring_next 18 (unat (slot s k))"
    by (simp add: unat_plan_next [OF slot_less] next_slot [symmetric])
  ultimately show ?thesis
    using unat_plan_prev [OF slot_less, of s "Suc k"] by (simp add: word_unat_eq_iff ring_prev_next)
qed

lemma head_slot: "block_ring s \<Longrightarrow> block_buffer_head s = slot s (length (queue s))"
  using block_ring_nat [of s] ring_index_head [of "unat (block_buffer_head s)" 18 "unat (block_buffer_tail s)"]
  by (simp add: word_unat_eq_iff unat_slot queue_def)

lemma block_at_slot: "block_ring s \<Longrightarrow> k < length (queue s) \<Longrightarrow> block_at s (slot s k) = queue s ! k"
  using block_ring_nat [of s] by (simp add: block_at_def unat_slot queue_def ring_list_nth)

lemma queue_upd_block:
  assumes "block_ring s" "k < length (queue s)"
  shows "queue (upd_block (slot s k) f s) = (queue s)[k := f (queue s ! k)]"
proof (rule nth_equalityI)
  show len: "length (queue (upd_block (slot s k) f s)) = length ((queue s)[k := f (queue s ! k)])"
    by (simp add: queue_def upd_block_def)
  fix i assume "i < length (queue (upd_block (slot s k) f s))"
  then have i: "i < length (queue s)" using len by simp
  note n = block_ring_nat [OF assms(1)]
  have lt: "i < 18" "k < 18" using length_queue_less [OF assms(1)] i assms(2) by simp_all
  have "unat (slot s i) = unat (slot s k) \<longleftrightarrow> i = k"
    using slot_inj [OF lt, of s] by (simp add: word_unat_eq_iff)
  moreover have "queue (upd_block (slot s k) f s) ! i =
      (block_buffer s)[unat (slot s k) := f (block_at s (slot s k))] ! unat (slot s i)"
    using i n by (simp add: queue_def upd_block_def ring_list_nth unat_slot)
  ultimately show "queue (upd_block (slot s k) f s) ! i = (queue s)[k := f (queue s ! k)] ! i"
    using i assms n block_at_slot [OF assms(1) i] block_at_slot [OF assms]
    by (cases "i = k") (simp_all add: nth_list_update block_at_def unat_slot)
qed

lemma upd_block_ring [simp]:
  "block_ring (upd_block i f s) = block_ring s" "slot (upd_block i f s) = slot s"
  "length (queue (upd_block i f s)) = length (queue s)"
  "block_buffer_tail (upd_block i f s) = block_buffer_tail s" "block_buffer_head (upd_block i f s) = block_buffer_head s"
  "block_buffer_planned (upd_block i f s) = block_buffer_planned s" "pl_block (upd_block i f s) = pl_block s"
  "prep (upd_block i f s) = prep s" "next_buffer_head (upd_block i f s) = next_buffer_head s"
  by (simp_all add: block_ring_def upd_block_def slot_def queue_def fun_eq_iff)

lemma planned_ring [simp]:
  "block_ring (s\<lparr>block_buffer_planned := i\<rparr>) = block_ring s" "slot (s\<lparr>block_buffer_planned := i\<rparr>) = slot s"
  "queue (s\<lparr>block_buffer_planned := i\<rparr>) = queue s" "block_at (s\<lparr>block_buffer_planned := i\<rparr>) = block_at s"
  by (simp_all add: block_ring_def slot_def queue_def block_at_def fun_eq_iff)

section \<open>The passes on the list of blocks\<close>

text \<open>The speed of the block being executed becomes its entry speed, if the stepper has loaded it.\<close>

definition running_entry :: "'a plan_state_scheme \<Rightarrow> plan_block_t list \<Rightarrow> plan_block_t list" where
  "running_entry s q = (if pl_block s = None then q
     else q[0 := (q ! 0)\<lparr>entry_speed_sqr := f32_mul (current_speed (prep s)) (current_speed (prep s))\<rparr>])"

definition back_entry :: "plan_block_t \<Rightarrow> plan_block_t \<Rightarrow> plan_block_t" where
  "back_entry n b =
     (if fl_eq (entry_speed_sqr b) (max_entry_speed_sqr b) then b
      else let e = f32_add (entry_speed_sqr n) (speed_gain b) in
        b\<lparr>entry_speed_sqr := (if fl_lt e (max_entry_speed_sqr b) then e else max_entry_speed_sqr b)\<rparr>)"

text \<open>Backwards from block \<open>j\<close> to the first block after \<open>p\<close>, the last one with an optimal plan.\<close>

fun back_list :: "(plan_block_t list \<Rightarrow> plan_block_t list) \<Rightarrow> nat \<Rightarrow> nat \<Rightarrow> plan_block_t list \<Rightarrow> plan_block_t list" where
  "back_list u p 0 q = q"
| "back_list u p (Suc j) q =
     (if Suc j \<le> p then q
      else let q = (if j = 0 then u q else q)
        in back_list u p j (q[Suc j := back_entry (q ! Suc (Suc j)) (q ! Suc j)]))"

lemma back_list_stop [simp]: "back_list u p p q = q"
  by (cases p) simp_all

lemma length_back_list [simp]: "(\<And>q. length (u q) = length q) \<Longrightarrow> length (back_list u p j q) = length q"
  by (induction u p j q rule: back_list.induct) (simp_all add: Let_def)

lemma length_running [simp]: "length (running_entry s q) = length q"
  by (simp add: running_entry_def)

lemma running_entry_cong: "pl_block t = pl_block s \<Longrightarrow> prep t = prep s \<Longrightarrow> running_entry t = running_entry s"
  by (rule ext) (simp add: running_entry_def)

definition fwd_entry :: "plan_block_t \<Rightarrow> plan_block_t \<Rightarrow> plan_block_t" where
  "fwd_entry c n =
     (let e = f32_add (entry_speed_sqr c) (speed_gain c) in
      if fl_lt (entry_speed_sqr c) (entry_speed_sqr n) \<and> fl_lt e (entry_speed_sqr n) then n\<lparr>entry_speed_sqr := e\<rparr> else n)"

definition fwd_planned :: "plan_block_t \<Rightarrow> plan_block_t \<Rightarrow> bool" where
  "fwd_planned c n =
     (fl_lt (entry_speed_sqr c) (entry_speed_sqr n) \<and>
      fl_lt (f32_add (entry_speed_sqr c) (speed_gain c)) (entry_speed_sqr n) \<or>
      fl_eq (entry_speed_sqr (fwd_entry c n)) (max_entry_speed_sqr n))"

text \<open>Forwards over the next \<open>r\<close> blocks after block \<open>i\<close>; the first component is the planned position.\<close>

fun fwd_list :: "nat \<Rightarrow> nat \<Rightarrow> nat \<times> plan_block_t list \<Rightarrow> nat \<times> plan_block_t list" where
  "fwd_list 0 i pq = pq"
| "fwd_list (Suc r) i (p, q) =
     fwd_list r (Suc i) (if fwd_planned (q ! i) (q ! Suc i) then Suc i else p, q[Suc i := fwd_entry (q ! i) (q ! Suc i)])"

definition plan_list :: "(plan_block_t list \<Rightarrow> plan_block_t list) \<Rightarrow> nat \<Rightarrow> plan_block_t list \<Rightarrow> nat \<times> plan_block_t list" where
  "plan_list u p q =
     (let n = length q - 1 in
      if n = p then (p, q)
      else
        let b = q ! n; q = q[n := b\<lparr>entry_speed_sqr := fl_min (max_entry_speed_sqr b) (speed_gain b)\<rparr>];
            q = (if n = 1 then u q else back_list u p (n - 1) q)
        in fwd_list (n - p) p (p, q))"

section \<open>The ring refines the list\<close>

text \<open>The stepper has loaded no block or the first one of the queue.\<close>

definition running_ok :: "'a plan_state_scheme \<Rightarrow> bool" where
  "running_ok s = (pl_block s = None \<or> pl_block s = Some (block_buffer_tail s))"

definition same_ring :: "'a plan_state_scheme \<Rightarrow> 'a plan_state_scheme \<Rightarrow> bool" where
  "same_ring s s' = (block_ring s' \<and> block_buffer_tail s' = block_buffer_tail s \<and> block_buffer_head s' = block_buffer_head s \<and>
     next_buffer_head s' = next_buffer_head s \<and> (pl_block s' = pl_block s \<or> pl_block s' = None) \<and>
     length (queue s') = length (queue s))"

lemma same_ring_slot: "same_ring s s' \<Longrightarrow> slot s' = slot s"
  by (simp add: same_ring_def slot_def fun_eq_iff)

lemma same_ring_trans: "same_ring s t \<Longrightarrow> same_ring t u \<Longrightarrow> same_ring s u"
  by (auto simp: same_ring_def)

lemma st_update_sim:
  assumes "block_ring s" "queue s \<noteq> []" "running_ok s"
  defines "s' \<equiv> st_update_plan_block_parameters s"
  shows "block_ring s'" "slot s' = slot s" "queue s' = running_entry s (queue s)" "pl_block s' = None"
    "block_buffer_tail s' = block_buffer_tail s" "block_buffer_head s' = block_buffer_head s"
    "block_buffer_planned s' = block_buffer_planned s" "next_buffer_head s' = next_buffer_head s"
    "length (queue s') = length (queue s)"
proof -
  have [simp]: "block_ring (s\<lparr>prep := p\<rparr>) = block_ring s" "slot (s\<lparr>prep := p\<rparr>) = slot s" "queue (s\<lparr>prep := p\<rparr>) = queue s" for p
    by (simp_all add: block_ring_def slot_def queue_def fun_eq_iff)
  have [simp]: "block_ring (t\<lparr>pl_block := p\<rparr>) = block_ring t" "slot (t\<lparr>pl_block := p\<rparr>) = slot t" "queue (t\<lparr>pl_block := p\<rparr>) = queue t"
    for p and t :: "'a plan_state_scheme"
    by (simp_all add: block_ring_def slot_def queue_def fun_eq_iff)
  have q: "queue (set_entry (block_buffer_tail s) v (s\<lparr>prep := p\<rparr>)) = (queue s)[0 := (queue s ! 0)\<lparr>entry_speed_sqr := v\<rparr>]" for v p
    using queue_upd_block [of "s\<lparr>prep := p\<rparr>" 0 "entry_speed_sqr_update (\<lambda>_. v)"] assms(1,2) slot_0 [OF assms(1)] by simp
  show "block_ring s'" "slot s' = slot s" "queue s' = running_entry s (queue s)" "pl_block s' = None"
    "block_buffer_tail s' = block_buffer_tail s" "block_buffer_head s' = block_buffer_head s"
    "block_buffer_planned s' = block_buffer_planned s" "next_buffer_head s' = next_buffer_head s"
    using assms(1,3) q
    by (auto simp: s'_def st_update_plan_block_parameters_def running_entry_def running_ok_def)
  then show "length (queue s') = length (queue s)" by (simp add: running_entry_def)
qed

lemma tail_slot: "block_ring s \<Longrightarrow> k < 18 \<Longrightarrow> slot s k = block_buffer_tail s \<longleftrightarrow> k = 0"
  using slot_inj [of k 0 s] slot_0 [of s] by simp

definition back_step :: "nat \<Rightarrow> 'a plan_state_scheme \<Rightarrow> 'a plan_state_scheme" where
  "back_step j s =
     (let b = block_at s (slot s j) in
      if \<not> fl_eq (entry_speed_sqr b) (max_entry_speed_sqr b) then
        let e = f32_add (entry_speed_sqr (block_at s (slot s (Suc j)))) (speed_gain b) in
        if fl_lt e (max_entry_speed_sqr b) then set_entry (slot s j) e s
        else set_entry (slot s j) (max_entry_speed_sqr b) s
      else s)"

lemma back_step_sim:
  assumes "block_ring s" "Suc j < length (queue s)"
  shows "same_ring s (back_step j s) \<and> queue (back_step j s) = (queue s)[j := back_entry (queue s ! Suc j) (queue s ! j)] \<and>
    block_buffer_planned (back_step j s) = block_buffer_planned s \<and> pl_block (back_step j s) = pl_block s \<and>
    prep (back_step j s) = prep s"
  using assms by (simp add: back_step_def Let_def back_entry_def same_ring_def block_at_slot queue_upd_block list_update_id)

lemma reverse_sim:
  assumes "block_ring s" "block_buffer_planned s = slot s p" "Suc j < length (queue s)" "p \<le> j" "running_ok s"
  shows "\<exists>s'. reverse_pass (slot s (Suc j)) (slot s j) s = Some s' \<and> same_ring s s' \<and>
    block_buffer_planned s' = block_buffer_planned s \<and> queue s' = back_list (running_entry s) p j (queue s)"
  using assms
proof (induction j arbitrary: s)
  case 0
  then show ?case by (simp add: reverse_pass.simps same_ring_def)
next
  case (Suc j)
  have len: "length (queue s) < 18" by (rule length_queue_less [OF Suc.prems(1)])
  show ?case
  proof (cases "Suc j = p")
    case True
    then show ?thesis using Suc.prems by (simp add: reverse_pass.simps same_ring_def)
  next
    case False
    then have p: "p \<le> j" using Suc.prems(4) by simp
    have ne: "slot s (Suc j) \<noteq> block_buffer_planned s"
      using slot_inj [of "Suc j" p s] Suc.prems(2,3) False len p by simp
    have tl: "slot s j = block_buffer_tail s \<longleftrightarrow> j = 0"
      using tail_slot [OF Suc.prems(1)] Suc.prems(3) len by simp
    define s1 where "s1 = (if j = 0 then st_update_plan_block_parameters s else s)"
    have q: "queue s \<noteq> []" using Suc.prems(3) by auto
    have s1: "block_ring s1" "slot s1 = slot s" "queue s1 = (if j = 0 then running_entry s (queue s) else queue s)"
      "same_ring s s1" "block_buffer_planned s1 = block_buffer_planned s" "running_ok s1"
      "j \<noteq> 0 \<longrightarrow> s1 = s"
      using st_update_sim [OF Suc.prems(1) q Suc.prems(5)] Suc.prems(1,5)
      by (auto simp: s1_def same_ring_def running_ok_def)
    let ?s2 = "back_step (Suc j) s1"
    have l1: "Suc (Suc j) < length (queue s1)" using s1(4) Suc.prems(3) by (simp add: same_ring_def)
    have s2: "same_ring s1 ?s2" "queue ?s2 = (queue s1)[Suc j := back_entry (queue s1 ! Suc (Suc j)) (queue s1 ! Suc j)]"
      "block_buffer_planned ?s2 = block_buffer_planned s" "pl_block ?s2 = pl_block s1" "prep ?s2 = prep s1"
      using back_step_sim [OF s1(1) l1] s1(5) by auto
    have "running_ok ?s2" using s1(6) s2(1,4) by (simp add: running_ok_def same_ring_def)
    moreover have "block_ring ?s2" "length (queue ?s2) = length (queue s)" "slot ?s2 = slot s"
      using s2(1) s1(2,4) by (auto simp: same_ring_slot [OF s2(1)] same_ring_def)
    ultimately obtain s' where s': "reverse_pass (slot s (Suc j)) (slot s j) ?s2 = Some s'" "same_ring ?s2 s'"
      "block_buffer_planned s' = block_buffer_planned s" "queue s' = back_list (running_entry ?s2) p j (queue ?s2)"
      using Suc.IH [of ?s2] s2(3) Suc.prems(2,3) p by auto
    have "reverse_pass (slot s (Suc (Suc j))) (slot s (Suc j)) s = reverse_pass (slot s (Suc j)) (slot s j) ?s2"
      by (subst reverse_pass.simps) (simp add: ne prev_slot tl s1_def [symmetric] back_step_def s1(2) Let_def)
    moreover have "back_list (running_entry ?s2) p j (queue ?s2) = back_list (running_entry s) p (Suc j) (queue s)"
    proof (cases j)
      case 0
      then show ?thesis using p s1(3) s2(2) False by (simp add: Let_def)
    next
      case (Suc i)
      then have "running_entry ?s2 = running_entry s"
        using s1(7) s2(4,5) by (intro running_entry_cong) simp_all
      then show ?thesis using p s1(3) s2(2) Suc by (simp add: Let_def)
    qed
    ultimately show ?thesis
      using s' same_ring_trans [OF s1(4) same_ring_trans [OF s2(1) s'(2)]] by auto
  qed
qed

definition fwd_step :: "nat \<Rightarrow> 'a plan_state_scheme \<Rightarrow> 'a plan_state_scheme" where
  "fwd_step i s =
     (let c = block_at s (slot s i); n = block_at s (slot s (Suc i));
          s = (if fl_lt (entry_speed_sqr c) (entry_speed_sqr n) then
                 let e = f32_add (entry_speed_sqr c) (speed_gain c) in
                 if fl_lt e (entry_speed_sqr n)
                 then (set_entry (slot s (Suc i)) e s)\<lparr>block_buffer_planned := slot s (Suc i)\<rparr> else s
               else s);
          n = block_at s (slot s (Suc i))
      in if fl_eq (entry_speed_sqr n) (max_entry_speed_sqr n) then s\<lparr>block_buffer_planned := slot s (Suc i)\<rparr> else s)"

lemma fwd_step_sim:
  assumes "block_ring s" "Suc i < length (queue s)" "block_buffer_planned s = slot s p"
  shows "same_ring s (fwd_step i s) \<and>
    queue (fwd_step i s) = (queue s)[Suc i := fwd_entry (queue s ! i) (queue s ! Suc i)] \<and>
    block_buffer_planned (fwd_step i s) = slot s (if fwd_planned (queue s ! i) (queue s ! Suc i) then Suc i else p)"
proof -
  define c where "c = queue s ! i"
  define n where "n = queue s ! Suc i"
  define e where "e = f32_add (entry_speed_sqr c) (speed_gain c)"
  have b: "block_at s (slot s i) = c" "block_at s (slot s (Suc i)) = n"
    using assms(1,2) by (simp_all add: block_at_slot c_def n_def)
  have q: "queue (set_entry (slot s (Suc i)) e s) = (queue s)[Suc i := n\<lparr>entry_speed_sqr := e\<rparr>]"
    using queue_upd_block [OF assms(1,2)] by (simp add: n_def)
  have b': "block_at (set_entry (slot s (Suc i)) e s) (slot s (Suc i)) = n\<lparr>entry_speed_sqr := e\<rparr>"
    using block_at_slot [of "set_entry (slot s (Suc i)) e s" "Suc i"] assms(1,2) q by simp
  have id: "(queue s)[Suc i := n] = queue s" by (simp add: n_def list_update_id)
  show ?thesis
    unfolding fwd_step_def b Let_def
    using assms q id b' b
    by (auto simp: fwd_entry_def fwd_planned_def same_ring_def Let_def c_def [symmetric] n_def [symmetric] e_def [symmetric])
qed

lemma forward_sim:
  assumes "block_ring s" "block_buffer_planned s = slot s p" "Suc (i + r) = length (queue s)"
  shows "\<exists>s'. forward_pass (slot s i) (slot s (Suc i)) s = Some s' \<and> same_ring s s' \<and>
    block_buffer_planned s' = slot s (fst (fwd_list r i (p, queue s))) \<and> queue s' = snd (fwd_list r i (p, queue s))"
  using assms
proof (induction r arbitrary: i p s)
  case 0
  then have "slot s (Suc i) = block_buffer_head s" by (simp add: head_slot)
  then show ?case using 0 by (subst forward_pass.simps) (simp add: same_ring_def)
next
  case (Suc r)
  have len: "length (queue s) < 18" by (rule length_queue_less [OF Suc.prems(1)])
  have ne: "slot s (Suc i) \<noteq> block_buffer_head s"
    using slot_inj [of "Suc i" "length (queue s)" s] head_slot [OF Suc.prems(1)] Suc.prems(3) len by simp
  let ?s = "fwd_step i s" and ?p = "if fwd_planned (queue s ! i) (queue s ! Suc i) then Suc i else p"
  have s1: "same_ring s ?s" "queue ?s = (queue s)[Suc i := fwd_entry (queue s ! i) (queue s ! Suc i)]"
    "block_buffer_planned ?s = slot s ?p"
    using fwd_step_sim [OF Suc.prems(1) _ Suc.prems(2), of i] Suc.prems(3) by auto
  have sl: "slot ?s = slot s" by (rule same_ring_slot [OF s1(1)])
  obtain s' where s': "forward_pass (slot s (Suc i)) (slot s (Suc (Suc i))) ?s = Some s'" "same_ring ?s s'"
      "block_buffer_planned s' = slot s (fst (fwd_list r (Suc i) (?p, queue ?s)))"
      "queue s' = snd (fwd_list r (Suc i) (?p, queue ?s))"
    using Suc.IH [of ?s ?p "Suc i"] s1 sl Suc.prems(3) by (auto simp: same_ring_def)
  have "forward_pass (slot s i) (slot s (Suc i)) s = forward_pass (slot s (Suc i)) (slot s (Suc (Suc i))) ?s"
    by (subst forward_pass.simps) (simp add: ne next_slot fwd_step_def Let_def)
  then show ?case
    using s' s1(2) same_ring_trans [OF s1(1) s'(2)] by simp
qed

text \<open>
  C5: On a queue of at least one block, with the planned pointer inside the queue,
  \<open>planner_recalculate\<close> returns, leaves head and tail where they are, and the queued blocks are
  those of the list computation \<open>plan_list\<close>: the newest block starts from rest, one pass backwards
  bounds every entry speed by the deceleration to the next block, one pass forwards by the
  acceleration from the previous block, and the planned pointer moves to the last block that
  cannot be improved.
\<close>

theorem recalculate_refines:
  assumes ring: "block_ring s" and planned: "block_buffer_planned s = slot s p" "p < length (queue s)"
    and run: "running_ok s"
  shows "\<exists>s'. planner_recalculate s = Some s' \<and> same_ring s s' \<and>
    (\<exists>p'. block_buffer_planned s' = slot s p' \<and> (p', queue s') = plan_list (running_entry s) p (queue s))"
proof -
  have len: "length (queue s) < 18" by (rule length_queue_less [OF ring])
  obtain n where n: "length (queue s) = Suc n" using planned(2) by (cases "length (queue s)") auto
  have cur: "plan_prev_block_index (block_buffer_head s) = slot s n"
    using head_slot [OF ring] prev_slot [of s n] n by simp
  show ?thesis
  proof (cases "n = p")
    case True
    then show ?thesis
      using ring planned cur n by (simp add: planner_recalculate_def plan_list_def same_ring_def)
  next
    case False
    then have p: "p < n" using planned(2) n by simp
    have ne: "slot s n \<noteq> block_buffer_planned s"
      using slot_inj [of n p s] planned False len n p by simp
    let ?b = "queue s ! n"
    define s1 where "s1 = set_entry (slot s n) (fl_min (max_entry_speed_sqr ?b) (speed_gain ?b)) s"
    have s1: "block_ring s1" "slot s1 = slot s" "block_buffer_planned s1 = slot s p" "running_ok s1"
      "queue s1 = (queue s)[n := ?b\<lparr>entry_speed_sqr := fl_min (max_entry_speed_sqr ?b) (speed_gain ?b)\<rparr>]"
      "same_ring s s1"
      using queue_upd_block [OF ring, of n] ring planned run n
      by (simp_all add: s1_def running_ok_def same_ring_def)
    have re: "running_entry s1 = running_entry s" by (rule running_entry_cong) (simp_all add: s1_def)
    obtain m where m: "n = Suc m" using p by (cases n) auto
    have q1: "queue s1 \<noteq> []" "length (queue s1) = Suc n" using s1(5) n by auto
    have pm: "slot s m = block_buffer_planned s1 \<longleftrightarrow> m = p"
      using slot_inj [of m p s] s1(3) len n m p by simp
    have tl: "slot s m = block_buffer_tail s1 \<longleftrightarrow> m = 0"
      using tail_slot [OF ring, of m] s1(6) len n m by (simp add: same_ring_def)
    define r where "r = (if slot s m = block_buffer_planned s1 then
        Some (if slot s m = block_buffer_tail s1 then st_update_plan_block_parameters s1 else s1)
      else reverse_pass (slot s n) (slot s m) s1)"
    define q where "q = (if n = 1 then running_entry s (queue s1) else back_list (running_entry s) p (n - 1) (queue s1))"
    have "\<exists>s2. r = Some s2 \<and> same_ring s1 s2 \<and> block_buffer_planned s2 = slot s p \<and> queue s2 = q"
    proof (cases "m = p")
      case True
      then show ?thesis
        using st_update_sim [OF s1(1) q1(1) s1(4)] s1 re m pm tl
        by (auto simp: r_def q_def same_ring_def)
    next
      case False
      then have "reverse_pass (slot s n) (slot s m) s1 = r" using pm by (simp add: r_def)
      moreover have "\<exists>s2. reverse_pass (slot s1 (Suc m)) (slot s1 m) s1 = Some s2 \<and> same_ring s1 s2 \<and>
          block_buffer_planned s2 = block_buffer_planned s1 \<and> queue s2 = back_list (running_entry s1) p m (queue s1)"
        using reverse_sim [OF s1(1), of p m] s1(2,3,4) q1(2) m p by simp
      ultimately show ?thesis using s1 re m False p by (auto simp: q_def)
    qed
    then obtain s2 where s2: "r = Some s2" "same_ring s1 s2" "block_buffer_planned s2 = slot s p" "queue s2 = q" by blast
    have sl: "slot s2 = slot s" using same_ring_slot [OF s2(2)] s1(2) by simp
    obtain s3 where s3: "forward_pass (slot s p) (slot s (Suc p)) s2 = Some s3" "same_ring s2 s3"
        "block_buffer_planned s3 = slot s (fst (fwd_list (n - p) p (p, q)))" "queue s3 = snd (fwd_list (n - p) p (p, q))"
      using forward_sim [of s2 p p "n - p"] s2 sl q1(2) p by (auto simp: same_ring_def)
    have bn: "block_at s (slot s n) = ?b" "plan_prev_block_index (slot s n) = slot s m"
      using block_at_slot [OF ring, of n] n m prev_slot [of s m] by simp_all
    have "planner_recalculate s =
        r \<bind> (\<lambda>s. forward_pass (block_buffer_planned s) (plan_next_block_index (block_buffer_planned s)) s)"
      by (simp only: planner_recalculate_def Let_def cur ne if_False bn s1_def r_def)
    then have "planner_recalculate s = Some s3"
      using s2(1,3) s3(1) by (simp add: next_slot)
    moreover have "plan_list (running_entry s) p (queue s) = fwd_list (n - p) p (p, q)"
      using False n s1(5) by (simp add: plan_list_def Let_def q_def)
    ultimately show ?thesis
      using s3 same_ring_trans [OF s1(6) same_ring_trans [OF s2(2) s3(2)]] by auto
  qed
qed

section \<open>The limits a plan respects\<close>

text \<open>
  A block enters no faster than its junction allows, and no faster than the block before can
  accelerate to.
\<close>

definition entry_ok :: "plan_block_t \<Rightarrow> bool" where
  "entry_ok b = (\<not> fl_lt (max_entry_speed_sqr b) (entry_speed_sqr b))"

definition accel_ok :: "plan_block_t \<Rightarrow> plan_block_t \<Rightarrow> bool" where
  "accel_ok c n = (fl_lt (entry_speed_sqr c) (entry_speed_sqr n) \<longrightarrow>
     \<not> fl_lt (f32_add (entry_speed_sqr c) (speed_gain c)) (entry_speed_sqr n))"

definition plan_feasible :: "plan_block_t list \<Rightarrow> bool" where
  "plan_feasible q = (\<forall>i. Suc i < length q \<longrightarrow> entry_ok (q ! Suc i) \<and> accel_ok (q ! i) (q ! Suc i))"

lemma fl_eq_not_lt: "fl_eq a b \<Longrightarrow> \<not> fl_lt b a"
  by (cases a; cases b) (auto simp: fl_eq_def)

lemma back_entry_ok: "entry_ok (back_entry n b)"
  by (auto simp: entry_ok_def back_entry_def Let_def dest: fl_lt_asym fl_eq_not_lt)

lemma fwd_entry_ok: "entry_ok n \<Longrightarrow> entry_ok (fwd_entry c n)"
  by (auto simp: entry_ok_def fwd_entry_def Let_def dest: fl_lt_trans)

lemma fwd_accel_ok: "accel_ok c (fwd_entry c n)"
  by (auto simp: accel_ok_def fwd_entry_def Let_def)

lemma min_entry_ok: "entry_ok (b\<lparr>entry_speed_sqr := fl_min (max_entry_speed_sqr b) g\<rparr>)"
  by (simp add: entry_ok_def fl_min_def)

lemma back_list_ok:
  assumes "\<And>q i. 0 < i \<Longrightarrow> u q ! i = q ! i" "\<And>q. length (u q) = length q" "Suc j < length q"
  shows "(\<forall>i. 0 < i \<longrightarrow> i \<le> p \<or> j < i \<longrightarrow> back_list u p j q ! i = q ! i) \<and>
    (\<forall>i. p < i \<longrightarrow> i \<le> j \<longrightarrow> entry_ok (back_list u p j q ! i)) \<and> (0 < p \<longrightarrow> back_list u p j q ! 0 = q ! 0)"
  using assms(3)
proof (induction j arbitrary: q)
  case (Suc j)
  show ?case
  proof (cases "Suc j \<le> p")
    case False
    define q1 where "q1 = (if j = 0 then u q else q)"
    let ?q = "q1[Suc j := back_entry (q1 ! Suc (Suc j)) (q1 ! Suc j)]"
    have q1: "length q1 = length q" "\<And>i. 0 < i \<Longrightarrow> q1 ! i = q ! i" "0 < j \<Longrightarrow> q1 = q"
      using assms(1,2) by (auto simp: q1_def)
    have r: "back_list u p (Suc j) q = back_list u p j ?q"
      using False by (simp add: q1_def Let_def)
    have "Suc j < length ?q" using Suc.prems q1 by simp
    note IH = Suc.IH [OF this]
    show ?thesis
      unfolding r
    proof (intro conjI allI impI)
      fix i assume "0 < i" "i \<le> p \<or> Suc j < i"
      then show "back_list u p j ?q ! i = q ! i" using IH q1(2) False by auto
    next
      fix i assume "p < i" "i \<le> Suc j"
      then show "entry_ok (back_list u p j ?q ! i)"
        using IH False Suc.prems q1(1) by (cases "i = Suc j") (auto simp: back_entry_ok)
    next
      assume "0 < p"
      then show "back_list u p j ?q ! 0 = q ! 0" using IH q1(3) False by auto
    qed
  qed simp
qed simp

lemma fwd_list_ok:
  assumes "Suc (i + r) = length q" "\<forall>k. i < k \<longrightarrow> k < length q \<longrightarrow> entry_ok (q ! k)"
  shows "(\<forall>k\<le>i. snd (fwd_list r i (p, q)) ! k = q ! k) \<and> length (snd (fwd_list r i (p, q))) = length q \<and>
    (\<forall>k. i \<le> k \<longrightarrow> Suc k < length q \<longrightarrow> entry_ok (snd (fwd_list r i (p, q)) ! Suc k) \<and>
       accel_ok (snd (fwd_list r i (p, q)) ! k) (snd (fwd_list r i (p, q)) ! Suc k))"
  using assms
proof (induction r arbitrary: i p q)
  case (Suc r)
  let ?q = "q[Suc i := fwd_entry (q ! i) (q ! Suc i)]"
  have ok: "\<forall>k. Suc i < k \<longrightarrow> k < length ?q \<longrightarrow> entry_ok (?q ! k)" using Suc.prems by auto
  have e: "entry_ok (?q ! Suc i)" "accel_ok (q ! i) (?q ! Suc i)"
    using Suc.prems by (simp_all add: fwd_entry_ok fwd_accel_ok)
  define r' where "r' = snd (fwd_list r (Suc i) (if fwd_planned (q ! i) (q ! Suc i) then Suc i else p, ?q))"
  have r': "snd (fwd_list (Suc r) i (p, q)) = r'" by (simp add: r'_def)
  have IH: "\<forall>k\<le>Suc i. r' ! k = ?q ! k" "length r' = length q"
      "\<forall>k. Suc i \<le> k \<longrightarrow> Suc k < length q \<longrightarrow> entry_ok (r' ! Suc k) \<and> accel_ok (r' ! k) (r' ! Suc k)"
    using Suc.IH [of "Suc i" ?q] Suc.prems(1) ok by (auto simp: r'_def)
  show ?case
    unfolding r'
  proof (intro conjI allI impI)
    fix k assume k: "i \<le> k" "Suc k < length q"
    show "entry_ok (r' ! Suc k)" "accel_ok (r' ! k) (r' ! Suc k)"
      using IH e k Suc.prems(1) by (cases "k = i"; simp)+
  qed (use IH in auto)
qed simp

lemma plan_list_ok:
  assumes "p < length q" "\<And>q i. 0 < i \<Longrightarrow> u q ! i = q ! i" "\<And>q. length (u q) = length q"
    "\<forall>i<p. entry_ok (q ! Suc i) \<and> accel_ok (q ! i) (q ! Suc i)"
  shows "plan_feasible (snd (plan_list u p q)) \<and> length (snd (plan_list u p q)) = length q"
proof -
  obtain n where n: "length q = Suc n" using assms(1) by (cases "length q") auto
  show ?thesis
  proof (cases "n = p")
    case True
    then show ?thesis using assms(4) n by (simp add: plan_list_def plan_feasible_def)
  next
    case False
    then have p: "p < n" using assms(1) n by simp
    define q1 where "q1 = q[n := (q ! n)\<lparr>entry_speed_sqr := fl_min (max_entry_speed_sqr (q ! n)) (speed_gain (q ! n))\<rparr>]"
    define q2 where "q2 = (if n = 1 then u q1 else back_list u p (n - 1) q1)"
    have q1: "length q1 = Suc n" "entry_ok (q1 ! n)" "\<And>i. i < n \<Longrightarrow> q1 ! i = q ! i"
      using n by (simp_all add: q1_def min_entry_ok)
    have q2: "length q2 = Suc n \<and> (\<forall>i. p < i \<longrightarrow> i \<le> n \<longrightarrow> entry_ok (q2 ! i)) \<and> (\<forall>i\<le>p. 0 < p \<longrightarrow> q2 ! i = q ! i)"
    proof (cases "n = 1")
      case True
      then show ?thesis using p q1 assms(2,3) by (auto simp: q2_def le_Suc_eq)
    next
      case False
      have b: "\<And>i. 0 < i \<Longrightarrow> i \<le> p \<or> n - 1 < i \<Longrightarrow> q2 ! i = q1 ! i" "\<And>i. p < i \<Longrightarrow> i \<le> n - 1 \<Longrightarrow> entry_ok (q2 ! i)"
          "0 < p \<Longrightarrow> q2 ! 0 = q1 ! 0" "length q2 = Suc n"
        using back_list_ok [OF assms(2,3), of "n - 1" q1 p] q1(1) p False assms(3) unfolding q2_def by auto
      have "entry_ok (q2 ! i)" if "p < i" "i \<le> n" for i
        using b(1) [of i] b(2) [of i] q1(2) that by (cases "i = n") auto
      moreover have "q2 ! i = q ! i" if "i \<le> p" "0 < p" for i
        using b(1) [of i] b(3) q1(3) that p by (cases i) auto
      ultimately show ?thesis using b(4) by blast
    qed
    have r: "plan_list u p q = fwd_list (n - p) p (p, q2)"
      using False n by (simp add: plan_list_def Let_def q1_def q2_def)
    have f: "(\<forall>k\<le>p. snd (plan_list u p q) ! k = q2 ! k) \<and> length (snd (plan_list u p q)) = Suc n \<and>
      (\<forall>k. p \<le> k \<longrightarrow> Suc k < Suc n \<longrightarrow> entry_ok (snd (plan_list u p q) ! Suc k) \<and>
       accel_ok (snd (plan_list u p q) ! k) (snd (plan_list u p q) ! Suc k))"
      using fwd_list_ok [of p "n - p" q2 p] q2 p unfolding r by simp
    show ?thesis
      unfolding plan_feasible_def
    proof (intro conjI allI impI)
      fix i assume i: "Suc i < length (snd (plan_list u p q))"
      show "entry_ok (snd (plan_list u p q) ! Suc i)" "accel_ok (snd (plan_list u p q) ! i) (snd (plan_list u p q) ! Suc i)"
        using f i q2 assms(4) by (cases "p \<le> i"; simp)+
    qed (use f n in simp)
  qed
qed

section \<open>The invariant of the planner\<close>

definition plan_inv :: "'a plan_state_scheme \<Rightarrow> bool" where
  "plan_inv s = (block_ring s \<and> next_buffer_head s = plan_next_block_index (block_buffer_head s) \<and> running_ok s \<and>
     (\<exists>p. block_buffer_planned s = slot s p \<and> (p < length (queue s) \<or> p = 0)) \<and> plan_feasible (queue s))"

text \<open>Only the free block at the head has been written.\<close>

definition head_written :: "'a plan_state_scheme \<Rightarrow> 'a plan_state_scheme \<Rightarrow> bool" where
  "head_written s t = ((\<exists>b. block_buffer t = (block_buffer s)[unat (block_buffer_head s) := b]) \<and>
     block_buffer_tail t = block_buffer_tail s \<and> block_buffer_head t = block_buffer_head s \<and>
     next_buffer_head t = next_buffer_head s \<and> block_buffer_planned t = block_buffer_planned s \<and>
     pl_block t = pl_block s \<and> prep t = prep s)"

lemma head_written_refl: "head_written s s"
  unfolding head_written_def by (metis list_update_id)

lemma head_written_upd: "head_written s t \<Longrightarrow> h = block_buffer_head s \<Longrightarrow> head_written s (upd_block h f t)"
  by (auto simp: head_written_def upd_block_def)

lemma head_written_if: "(c \<Longrightarrow> head_written s t) \<Longrightarrow> (\<not> c \<Longrightarrow> head_written s u) \<Longrightarrow> head_written s (if c then t else u)"
  by simp

lemma head_written_inv:
  assumes "plan_inv s" "head_written s t"
  shows "plan_inv t"
proof -
  have r: "block_ring s" using assms(1) by (simp add: plan_inv_def)
  have q: "queue t = queue s" "slot t = slot s" "block_ring t"
    using assms(2) block_ring_nat [OF r]
    by (auto simp: queue_def head_written_def ring_list_frame slot_def fun_eq_iff block_ring_def word_less_nat_alt)
  show ?thesis using assms q by (auto simp: plan_inv_def head_written_def running_ok_def)
qed

lemma enqueue_block:
  assumes inv: "plan_inv s" and room: "\<not> plan_check_full_buffer s" and w: "head_written s t"
    and u: "u = t\<lparr>block_buffer_head := next_buffer_head t, next_buffer_head := plan_next_block_index (next_buffer_head t)\<rparr>"
  shows "\<exists>b. queue u = queue s @ [b] \<and> block_ring u \<and> slot u = slot s \<and> running_ok u \<and>
    next_buffer_head u = plan_next_block_index (block_buffer_head u) \<and> block_buffer_planned u = block_buffer_planned s"
proof -
  have r: "block_ring s" using inv by (simp add: plan_inv_def)
  note n = block_ring_nat [OF r]
  have nh: "unat (next_buffer_head s) = ring_next 18 (unat (block_buffer_head s))"
    using inv unat_plan_next [of "block_buffer_head s"] r by (simp add: plan_inv_def block_ring_def)
  have ne: "ring_next 18 (unat (block_buffer_head s)) \<noteq> unat (block_buffer_tail s)"
    using room nh by (auto simp: plan_check_full_buffer_def word_unat_eq_iff)
  obtain b where b: "block_buffer t = (block_buffer s)[unat (block_buffer_head s) := b]"
    using w by (auto simp: head_written_def)
  have "queue u = queue s @ [b]"
    using ring_list_put [OF n(1) n(3) n(2) ne, of b] w b nh by (simp add: queue_def u head_written_def)
  moreover have "block_ring u"
    using n nh w b ring_next_less [of "unat (block_buffer_head s)" 18]
    by (simp add: block_ring_def u head_written_def word_less_nat_alt)
  ultimately show ?thesis
    using w inv by (auto simp: u head_written_def slot_def fun_eq_iff running_ok_def plan_inv_def)
qed

lemma fwd_list_planned: "p \<le> i \<Longrightarrow> fst (fwd_list r i (p, q)) \<le> i + r"
  by (induction r i "(p, q)" arbitrary: p q rule: fwd_list.induct) fastforce+

lemma plan_list_planned:
  assumes "p < length q"
  shows "fst (plan_list u p q) < length q"
proof (cases "length q - 1 = p")
  case True
  then show ?thesis unfolding plan_list_def Let_def if_P [OF True] using assms by (simp only: fst_conv)
next
  case False
  have "fst (fwd_list (length q - 1 - p) p (p, q')) < length q" for q'
    using fwd_list_planned [of p p "length q - 1 - p" q', OF order_refl] assms by linarith
  then show ?thesis unfolding plan_list_def Let_def if_not_P [OF False] .
qed

lemma running_entry_keeps: "0 < i \<Longrightarrow> running_entry s q ! i = q ! i"
  by (simp add: running_entry_def)

lemma recalculate_inv:
  assumes "block_ring s" "block_buffer_planned s = slot s p" "p < length (queue s)" "running_ok s"
    "next_buffer_head s = plan_next_block_index (block_buffer_head s)"
    "\<forall>i<p. entry_ok (queue s ! Suc i) \<and> accel_ok (queue s ! i) (queue s ! Suc i)"
  shows "\<exists>s'. planner_recalculate s = Some s' \<and> plan_inv s'"
proof -
  obtain s' p' where s': "planner_recalculate s = Some s'" "same_ring s s'" "block_buffer_planned s' = slot s p'"
      "(p', queue s') = plan_list (running_entry s) p (queue s)"
    using recalculate_refines [OF assms(1-4)] by blast
  have r: "p' = fst (plan_list (running_entry s) p (queue s))" "queue s' = snd (plan_list (running_entry s) p (queue s))"
    using arg_cong [OF s'(4), of fst] arg_cong [OF s'(4), of snd] by simp_all
  have ok: "plan_feasible (snd (plan_list (running_entry s) p (queue s))) \<and>
      length (snd (plan_list (running_entry s) p (queue s))) = length (queue s)"
    by (rule plan_list_ok [OF assms(3) running_entry_keeps length_running assms(6)])
  have "plan_feasible (queue s')" "p' < length (queue s')"
    using ok plan_list_planned [OF assms(3), of "running_entry s"] unfolding r by simp_all
  then have "plan_inv s'"
    using s'(2,3) same_ring_slot [OF s'(2)] assms(4,5) by (auto simp: plan_inv_def same_ring_def running_ok_def)
  with s'(1) show ?thesis by blast
qed

text \<open>
  C6: Planning a line into a ring with a free slot always returns, and keeps the invariant of the
  planner: the pointers describe a queue with the planned pointer inside, no block enters faster
  than its junction allows, and none faster than the block before can accelerate to.
\<close>

theorem buffer_line_invariant:
  assumes "plan_inv s" "\<not> plan_check_full_buffer s"
  shows "\<exists>s'. plan_buffer_line target feed iv s = Some s' \<and> plan_inv s'"
proof -
  have line: "\<exists>s'. planner_recalculate ((t\<lparr>previous_unit_vec := v, previous_nominal_speed_sqr := n, pl_position := p,
        block_buffer_head := next_buffer_head t\<rparr>)\<lparr>next_buffer_head := plan_next_block_index (block_buffer_head
        (t\<lparr>previous_unit_vec := v, previous_nominal_speed_sqr := n, pl_position := p, block_buffer_head := next_buffer_head t\<rparr>))\<rparr>)
      = Some s' \<and> plan_inv s'" if w: "head_written s t" for t v n p
  proof -
    define u where "u = t\<lparr>previous_unit_vec := v, previous_nominal_speed_sqr := n, pl_position := p,
      block_buffer_head := next_buffer_head t, next_buffer_head := plan_next_block_index (next_buffer_head t)\<rparr>"
    have "head_written s (t\<lparr>previous_unit_vec := v, previous_nominal_speed_sqr := n, pl_position := p\<rparr>)"
      using w by (simp add: head_written_def)
    from enqueue_block [OF assms this, of u] obtain b where b: "queue u = queue s @ [b]" "block_ring u" "slot u = slot s"
        "running_ok u" "next_buffer_head u = plan_next_block_index (block_buffer_head u)"
        "block_buffer_planned u = block_buffer_planned s"
      by (auto simp: u_def)
    obtain k where k: "block_buffer_planned s = slot s k" "k < length (queue s) \<or> k = 0"
      using assms(1) by (auto simp: plan_inv_def)
    have "\<exists>s'. planner_recalculate u = Some s' \<and> plan_inv s'"
      using assms(1) b k by (intro recalculate_inv [of u k]) (auto simp: plan_inv_def plan_feasible_def nth_append)
    then show ?thesis by (simp add: u_def)
  qed
  show ?thesis
  proof (cases "line_event_count (block_steps (cfg s) (map (\<lambda>idx. line_steps (cfg s) target ! idx - pl_position s ! idx) [0..<N_AXIS])) = 0")
    case True
    then show ?thesis
      unfolding plan_buffer_line_def Let_def
      using head_written_inv [OF assms(1) head_written_upd [OF head_written_refl refl]] by simp
  next
    case False
    then show ?thesis
      unfolding plan_buffer_line_def Let_def if_not_P [OF False]
      by (intro line head_written_upd head_written_if head_written_refl refl)
  qed
qed

text \<open>The invariant holds after a reset.\<close>

lemma plan_inv_reset: "length (block_buffer s) = unat BLOCK_BUFFER_SIZE \<Longrightarrow> pl_block s = None \<Longrightarrow> plan_inv (plan_reset s)"
  by (simp add: plan_inv_def plan_reset_def block_ring_def running_ok_def plan_feasible_def queue_def slot_def
      plan_next_block_index_def exI [of _ 0])

text \<open>
  C20: Discarding the finished block takes the first one from the queue and keeps the invariant of
  the planner.
\<close>

theorem discard_takes_first:
  assumes inv: "plan_inv s" and q: "queue s = b # bs" and run: "pl_block s = None"
  shows "queue (plan_discard_current_block s) = bs \<and> plan_inv (plan_discard_current_block s)"
proof -
  let ?s = "plan_discard_current_block s"
  have r: "block_ring s" using inv by (simp add: plan_inv_def)
  note n = block_ring_nat [OF r]
  have ne: "block_buffer_head s \<noteq> block_buffer_tail s" using q by (auto simp: queue_def)
  then have ne': "unat (block_buffer_head s) \<noteq> unat (block_buffer_tail s)" by (simp add: word_unat_eq_iff)
  have f: "block_buffer ?s = block_buffer s" "block_buffer_head ?s = block_buffer_head s" "next_buffer_head ?s = next_buffer_head s"
      "block_buffer_tail ?s = plan_next_block_index (block_buffer_tail s)" "pl_block ?s = pl_block s"
      "block_buffer_planned ?s = (if block_buffer_tail s = block_buffer_planned s then plan_next_block_index (block_buffer_tail s)
         else block_buffer_planned s)"
    using ne by (simp_all add: plan_discard_current_block_def Let_def)
  have t: "unat (block_buffer_tail ?s) = ring_next 18 (unat (block_buffer_tail s))"
    using unat_plan_next [of "block_buffer_tail s"] r by (simp add: f block_ring_def)
  have bs: "queue ?s = bs"
    using ring_list_get [OF n(1,3,2) ne'] q t by (simp add: queue_def f)
  have ring: "block_ring ?s" using r plan_next_less by (simp add: block_ring_def f)
  have slots: "slot ?s k = slot s (Suc k)" for k
    using n(2) by (simp add: word_unat_eq_iff unat_slot t ring_next_mod mod_add_left_eq)
  obtain p where p: "block_buffer_planned s = slot s p" "p < length (queue s) \<or> p = 0"
    using inv by (auto simp: plan_inv_def)
  have "\<exists>p. block_buffer_planned ?s = slot ?s p \<and> (p < length (queue ?s) \<or> p = 0)"
  proof (cases p)
    case 0
    then have "block_buffer_planned ?s = slot ?s 0" using p(1) slot_0 [OF r] slot_0 [OF ring] f by simp
    then show ?thesis by blast
  next
    case (Suc k)
    have "block_buffer_tail s \<noteq> block_buffer_planned s"
      using tail_slot [OF r, of p] p Suc length_queue_less [OF r] by auto
    then have "block_buffer_planned ?s = slot ?s k" using p(1) Suc f slots by simp
    then show ?thesis using p(2) Suc q bs by auto
  qed
  moreover have "plan_feasible bs"
    using inv q by (auto simp: plan_inv_def plan_feasible_def)
  ultimately show ?thesis
    using bs ring f inv run by (simp add: plan_inv_def running_ok_def)
qed

section \<open>Examples\<close>

definition two_blocks :: machine where
  "two_blocks = (plan_reset (zero_machine fresh_flash))\<lparr>block_buffer_head := 2, next_buffer_head := 3\<rparr>"

lemma two_blocks: "block_ring two_blocks" "block_buffer_planned two_blocks = slot two_blocks 0" "length (queue two_blocks) = 2"
  "running_ok two_blocks"
  by (simp_all add: two_blocks_def block_ring_def plan_reset_def zero_machine_def slot_def queue_def ring_count_def running_ok_def)

theorem recalculate_refines_witness:
  "\<exists>s'. planner_recalculate two_blocks = Some s' \<and> same_ring two_blocks s' \<and>
    (\<exists>p'. block_buffer_planned s' = slot two_blocks p' \<and>
       (p', queue s') = plan_list (running_entry two_blocks) 0 (queue two_blocks))"
  by (rule recalculate_refines) (simp_all add: two_blocks)

theorem buffer_line_invariant_witness:
  "\<exists>s'. plan_buffer_line [Fin 1, Fin 2, Fin 0] (Fin 100) False (plan_reset (zero_machine fresh_flash)) = Some s' \<and> plan_inv s'"
  by (rule buffer_line_invariant [OF plan_inv_reset])
    (simp_all add: zero_machine_def plan_check_full_buffer_def plan_reset_def)

theorem discard_takes_first_witness:
  "queue (plan_discard_current_block (two_blocks\<lparr>block_buffer_head := 1, next_buffer_head := 2\<rparr>)) = [] \<and>
   plan_inv (plan_discard_current_block (two_blocks\<lparr>block_buffer_head := 1, next_buffer_head := 2\<rparr>))"
proof (rule discard_takes_first)
  let ?s = "two_blocks\<lparr>block_buffer_head := 1, next_buffer_head := 2\<rparr>"
  show q: "queue ?s = [zero_block]"
    by (simp add: two_blocks_def plan_reset_def zero_machine_def queue_def ring_list_def ring_count_def)
  have "block_buffer_planned ?s = slot ?s 0" by (simp add: two_blocks_def plan_reset_def zero_machine_def slot_def)
  then show "plan_inv ?s"
    unfolding plan_inv_def q
    by (intro conjI exI [of _ 0])
      (simp_all add: plan_feasible_def two_blocks_def plan_reset_def zero_machine_def block_ring_def running_ok_def
        plan_next_block_index_def)
qed (simp add: two_blocks_def plan_reset_def zero_machine_def)

end
