(* ===== verification/Report.thy ===== *)
theory Report
  imports Machine
begin

text \<open>
  The messages to the host (\<open>report.c\<close>), as the bytes each report hands to the serial port.
  A report that prints floats has no value when \<open>printFloat\<close> overruns its buffer.
\<close>

abbreviation (input) ALARM_HARD_LIMIT_ERROR :: u8 where "ALARM_HARD_LIMIT_ERROR \<equiv> 1"
abbreviation (input) ALARM_SOFT_LIMIT_ERROR :: u8 where "ALARM_SOFT_LIMIT_ERROR \<equiv> 2"
abbreviation (input) ALARM_ABORT_CYCLE :: u8 where "ALARM_ABORT_CYCLE \<equiv> 3"
abbreviation (input) ALARM_PROBE_FAIL :: u8 where "ALARM_PROBE_FAIL \<equiv> 4"
abbreviation (input) ALARM_HOMING_FAIL :: u8 where "ALARM_HOMING_FAIL \<equiv> 5"

abbreviation (input) MESSAGE_CRITICAL_EVENT :: u8 where "MESSAGE_CRITICAL_EVENT \<equiv> 1"
abbreviation (input) MESSAGE_ALARM_LOCK :: u8 where "MESSAGE_ALARM_LOCK \<equiv> 2"
abbreviation (input) MESSAGE_ALARM_UNLOCK :: u8 where "MESSAGE_ALARM_UNLOCK \<equiv> 3"
abbreviation (input) MESSAGE_ENABLED :: u8 where "MESSAGE_ENABLED \<equiv> 4"
abbreviation (input) MESSAGE_DISABLED :: u8 where "MESSAGE_DISABLED \<equiv> 5"
abbreviation (input) MESSAGE_SAFETY_DOOR_AJAR :: u8 where "MESSAGE_SAFETY_DOOR_AJAR \<equiv> 6"
abbreviation (input) MESSAGE_PROGRAM_END :: u8 where "MESSAGE_PROGRAM_END \<equiv> 7"
abbreviation (input) MESSAGE_RESTORE_DEFAULTS :: u8 where "MESSAGE_RESTORE_DEFAULTS \<equiv> 8"

abbreviation (input) BITFLAG_RT_STATUS_MACHINE_POSITION :: u8 where "BITFLAG_RT_STATUS_MACHINE_POSITION \<equiv> 1"
abbreviation (input) BITFLAG_RT_STATUS_WORK_POSITION :: u8 where "BITFLAG_RT_STATUS_WORK_POSITION \<equiv> 2"
abbreviation (input) BITFLAG_RT_STATUS_PLANNER_BUFFER :: u8 where "BITFLAG_RT_STATUS_PLANNER_BUFFER \<equiv> 4"
abbreviation (input) BITFLAG_RT_STATUS_SERIAL_RX :: u8 where "BITFLAG_RT_STATUS_SERIAL_RX \<equiv> 8"
abbreviation (input) BITFLAG_RT_STATUS_LIMIT_PINS :: u8 where "BITFLAG_RT_STATUS_LIMIT_PINS \<equiv> 16"

definition CRLF :: "u8 list" where "CRLF = [13, 10]"

text \<open>A sequence of prints.\<close>

definition prints :: "u8 list option list \<Rightarrow> u8 list option" where
  "prints xs = map_option concat (those xs)"

abbreviation say :: "string \<Rightarrow> u8 list option" where
  "say t \<equiv> Some (bytes t)"

section \<open>Status, alarm and feedback messages\<close>

definition status_text :: "u8 \<Rightarrow> u8 list" where
  "status_text status_code =
     (if status_code = STATUS_EXPECTED_COMMAND_LETTER then bytes ''Expected command letter''
      else if status_code = STATUS_BAD_NUMBER_FORMAT then bytes ''Bad number format''
      else if status_code = STATUS_INVALID_STATEMENT then bytes ''Invalid statement''
      else if status_code = STATUS_NEGATIVE_VALUE then bytes ''Value < 0''
      else if status_code = STATUS_SETTING_DISABLED then bytes ''Setting disabled''
      else if status_code = STATUS_SETTING_STEP_PULSE_MIN then bytes ''Value < 3 usec''
      else if status_code = STATUS_SETTING_READ_FAIL then bytes ''EEPROM read fail. Using defaults''
      else if status_code = STATUS_IDLE_ERROR then bytes ''Not idle''
      else if status_code = STATUS_ALARM_LOCK then bytes ''Alarm lock''
      else if status_code = STATUS_SOFT_LIMIT_ERROR then bytes ''Homing not enabled''
      else if status_code = STATUS_OVERFLOW then bytes ''Line overflow''
      else if status_code = STATUS_GCODE_MODAL_GROUP_VIOLATION then bytes ''Modal group violation''
      else if status_code = STATUS_GCODE_UNSUPPORTED_COMMAND then bytes ''Unsupported command''
      else if status_code = STATUS_GCODE_UNDEFINED_FEED_RATE then bytes ''Undefined feed rate''
      else bytes ''Invalid gcode ID:'' @ print_uint8_base10 status_code)"

definition report_status_message :: "u8 \<Rightarrow> u8 list" where
  "report_status_message status_code =
     (if status_code = 0 then bytes ''ok'' @ CRLF else bytes ''error: '' @ status_text status_code @ CRLF)"

definition alarm_text :: "u8 \<Rightarrow> u8 list" where
  "alarm_text alarm_code =
     (if alarm_code = ALARM_HARD_LIMIT_ERROR then bytes ''Hard limit''
      else if alarm_code = ALARM_SOFT_LIMIT_ERROR then bytes ''Soft limit''
      else if alarm_code = ALARM_ABORT_CYCLE then bytes ''Abort during cycle''
      else if alarm_code = ALARM_PROBE_FAIL then bytes ''Probe fail''
      else if alarm_code = ALARM_HOMING_FAIL then bytes ''Homing fail'' else [])"

definition report_alarm_message :: "u8 \<Rightarrow> machine \<Rightarrow> machine" where
  "report_alarm_message alarm_code m =
     delay_ms 500 (emit (bytes ''ALARM: '' @ alarm_text alarm_code @ CRLF) m)"

definition feedback_text :: "u8 \<Rightarrow> u8 list" where
  "feedback_text message_code =
     (if message_code = MESSAGE_CRITICAL_EVENT then bytes ''Reset to continue''
      else if message_code = MESSAGE_ALARM_LOCK then
        [39] @ bytes ''$H'' @ [39] @ bytes ''|'' @ [39] @ bytes ''$X'' @ [39] @ bytes '' to unlock''
      else if message_code = MESSAGE_ALARM_UNLOCK then bytes ''Caution: Unlocked''
      else if message_code = MESSAGE_ENABLED then bytes ''Enabled''
      else if message_code = MESSAGE_DISABLED then bytes ''Disabled''
      else if message_code = MESSAGE_SAFETY_DOOR_AJAR then bytes ''Check Door''
      else if message_code = MESSAGE_PROGRAM_END then bytes ''Pgm End''
      else if message_code = MESSAGE_RESTORE_DEFAULTS then bytes ''Restoring defaults'' else [])"

definition report_feedback_message :: "u8 \<Rightarrow> u8 list" where
  "report_feedback_message message_code = bytes ''['' @ feedback_text message_code @ bytes '']'' @ CRLF"

definition report_init_message :: "u8 list" where
  "report_init_message = CRLF @ bytes ''Grbl 0.9j ['' @ [39] @ bytes ''$'' @ [39] @ bytes '' for help]'' @ CRLF"

definition report_grbl_help :: "u8 list" where
  "report_grbl_help = concat (map (\<lambda>t. bytes t @ CRLF)
     [''$$ (view Grbl settings)'', ''$# (view # parameters)'', ''$G (view parser state)'',
      ''$I (view build info)'', ''$N (view startup blocks)'', ''$x=value (save Grbl setting)'',
      ''$Nx=line (save startup block)'', ''$C (check gcode mode)'', ''$X (kill alarm lock)'',
      ''$H (run homing cycle)'', ''~ (cycle start)'', ''! (feed hold)'', ''? (current status)'',
      ''ctrl-x (reset Grbl)''])"

section \<open>Settings\<close>

definition setting_line :: "string \<Rightarrow> u8 list option \<Rightarrow> string \<Rightarrow> u8 list option" where
  "setting_line number val description = prints [say number, val, say description, Some CRLF]"

definition print_flag :: "settings_t \<Rightarrow> u8 \<Rightarrow> u8 list option" where
  "print_flag c f = Some (print_uint8_base10 (if bit_istrue (flags c) f then 1 else 0))"

definition mask_line :: "string \<Rightarrow> u8 \<Rightarrow> string \<Rightarrow> u8 list option" where
  "mask_line number val description =
     prints [say number, Some (print_uint8_base10 val), say description, Some (print_uint8_base2 val), say '')'', Some CRLF]"

definition report_common_settings :: "settings_t \<Rightarrow> u8 list option" where
  "report_common_settings c = prints
     [setting_line ''$0='' (Some (print_uint8_base10 (pulse_microseconds c))) '' (step pulse, usec)'',
      setting_line ''$1='' (Some (print_uint8_base10 (stepper_idle_lock_time c))) '' (step idle delay, msec)'',
      mask_line ''$2='' (step_invert_mask c) '' (step port invert mask:'',
      mask_line ''$3='' (dir_invert_mask c) '' (dir port invert mask:'',
      setting_line ''$4='' (print_flag c BITFLAG_INVERT_ST_ENABLE) '' (step enable invert, bool)'',
      setting_line ''$5='' (print_flag c BITFLAG_INVERT_LIMIT_PINS) '' (limit pins invert, bool)'',
      setting_line ''$6='' (print_flag c BITFLAG_INVERT_PROBE_PIN) '' (probe pin invert, bool)'',
      mask_line ''$10='' (status_report_mask c) '' (status report mask:'',
      setting_line ''$11='' (printFloat_SettingValue (junction_deviation c)) '' (junction deviation, mm)'',
      setting_line ''$12='' (printFloat_SettingValue (arc_tolerance c)) '' (arc tolerance, mm)'',
      setting_line ''$13='' (print_flag c BITFLAG_REPORT_INCHES) '' (report inches, bool)'',
      setting_line ''$20='' (print_flag c BITFLAG_SOFT_LIMIT_ENABLE) '' (soft limits, bool)'',
      setting_line ''$21='' (print_flag c BITFLAG_HARD_LIMIT_ENABLE) '' (hard limits, bool)'',
      setting_line ''$22='' (print_flag c BITFLAG_HOMING_ENABLE) '' (homing cycle, bool)'',
      mask_line ''$23='' (homing_dir_mask c) '' (homing dir invert mask:'',
      setting_line ''$24='' (printFloat_SettingValue (homing_feed_rate c)) '' (homing feed, mm/min)'',
      setting_line ''$25='' (printFloat_SettingValue (homing_seek_rate c)) '' (homing seek, mm/min)'',
      setting_line ''$26='' (Some (print_uint32_base10 (ucast (homing_debounce_delay c)))) '' (homing debounce, msec)'',
      setting_line ''$27='' (printFloat_SettingValue (homing_pulloff c)) '' (homing pull-off, mm)'',
      setting_line ''$28='' (Some (print_uint32_base10 (spindle_pwm_period c))) '' (Spindle pwm period, us)'',
      setting_line ''$29='' (Some (print_uint32_base10 (spindle_pwm_max_time_on c))) '' (Spindle pwm Max time-on, us)'',
      setting_line ''$30='' (Some (print_uint32_base10 (spindle_pwm_min_time_on c))) '' (Spindle pwm min time-on, us)'',
      setting_line ''$31='' (Some (print_uint32_base10 (spindle_pwm_enable_at_start c))) '' (Spindle pwm Enabled at startup)'']"

definition axis_setting_value :: "settings_t \<Rightarrow> nat \<Rightarrow> nat \<Rightarrow> fl" where
  "axis_setting_value c set_idx idx =
     (if set_idx = 0 then steps_per_mm c ! idx
      else if set_idx = 1 then max_rate c ! idx
      else if set_idx = 2 then f32_div (settings_t.acceleration c ! idx) (f32_of_int (60 * 60))
      else fl_neg (max_travel c ! idx))"

definition report_axis_setting :: "settings_t \<Rightarrow> nat \<Rightarrow> nat \<Rightarrow> u8 list option" where
  "report_axis_setting c set_idx idx = prints
     [say ''$'',
      Some (print_uint8_base10 (AXIS_SETTINGS_START_VAL + of_nat set_idx * AXIS_SETTINGS_INCREMENT + of_nat idx)),
      say ''='', printFloat_SettingValue (axis_setting_value c set_idx idx), say '' ('',
      say (if idx = X_AXIS then ''x'' else if idx = Y_AXIS then ''y'' else ''z''),
      say (if set_idx = 0 then '', step/mm'' else if set_idx = 1 then '' max rate, mm/min''
           else if set_idx = 2 then '' accel, mm/sec^2'' else '' max travel, mm''),
      say '')'', Some CRLF]"

definition report_grbl_settings :: "settings_t \<Rightarrow> u8 list option" where
  "report_grbl_settings c =
     prints (report_common_settings c #
       concat (map (\<lambda>set_idx. map (report_axis_setting c set_idx) [0..<N_AXIS]) [0..<AXIS_N_SETTINGS]))"

section \<open>Positions and parser state\<close>

abbreviation inches :: "machine \<Rightarrow> bool" where
  "inches m \<equiv> bit_istrue (flags (cfg m)) BITFLAG_REPORT_INCHES"

text \<open>A vector of coordinates, separated by commas.\<close>

fun print_coords :: "bool \<Rightarrow> fl list \<Rightarrow> u8 list option" where
  "print_coords i [] = Some []"
| "print_coords i [x] = printFloat_CoordValue i x"
| "print_coords i (x # y # xs) = prints [printFloat_CoordValue i x, say '','', print_coords i (y # xs)]"

definition report_probe_parameters :: "machine \<Rightarrow> u8 list option" where
  "report_probe_parameters m = prints
     [say ''[PRB:'',
      print_coords (inches m) (map (system_convert_axis_steps_to_mpos (cfg m) (probe_position (sys m))) [0..<N_AXIS]),
      say '':'', Some (print_uint8_base10 (if probe_succeeded (sys m) then 1 else 0)), say '']'', Some CRLF]"

definition report_coord_system :: "bool \<Rightarrow> u8 \<Rightarrow> fl vec \<Rightarrow> u8 list option" where
  "report_coord_system i sel coord_data = prints
     [say ''[G'',
      if sel = 6 then say ''28'' else if sel = 7 then say ''30'' else Some (print_uint8_base10 (sel + 54)),
      say '':'', print_coords i coord_data, say '']'', Some CRLF]"

text \<open>The coordinate systems from number \<open>sel\<close> on; reading one may rewrite a bad record.  The
  result tells whether every read was good.\<close>

fun report_coord_systems :: "nat \<Rightarrow> u8 \<Rightarrow> machine \<Rightarrow> (bool \<times> machine) option" where
  "report_coord_systems 0 sel m = Some (True, m)"
| "report_coord_systems (Suc n) sel m = do {
     (ok, coord_data, f) \<leftarrow> settings_read_coord_data sel (nvm (env m));
     let m = m\<lparr>env := (env m)\<lparr>nvm := f\<rparr>\<rparr>;
     if \<not> ok then Some (False, emit (report_status_message STATUS_SETTING_READ_FAIL) m)
     else do {
       bs \<leftarrow> report_coord_system (inches m) sel coord_data;
       report_coord_systems n (sel + 1) (emit bs m)
     }
   }"

definition report_ngc_parameters :: "machine \<Rightarrow> machine option" where
  "report_ngc_parameters m = do {
     (ok, m) \<leftarrow> report_coord_systems (unat SETTING_INDEX_NCOORD + 1) 0 m;
     if \<not> ok then Some m
     else do {
       bs \<leftarrow> prints
         [say ''[G92:'', print_coords (inches m) (coord_offset (gc_state m)), say '']'', Some CRLF,
          say ''[TLO:'', printFloat_CoordValue (inches m) (tool_length_offset (gc_state m)), say '']'', Some CRLF,
          report_probe_parameters m];
       Some (emit bs m)
     }
   }"

definition motion_text :: "u8 \<Rightarrow> u8 list" where
  "motion_text mo =
     (if mo = MOTION_MODE_SEEK then bytes ''G0'' else if mo = MOTION_MODE_LINEAR then bytes ''G1''
      else if mo = MOTION_MODE_CW_ARC then bytes ''G2'' else if mo = MOTION_MODE_CCW_ARC then bytes ''G3''
      else if mo = MOTION_MODE_NONE then bytes ''G80''
      else bytes ''G38.'' @ print_uint8_base10 (mo - (MOTION_MODE_PROBE_TOWARD - 2)))"

definition modal_text :: "gc_modal_t \<Rightarrow> u8 list" where
  "modal_text g =
     bytes '' G'' @ print_uint8_base10 (coord_select g + 54) @
     (if plane_select g = PLANE_SELECT_XY then bytes '' G17'' else if plane_select g = PLANE_SELECT_ZX then bytes '' G18''
      else if plane_select g = PLANE_SELECT_YZ then bytes '' G19'' else []) @
     (if units g = UNITS_MODE_MM then bytes '' G21'' else bytes '' G20'') @
     (if distance g = DISTANCE_MODE_ABSOLUTE then bytes '' G90'' else bytes '' G91'') @
     (if feed_rate_mode g = FEED_RATE_MODE_INVERSE_TIME then bytes '' G93'' else bytes '' G94'') @
     (if program_flow g = PROGRAM_FLOW_RUNNING then bytes '' M0'' else if program_flow g = PROGRAM_FLOW_PAUSED then bytes '' M1''
      else if program_flow g = PROGRAM_FLOW_COMPLETED then bytes '' M2'' else []) @
     (if spindle_mode g = SPINDLE_ENABLE_CW then bytes '' M3'' else if spindle_mode g = SPINDLE_ENABLE_CCW then bytes '' M4''
      else if spindle_mode g = SPINDLE_DISABLE then bytes '' M5'' else []) @
     (if coolant_mode g = COOLANT_DISABLE then bytes '' M9'' else if coolant_mode g = COOLANT_FLOOD_ENABLE then bytes '' M8'' else [])"

definition report_gcode_modes :: "machine \<Rightarrow> u8 list option" where
  "report_gcode_modes m = prints
     [say ''['', Some (motion_text (motion (modal (gc_state m)))), Some (modal_text (modal (gc_state m))),
      say '' T'', Some (print_uint8_base10 (tool (gc_state m))),
      say '' F'', printFloat_RateValue (inches m) (feed_rate (gc_state m)),
      say '' S'', printFloat_RateValue (inches m) (spindle_speed (gc_state m)), say '']'', Some CRLF]"

definition report_startup_line :: "u8 \<Rightarrow> u8 list \<Rightarrow> u8 list" where
  "report_startup_line n line = bytes ''$N'' @ print_uint8_base10 n @ bytes ''='' @ printString line @ CRLF"

text \<open>The build date \<open>__DATE__ __TIME__\<close> is put in by the compiler and is a parameter.\<close>

definition report_build_info :: "u8 list \<Rightarrow> u8 list \<Rightarrow> u8 list" where
  "report_build_info build_date line =
     bytes ''[Version: 0.9j - Build date: '' @ build_date @ bytes '' '' @ printString line @ bytes '']'' @ CRLF"

section \<open>The real-time status\<close>

definition state_text :: "u8 \<Rightarrow> u8 list" where
  "state_text x =
     (if x = STATE_IDLE then bytes ''<Idle''
      else if x = STATE_MOTION_CANCEL \<or> x = STATE_CYCLE then bytes ''<Run''
      else if x = STATE_HOLD then bytes ''<Hold''
      else if x = STATE_HOMING then bytes ''<Home''
      else if x = STATE_ALARM then bytes ''<Alarm''
      else if x = STATE_CHECK_MODE then bytes ''<Check''
      else if x = STATE_SAFETY_DOOR then bytes ''<Door'' else [])"

definition work_position :: "parser_state_t \<Rightarrow> fl vec \<Rightarrow> nat \<Rightarrow> fl" where
  "work_position g mpos idx =
     (let p = f32_sub (mpos ! idx) (f32_add (coord_system g ! idx) (coord_offset g ! idx))
      in if idx = TOOL_LENGTH_OFFSET_AXIS then f32_sub p (tool_length_offset g) else p)"

definition report_realtime_status :: "machine \<Rightarrow> u8 list option" where
  "report_realtime_status m =
     (let mpos = system_convert_array_steps_to_mpos (cfg m) (position (sys m));
          shown = (\<lambda>f. bit_istrue (status_report_mask (cfg m)) f)
      in prints
       [Some (state_text (state (sys m))),
        if shown BITFLAG_RT_STATUS_MACHINE_POSITION then prints [say '',MPos:'', print_coords (inches m) mpos] else Some [],
        if shown BITFLAG_RT_STATUS_WORK_POSITION then
          prints [say '',WPos:'', print_coords (inches m) (map (work_position (gc_state m) mpos) [0..<N_AXIS])]
        else Some [],
        if shown BITFLAG_RT_STATUS_PLANNER_BUFFER then
          prints [say '',Buf:'', Some (print_uint8_base10 (plan_get_block_buffer_count m))] else Some [],
        if shown BITFLAG_RT_STATUS_SERIAL_RX then
          prints [say '',RX:'', Some (print_uint8_base10 (serial_get_rx_buffer_count (ser m)))] else Some [],
        if shown BITFLAG_RT_STATUS_LIMIT_PINS then
          prints [say '',Lim:'', Some (print_unsigned_int8 (limits_get_state m) 2 (of_nat N_AXIS))] else Some [],
        say ''>'', Some CRLF])"

end
