(* ===== verification/Protocol.thy ===== *)
theory Protocol
  imports Report
begin

text \<open>
  The real-time executor (\<open>protocol.c\<close>): the alarm and command flags raised by the interrupts are
  acted on by the main program at its polling points.  \<open>protocol_execute_realtime\<close> stays in its
  loop while the system is suspended.
\<close>

section \<open>Alarms\<close>

definition alarm_code :: "u8 \<Rightarrow> u8" where
  "alarm_code rt_exec =
     (if bit_istrue rt_exec EXEC_ALARM_HARD_LIMIT then ALARM_HARD_LIMIT_ERROR
      else if bit_istrue rt_exec EXEC_ALARM_SOFT_LIMIT then ALARM_SOFT_LIMIT_ERROR
      else if bit_istrue rt_exec EXEC_ALARM_ABORT_CYCLE then ALARM_ABORT_CYCLE
      else if bit_istrue rt_exec EXEC_ALARM_PROBE_FAIL then ALARM_PROBE_FAIL
      else if bit_istrue rt_exec EXEC_ALARM_HOMING_FAIL then ALARM_HOMING_FAIL else 0)"

text \<open>The endless loop of a critical event, left by a reset only.\<close>

partial_function (option) wait_for_reset :: "machine \<Rightarrow> machine option" where
  "wait_for_reset m = do {
     m \<leftarrow> await m;
     if bit_isfalse (sys_rt_exec_state m) EXEC_RESET then wait_for_reset m else Some m
   }"

declare wait_for_reset.simps [code]

definition execute_alarm :: "machine \<Rightarrow> machine option" where
  "execute_alarm m =
     (let rt_exec = sys_rt_exec_alarm m in
      if rt_exec \<noteq> 0 then
        let m = set_state STATE_ALARM m;
            m = (if alarm_code rt_exec \<noteq> 0 then report_alarm_message (alarm_code rt_exec) m else m)
        in do {
          m \<leftarrow> (if bit_istrue rt_exec EXEC_CRITICAL_EVENT then
                  wait_for_reset (clear_exec EXEC_RESET (emit (report_feedback_message MESSAGE_CRITICAL_EVENT) m))
                else Some m);
          Some (clear_alarm 0xFF m)
        }
      else Some m)"

section \<open>Holds\<close>

abbreviation (input) EXEC_HOLDS :: u8 where
  "EXEC_HOLDS \<equiv> EXEC_MOTION_CANCEL OR EXEC_FEED_HOLD OR EXEC_SAFETY_DOOR"

text \<open>The hold branch; the result carries \<open>rt_exec\<close>, which a safety door event may extend.\<close>

definition hold_allowed :: "machine \<Rightarrow> bool" where
  "hold_allowed m = (state (sys m) = STATE_IDLE \<or>
     in_state (STATE_CYCLE OR STATE_HOMING OR STATE_MOTION_CANCEL OR STATE_HOLD OR STATE_SAFETY_DOOR) m)"

definition enter_hold :: "u8 \<Rightarrow> machine \<Rightarrow> u8 \<times> machine" where
  "enter_hold rt_exec m =
     (let m = (if state (sys m) = STATE_CYCLE then set_suspend SUSPEND_ENABLE_HOLD (st_update_plan_block_parameters m) else m);
          m = (if state (sys m) = STATE_IDLE then set_suspend SUSPEND_ENABLE_READY m else m);
          m = (if bit_istrue rt_exec EXEC_MOTION_CANCEL then
                 let m = (if state (sys m) = STATE_CYCLE then set_state STATE_MOTION_CANCEL m else m)
                 in set_suspend (suspend (sys m) OR SUSPEND_MOTION_CANCEL) m
               else m);
          m = (if bit_istrue rt_exec EXEC_FEED_HOLD \<and> \<not> in_state STATE_SAFETY_DOOR m then set_state STATE_HOLD m else m)
      in if bit_istrue rt_exec EXEC_SAFETY_DOOR then
           let m = emit (report_feedback_message MESSAGE_SAFETY_DOOR_AJAR) m;
               rt_exec = (if bit_istrue (suspend (sys m)) SUSPEND_ENABLE_READY then bit_true rt_exec EXEC_CYCLE_STOP else rt_exec)
           in (rt_exec, set_state STATE_SAFETY_DOOR (set_suspend (suspend (sys m) OR SUSPEND_ENERGIZE) m))
         else (rt_exec, m))"

definition execute_holds :: "u8 \<Rightarrow> machine \<Rightarrow> u8 \<times> machine" where
  "execute_holds rt_exec m =
     (if bit_istrue rt_exec EXEC_HOLDS then
        let (rt_exec, m) = (if hold_allowed m then enter_hold rt_exec m else (rt_exec, m))
        in (rt_exec, clear_exec EXEC_HOLDS m)
      else (rt_exec, m))"

section \<open>Cycle start and stop\<close>

definition SAFETY_DOOR_SPINDLE_DELAY :: u16 where "SAFETY_DOOR_SPINDLE_DELAY = 4000"
definition SAFETY_DOOR_COOLANT_DELAY :: u16 where "SAFETY_DOOR_COOLANT_DELAY = 1000"

definition reenergize :: "machine \<Rightarrow> machine" where
  "reenergize m =
     (if bit_istrue (suspend (sys m)) SUSPEND_ENERGIZE then
        let g = gc_state m;
            m = (if spindle_mode (modal g) \<noteq> SPINDLE_DISABLE then
                   delay_ms SAFETY_DOOR_SPINDLE_DELAY (spindle_set_state (spindle_mode (modal g)) (spindle_speed g) m)
                 else m)
        in if coolant_mode (modal g) \<noteq> COOLANT_DISABLE then
             delay_ms SAFETY_DOOR_COOLANT_DELAY (coolant_set_state (coolant_mode (modal g)) m)
           else m
      else m)"

definition start_or_idle :: "machine \<Rightarrow> machine option" where
  "start_or_idle m =
     (if plan_get_current_block m \<noteq> None \<and> bit_isfalse (suspend (sys m)) SUSPEND_MOTION_CANCEL then
        do { m \<leftarrow> st_prep_buffer (set_state STATE_CYCLE m); Some (st_wake_up m) }
      else Some (set_state STATE_IDLE m))"

definition execute_cycle_start :: "u8 \<Rightarrow> machine \<Rightarrow> machine option" where
  "execute_cycle_start rt_exec m =
     (if bit_istrue rt_exec EXEC_CYCLE_START then do {
        m \<leftarrow> (if \<not> bit_istrue rt_exec EXEC_HOLDS \<and>
                (state (sys m) = STATE_IDLE \<or>
                 in_state (STATE_HOLD OR STATE_MOTION_CANCEL) m \<and> bit_istrue (suspend (sys m)) SUSPEND_ENABLE_READY) then
                do { m \<leftarrow> start_or_idle (reenergize m); Some (set_suspend SUSPEND_DISABLE m) }
              else Some m);
        Some (clear_exec EXEC_CYCLE_START m)
      }
      else Some m)"

definition execute_cycle_stop :: "u8 \<Rightarrow> machine \<Rightarrow> machine" where
  "execute_cycle_stop rt_exec m =
     (if bit_istrue rt_exec EXEC_CYCLE_STOP then
        clear_exec EXEC_CYCLE_STOP
          (if in_state (STATE_HOLD OR STATE_SAFETY_DOOR) m \<and> \<not> soft_limit (sys m) then
             let m = (if bit_istrue (suspend (sys m)) SUSPEND_ENERGIZE then coolant_stop (spindle_stop m) else m)
             in set_suspend (bit_true (suspend (sys m)) SUSPEND_ENABLE_READY) m
           else set_state STATE_IDLE (set_suspend SUSPEND_DISABLE m))
      else m)"

section \<open>One pass and the suspend loop\<close>

definition execute_status_report :: "u8 \<Rightarrow> machine \<Rightarrow> machine option" where
  "execute_status_report rt_exec m =
     (if bit_istrue rt_exec EXEC_STATUS_REPORT then
        do { bs \<leftarrow> report_realtime_status m; Some (clear_exec EXEC_STATUS_REPORT (emit bs m)) }
      else Some m)"

definition execute_commands :: "u8 \<Rightarrow> machine \<Rightarrow> machine option" where
  "execute_commands rt_exec m =
     (if rt_exec \<noteq> 0 then do {
        m \<leftarrow> execute_status_report rt_exec m;
        let (rt_exec, m) = execute_holds rt_exec m;
        m \<leftarrow> execute_cycle_start rt_exec m;
        Some (execute_cycle_stop rt_exec m)
      }
      else Some m)"

definition close_safety_door :: "machine \<Rightarrow> machine" where
  "close_safety_door m =
     (if state (sys m) = STATE_SAFETY_DOOR \<and> bit_istrue (suspend (sys m)) SUSPEND_ENABLE_READY \<and>
         \<not> system_check_safety_door_ajar m
      then set_state STATE_HOLD m else m)"

abbreviation (input) ACTIVE_STATES :: u8 where
  "ACTIVE_STATES \<equiv> STATE_CYCLE OR STATE_HOLD OR STATE_MOTION_CANCEL OR STATE_SAFETY_DOOR OR STATE_HOMING"

text \<open>One pass; the first component tells whether a reset made the function return.\<close>

definition realtime_pass :: "machine \<Rightarrow> (bool \<times> machine) option" where
  "realtime_pass m = do {
     m \<leftarrow> execute_alarm m;
     let rt_exec = sys_rt_exec_state m;
     if bit_istrue rt_exec EXEC_RESET then Some (True, upd_sys (abort_update (\<lambda>_. True)) m)
     else do {
       m \<leftarrow> execute_commands rt_exec m;
       m \<leftarrow> (if in_state ACTIVE_STATES m then st_prep_buffer m else Some m);
       Some (False, close_safety_door m)
     }
   }"

partial_function (option) suspend_loop :: "machine \<Rightarrow> machine option" where
  "suspend_loop m = do {
     (returned, m) \<leftarrow> realtime_pass m;
     if returned \<or> suspend (sys m) = 0 then Some m else do { m \<leftarrow> await m; suspend_loop m }
   }"

declare suspend_loop.simps [code]

definition protocol_execute_realtime :: "machine \<Rightarrow> machine option" where
  "protocol_execute_realtime m = suspend_loop (poll m)"

definition protocol_auto_cycle_start :: "machine \<Rightarrow> machine" where
  "protocol_auto_cycle_start m = raise_exec EXEC_CYCLE_START m"

partial_function (option) protocol_buffer_synchronize :: "machine \<Rightarrow> machine option" where
  "protocol_buffer_synchronize m = do {
     m \<leftarrow> protocol_execute_realtime (protocol_auto_cycle_start m);
     if abort (sys m) then Some m
     else if plan_get_current_block m \<noteq> None \<or> state (sys m) = STATE_CYCLE then
       do { m \<leftarrow> await m; protocol_buffer_synchronize m }
     else Some m
   }"

declare protocol_buffer_synchronize.simps [code]

section \<open>Spindle and coolant commands\<close>

definition spindle_run :: "u8 \<Rightarrow> fl \<Rightarrow> machine \<Rightarrow> machine option" where
  "spindle_run mode rpm m =
     (if state (sys m) = STATE_CHECK_MODE then Some m
      else do { m \<leftarrow> protocol_buffer_synchronize m; Some (spindle_set_state mode rpm m) })"

definition coolant_run :: "u8 \<Rightarrow> machine \<Rightarrow> machine option" where
  "coolant_run mode m =
     (if state (sys m) = STATE_CHECK_MODE then Some m
      else do { m \<leftarrow> protocol_buffer_synchronize m; Some (coolant_set_state mode m) })"

end
