(* ===== verification/Homing.thy ===== *)
theory Homing
  imports Protocol
begin

text \<open>
  Soft limits and the homing cycle (\<open>limits.c\<close>).  Homing drives the steppers through the planner
  directly and watches the switches in a loop of its own; the axis lock keeps step pulses from the
  motors whose switch has been reached.  Times are not modelled, only the order of events.
\<close>

section \<open>Soft limits\<close>

definition beyond_limit :: "settings_t \<Rightarrow> fl vec \<Rightarrow> nat \<Rightarrow> bool" where
  "beyond_limit c target idx = (fl_gt (target ! idx) (Fin 0) \<or> fl_lt (target ! idx) (max_travel c ! idx))"

partial_function (option) wait_until_idle :: "machine \<Rightarrow> machine option" where
  "wait_until_idle m = do {
     m \<leftarrow> protocol_execute_realtime m;
     if abort (sys m) \<or> state (sys m) = STATE_IDLE then Some m else do { m \<leftarrow> await m; wait_until_idle m }
   }"

declare wait_until_idle.simps [code]

definition soft_limit_kill :: "machine \<Rightarrow> machine option" where
  "soft_limit_kill m =
     protocol_execute_realtime (raise_alarm (EXEC_ALARM_SOFT_LIMIT OR EXEC_CRITICAL_EVENT) (mc_reset m))"

definition soft_limit_stop :: "machine \<Rightarrow> machine option" where
  "soft_limit_stop m =
     (if state (sys m) = STATE_CYCLE then do {
        m \<leftarrow> wait_until_idle (raise_exec EXEC_FEED_HOLD m);
        if abort (sys m) then Some m else soft_limit_kill m
      }
      else soft_limit_kill m)"

fun soft_check_axes :: "nat list \<Rightarrow> fl vec \<Rightarrow> machine \<Rightarrow> machine option" where
  "soft_check_axes [] target m = Some m"
| "soft_check_axes (idx # idxs) target m =
     (let m = (if beyond_limit (cfg m) target idx then upd_sys (soft_limit_update (\<lambda>_. True)) m else m) in
      if soft_limit (sys m) then soft_limit_stop m else soft_check_axes idxs target m)"

definition limits_soft_check :: "fl vec \<Rightarrow> machine \<Rightarrow> machine option" where
  "limits_soft_check target m = soft_check_axes [0..<N_AXIS] target m"

section \<open>Homing\<close>

definition N_HOMING_LOCATE_CYCLE :: nat where "N_HOMING_LOCATE_CYCLE = 1"
definition HOMING_AXIS_SEARCH_SCALAR :: fl where "HOMING_AXIS_SEARCH_SCALAR = f64_lit (15 / 10)"
definition HOMING_AXIS_LOCATE_SCALAR :: fl where "HOMING_AXIS_LOCATE_SCALAR = f64_lit 5"

text \<open>On CoreXY both motors move for either of the axes X and Y.\<close>

definition homing_step_pin :: "nat \<Rightarrow> u16" where
  "homing_step_pin idx =
     (if idx = A_MOTOR \<or> idx = B_MOTOR then get_step_pin_mask X_AXIS OR get_step_pin_mask Y_AXIS else get_step_pin_mask idx)"

definition homing_search_travel :: "settings_t \<Rightarrow> u8 \<Rightarrow> fl" where
  "homing_search_travel c cycle_mask =
     fold (\<lambda>idx acc. if bit_istrue cycle_mask (bit_of idx) then
             to_f32 (fl_max acc (f64_mul (fl_neg HOMING_AXIS_SEARCH_SCALAR) (max_travel c ! idx)))
           else acc) [0..<N_AXIS] (Fin 0)"

definition active_axes :: "u8 \<Rightarrow> nat list" where
  "active_axes cycle_mask = filter (\<lambda>idx. bit_istrue cycle_mask (bit_of idx)) [0..<N_AXIS]"

definition homing_axislock :: "u8 \<Rightarrow> u16" where
  "homing_axislock cycle_mask = fold (\<lambda>idx acc. acc OR homing_step_pin idx) (active_axes cycle_mask) 0"

text \<open>Before a pull-off the position of the active axis is set to zero, the other one kept.\<close>

definition zero_axis_position :: "settings_t \<Rightarrow> nat \<Rightarrow> i32 vec \<Rightarrow> i32 vec" where
  "zero_axis_position c idx p =
     (if idx = X_AXIS then
        let a = word_of_int (dir_sign c Y_AXIS) * system_convert_corexy_to_y_axis_steps c p
        in p[A_MOTOR := a, B_MOTOR := - a]
      else if idx = Y_AXIS then
        let a = word_of_int (dir_sign c X_AXIS) * system_convert_corexy_to_x_axis_steps c p
        in p[A_MOTOR := a, B_MOTOR := a]
      else p[Z_AXIS := 0])"

definition homing_target :: "settings_t \<Rightarrow> bool \<Rightarrow> fl \<Rightarrow> nat \<Rightarrow> fl vec \<Rightarrow> fl vec" where
  "homing_target c approach travel idx target =
     target[idx := (if bit_istrue (homing_dir_mask c) (bit_of idx) = approach then fl_neg travel else travel)]"

text \<open>The locking of the axes whose switch is engaged.\<close>

definition unlock_axis :: "u8 \<Rightarrow> nat \<Rightarrow> u16 \<Rightarrow> u16" where
  "unlock_axis limit_state idx lock =
     (if lock AND homing_step_pin idx \<noteq> 0 \<and> bit_istrue limit_state (bit_of idx) then
        lock AND NOT (if idx = Z_AXIS then homing_step_pin Z_AXIS else homing_step_pin A_MOTOR OR homing_step_pin B_MOTOR)
      else lock)"

definition watch_limits :: "u16 \<Rightarrow> machine \<Rightarrow> u16 \<times> machine" where
  "watch_limits lock m =
     (let m = (if limits_get_state m \<noteq> 0 then enable_debounce_timer m else m);
          lock = fold (unlock_axis (limits_get_state m)) [0..<N_AXIS] lock
      in (lock, upd_sys (homing_axis_lock_update (\<lambda>_. lock)) m))"

text \<open>The loop that waits for the switches or the end of the pull-off.  The result tells whether
  the cycle goes on.\<close>

partial_function (option) homing_watch :: "bool \<Rightarrow> u8 \<Rightarrow> u16 \<Rightarrow> machine \<Rightarrow> (bool \<times> machine) option" where
  "homing_watch approach cycle_mask lock m = do {
     m \<leftarrow> await m;
     let (lock, m) = (if approach then watch_limits lock m else (lock, m));
     m \<leftarrow> st_prep_buffer m;
     let x = sys_rt_exec_state m;
     if bit_istrue x (EXEC_SAFETY_DOOR OR EXEC_RESET OR EXEC_CYCLE_STOP) then
       if bit_istrue x (EXEC_SAFETY_DOOR OR EXEC_RESET) \<or>
          (\<not> approach \<and> limits_get_state m AND cycle_mask \<noteq> 0) \<or> (approach \<and> bit_istrue x EXEC_CYCLE_STOP)
       then do { m \<leftarrow> protocol_execute_realtime (mc_reset m); Some (False, m) }
       else Some (True, clear_exec EXEC_CYCLE_STOP m)
     else if (STEP_MASK_X OR STEP_MASK_YZ) AND lock \<noteq> 0 then homing_watch approach cycle_mask lock m
     else Some (True, m)
   }"

declare homing_watch.simps [code]

definition homing_prepare :: "bool \<Rightarrow> u8 \<Rightarrow> fl \<Rightarrow> machine \<Rightarrow> fl vec \<times> machine" where
  "homing_prepare approach cycle_mask travel m =
     (let c = cfg m;
          target = fold (homing_target c approach travel) (active_axes cycle_mask)
                     (system_convert_array_steps_to_mpos c (position (sys m)));
          m = (if approach then m
               else upd_sys (position_update (\<lambda>p. fold (zero_axis_position c) (active_axes cycle_mask) p)) m)
      in (target, upd_sys (homing_axis_lock_update (\<lambda>_. homing_axislock cycle_mask)) m))"

text \<open>The rounds left, each an approach or a pull-off: \<open>n_cycle\<close> counts down from
  \<open>2 * N_HOMING_LOCATE_CYCLE + 1\<close> to 0.\<close>

fun homing_rounds :: "nat \<Rightarrow> u8 \<Rightarrow> bool \<Rightarrow> fl \<Rightarrow> fl \<Rightarrow> machine \<Rightarrow> (bool \<times> machine) option" where
  "homing_rounds 0 cycle_mask approach travel rate m = Some (True, m)"
| "homing_rounds (Suc n) cycle_mask approach travel rate m =
     (let (target, m) = homing_prepare approach cycle_mask travel m;
          rate = to_f32 (f64_mul rate (f64_sqrt (f64_of_int (int (length (active_axes cycle_mask))))))
      in do {
        m \<leftarrow> plan_buffer_line target rate False (plan_sync_position m);
        m \<leftarrow> st_prep_buffer m;
        (go_on, m) \<leftarrow> homing_watch approach cycle_mask (homing_axislock cycle_mask) (st_wake_up m);
        if \<not> go_on then Some (False, m)
        else
          let m = delay_ms (homing_debounce_delay (cfg m)) (plan_reset (st_reset m));
              approach = (\<not> approach);
              (travel, rate) =
                (if approach then (to_f32 (f64_mul (homing_pulloff (cfg m)) HOMING_AXIS_LOCATE_SCALAR), homing_feed_rate (cfg m))
                 else (homing_pulloff (cfg m), homing_seek_rate (cfg m)))
          in homing_rounds n cycle_mask approach travel rate m
      })"

definition set_axis_position :: "settings_t \<Rightarrow> nat \<Rightarrow> i32" where
  "set_axis_position c idx =
     (if bit_istrue (homing_dir_mask c) (bit_of idx) then
        fl_lround (f32_mul (f32_add (max_travel c ! idx) (homing_pulloff c)) (steps_per_mm c ! idx))
      else fl_lround (f32_mul (fl_neg (homing_pulloff c)) (steps_per_mm c ! idx)))"

definition homed_position :: "settings_t \<Rightarrow> nat \<Rightarrow> i32 vec \<Rightarrow> i32 vec" where
  "homed_position c idx p =
     (let sx = word_of_int (dir_sign c X_AXIS); sy = word_of_int (dir_sign c Y_AXIS); w = set_axis_position c idx in
      if idx = X_AXIS then
        let off = system_convert_corexy_to_y_axis_steps c p
        in p[A_MOTOR := sx * w + sy * off, B_MOTOR := sx * w - sy * off]
      else if idx = Y_AXIS then
        let off = system_convert_corexy_to_x_axis_steps c p
        in p[A_MOTOR := sx * off + sy * w, B_MOTOR := sx * off - sy * w]
      else p[idx := w])"

definition limits_go_home :: "u8 \<Rightarrow> machine \<Rightarrow> machine option" where
  "limits_go_home cycle_mask m =
     (if abort (sys m) then Some m
      else do {
        (done, m) \<leftarrow> homing_rounds (2 * N_HOMING_LOCATE_CYCLE + 2) cycle_mask True
          (homing_search_travel (cfg m) cycle_mask) (homing_seek_rate (cfg m)) m;
        if \<not> done then Some m
        else Some (plan_sync_position
          (upd_sys (position_update (\<lambda>p. fold (homed_position (cfg m)) (active_axes cycle_mask) p)) m))
      })"

end
