(* ===== verification/Motion.thy ===== *)
theory Motion
  imports Homing
begin

text \<open>
  Motion control (\<open>motion_control.c\<close>): lines, arcs, dwells, homing and probing, between the g-code
  parser and the planner.  The trigonometric functions of libm are parameters.
\<close>

definition upd_env :: "(settings_env \<Rightarrow> settings_env) \<Rightarrow> 'a sys_env_scheme \<Rightarrow> 'a sys_env_scheme" where
  "upd_env f s = s\<lparr>env := f (env s)\<rparr>"

section \<open>Lines\<close>

text \<open>The wait for room in the planner buffer; the result tells whether there is room.\<close>

partial_function (option) wait_for_room :: "machine \<Rightarrow> (bool \<times> machine) option" where
  "wait_for_room m = do {
     m \<leftarrow> protocol_execute_realtime m;
     if abort (sys m) then Some (False, m)
     else if plan_check_full_buffer m then do { m \<leftarrow> await (protocol_auto_cycle_start m); wait_for_room m }
     else Some (True, m)
   }"

declare wait_for_room.simps [code]

definition mc_line :: "fl vec \<Rightarrow> fl \<Rightarrow> bool \<Rightarrow> machine \<Rightarrow> machine option" where
  "mc_line target feed invert_feed_rate m = do {
     m \<leftarrow> (if bit_istrue (flags (cfg m)) BITFLAG_SOFT_LIMIT_ENABLE then limits_soft_check target m else Some m);
     if state (sys m) = STATE_CHECK_MODE then Some m
     else do {
       (room, m) \<leftarrow> wait_for_room m;
       if room then plan_buffer_line target feed invert_feed_rate m else Some m
     }
   }"

section \<open>Arcs\<close>

definition ARC_ANGULAR_TRAVEL_EPSILON :: fl where "ARC_ANGULAR_TRAVEL_EPSILON = f64_lit (5 / 10 ^ 7)"
definition M_PI :: fl where "M_PI = f64_lit (314159265358979323846 / 10 ^ 20)"
definition N_ARC_CORRECTION :: u8 where "N_ARC_CORRECTION = 12"

record libm =
  m_sin :: "fl \<Rightarrow> fl"
  m_cos :: "fl \<Rightarrow> fl"
  m_atan2 :: "fl \<Rightarrow> fl \<Rightarrow> fl"

text \<open>The signed angle of the arc.\<close>

definition arc_angular_travel :: "libm \<Rightarrow> fl \<Rightarrow> fl \<Rightarrow> fl \<Rightarrow> fl \<Rightarrow> bool \<Rightarrow> fl" where
  "arc_angular_travel lm r0 r1 rt0 rt1 is_clockwise_arc =
     (let a = to_f32 (m_atan2 lm (f32_sub (f32_mul r0 rt1) (f32_mul r1 rt0)) (f32_add (f32_mul r0 rt0) (f32_mul r1 rt1)));
          turn = f64_mul (f64_of_int 2) M_PI
      in if is_clockwise_arc then
           (if fl_ge a (fl_neg ARC_ANGULAR_TRAVEL_EPSILON) then to_f32 (f64_sub a turn) else a)
         else (if fl_le a ARC_ANGULAR_TRAVEL_EPSILON then to_f32 (f64_add a turn) else a))"

definition arc_segment_count :: "fl \<Rightarrow> fl \<Rightarrow> fl \<Rightarrow> u16" where
  "arc_segment_count tolerance angular_travel radius =
     fl_to_u16 (fl_floor (f64_div (fl_abs (f64_mul (f64_mul (f64_lit (1 / 2)) angular_travel) radius))
       (f64_sqrt (f32_mul tolerance (f32_sub (f32_mul (f32_of_int 2) radius) tolerance)))))"

text \<open>What stays the same along the arc, and the vector that is rotated.\<close>

record arc =
  arc_center0 :: fl
  arc_center1 :: fl
  arc_offset0 :: fl
  arc_offset1 :: fl
  arc_theta :: fl
  arc_linear :: fl
  arc_cos_T :: fl
  arc_sin_T :: fl
  arc_axis_0 :: nat
  arc_axis_1 :: nat
  arc_axis_linear :: nat

record arc_vector =
  arc_r0 :: fl
  arc_r1 :: fl
  arc_count :: u8

definition rotate_arc_vector :: "libm \<Rightarrow> arc \<Rightarrow> u16 \<Rightarrow> arc_vector \<Rightarrow> arc_vector" where
  "rotate_arc_vector lm a i v =
     (if arc_count v < N_ARC_CORRECTION then
        \<lparr>arc_r0 = f32_sub (f32_mul (arc_r0 v) (arc_cos_T a)) (f32_mul (arc_r1 v) (arc_sin_T a)),
         arc_r1 = f32_add (f32_mul (arc_r0 v) (arc_sin_T a)) (f32_mul (arc_r1 v) (arc_cos_T a)),
         arc_count = arc_count v + 1\<rparr>
      else
        let angle = f32_mul (f32_of_int (uint i)) (arc_theta a);
            cos_Ti = to_f32 (m_cos lm angle); sin_Ti = to_f32 (m_sin lm angle)
        in \<lparr>arc_r0 = f32_add (f32_mul (fl_neg (arc_offset0 a)) cos_Ti) (f32_mul (arc_offset1 a) sin_Ti),
            arc_r1 = f32_sub (f32_mul (fl_neg (arc_offset0 a)) sin_Ti) (f32_mul (arc_offset1 a) cos_Ti),
            arc_count = 0\<rparr>)"

definition arc_point :: "arc \<Rightarrow> arc_vector \<Rightarrow> fl vec \<Rightarrow> fl vec" where
  "arc_point a v p =
     (let p = p[arc_axis_0 a := f32_add (arc_center0 a) (arc_r0 v)];
          p = p[arc_axis_1 a := f32_add (arc_center1 a) (arc_r1 v)]
      in p[arc_axis_linear a := f32_add (p ! arc_axis_linear a) (arc_linear a)])"

text \<open>The \<open>for\<close> loop, for the segments \<open>i\<close>, \<open>i + 1\<close>, ... of which \<open>n\<close> are left.  \<open>position\<close> is
  the parser's own position vector.\<close>

fun arc_segments :: "libm \<Rightarrow> arc \<Rightarrow> fl \<Rightarrow> bool \<Rightarrow> nat \<Rightarrow> u16 \<Rightarrow> arc_vector \<Rightarrow> machine \<Rightarrow> (bool \<times> machine) option" where
  "arc_segments lm a feed iv 0 i v m = Some (True, m)"
| "arc_segments lm a feed iv (Suc n) i v m =
     (let v = rotate_arc_vector lm a i v; m = upd_gc (gc_position_update (arc_point a v)) m in do {
        m \<leftarrow> mc_line (gc_position (gc_state m)) feed iv m;
        if abort (sys m) then Some (False, m) else arc_segments lm a feed iv n (i + 1) v m
      })"

definition mc_arc ::
  "libm \<Rightarrow> fl vec \<Rightarrow> fl vec \<Rightarrow> fl \<Rightarrow> fl \<Rightarrow> bool \<Rightarrow> nat \<times> nat \<times> nat \<Rightarrow> bool \<Rightarrow> machine \<Rightarrow> machine option" where
  "mc_arc lm target offset radius feed invert_feed_rate axes is_clockwise_arc m =
     (let (a0, a1, lin) = axes; position = gc_position (gc_state m);
          center0 = f32_add (position ! a0) (offset ! a0); center1 = f32_add (position ! a1) (offset ! a1);
          r0 = fl_neg (offset ! a0); r1 = fl_neg (offset ! a1);
          rt0 = f32_sub (target ! a0) center0; rt1 = f32_sub (target ! a1) center1;
          angular_travel = arc_angular_travel lm r0 r1 rt0 rt1 is_clockwise_arc;
          segments = arc_segment_count (arc_tolerance (cfg m)) angular_travel radius;
          n = f32_of_int (uint segments);
          feed = (if segments \<noteq> 0 \<and> invert_feed_rate then f32_mul feed n else feed)
      in do {
        (go_on, m) \<leftarrow>
          (if segments \<noteq> 0 then
             let theta = f32_div angular_travel n;
                 linear = f32_div (f32_sub (target ! lin) (position ! lin)) n;
                 c = to_f32 (f64_sub (f64_lit 2) (f32_mul theta theta));
                 s = to_f32 (f64_mul (f64_mul theta (f64_lit (16666667 / 10 ^ 8))) (f64_add c (f64_lit 4)));
                 a = \<lparr>arc_center0 = center0, arc_center1 = center1, arc_offset0 = offset ! a0, arc_offset1 = offset ! a1,
                      arc_theta = theta, arc_linear = linear, arc_cos_T = to_f32 (f64_mul c (f64_lit (1 / 2))),
                      arc_sin_T = s, arc_axis_0 = a0, arc_axis_1 = a1, arc_axis_linear = lin\<rparr>
             in arc_segments lm a feed invert_feed_rate (unat segments - 1) 1 \<lparr>arc_r0 = r0, arc_r1 = r1, arc_count = 0\<rparr> m
           else Some (True, m));
        if go_on then mc_line target feed invert_feed_rate m else Some m
      })"

section \<open>Dwell\<close>

definition DWELL_TIME_STEP :: nat where "DWELL_TIME_STEP = 50"

definition dwell_steps :: "fl \<Rightarrow> u16" where
  "dwell_steps seconds = fl_to_u16 (fl_floor (f32_mul (f32_of_int (1000 div int DWELL_TIME_STEP)) seconds))"

definition dwell_remainder :: "fl \<Rightarrow> u16" where
  "dwell_remainder seconds =
     fl_to_u16 (fl_floor (f32_sub (f32_mul (f32_of_int 1000) seconds)
       (f32_of_int (uint (dwell_steps seconds) * int DWELL_TIME_STEP))))"

fun dwell_loop :: "nat \<Rightarrow> machine \<Rightarrow> machine option" where
  "dwell_loop 0 m = Some m"
| "dwell_loop (Suc i) m = do {
     m \<leftarrow> protocol_execute_realtime m;
     if abort (sys m) then Some m else dwell_loop i (delay_ms (of_nat DWELL_TIME_STEP) m)
   }"

definition mc_dwell :: "fl \<Rightarrow> machine \<Rightarrow> machine option" where
  "mc_dwell seconds m =
     (if state (sys m) = STATE_CHECK_MODE then Some m
      else do {
        m \<leftarrow> protocol_buffer_synchronize m;
        dwell_loop (unat (dwell_steps seconds)) (delay_ms (dwell_remainder seconds) m)
      })"

section \<open>Homing\<close>

text \<open>\<open>gc_sync_position\<close> of \<open>gcode.c\<close>.\<close>

definition gc_sync_position :: "machine \<Rightarrow> machine" where
  "gc_sync_position m =
     upd_gc (gc_position_update (\<lambda>_. system_convert_array_steps_to_mpos (cfg m) (position (sys m)))) m"

definition HOMING_CYCLE_0 :: u8 where "HOMING_CYCLE_0 = bit_of Z_AXIS"
definition HOMING_CYCLE_1 :: u8 where "HOMING_CYCLE_1 = bit_of Y_AXIS"
definition HOMING_CYCLE_2 :: u8 where "HOMING_CYCLE_2 = bit_of X_AXIS"

definition mc_homing_cycle :: "machine \<Rightarrow> machine option" where
  "mc_homing_cycle m = do {
     m \<leftarrow> limits_go_home HOMING_CYCLE_0 (upd_env limits_disable m);
     m \<leftarrow> limits_go_home HOMING_CYCLE_1 m;
     m \<leftarrow> limits_go_home HOMING_CYCLE_2 m;
     m \<leftarrow> protocol_execute_realtime m;
     if abort (sys m) then Some m else Some (upd_env limits_init (gc_sync_position m))
   }"

section \<open>Probing\<close>

text \<open>The target is given back updated to the machine position.\<close>

definition probe_outcome :: "bool \<Rightarrow> machine \<Rightarrow> machine" where
  "probe_outcome is_no_error m =
     (if sys_probe_state m = PROBE_ACTIVE then
        if is_no_error then upd_sys (\<lambda>y. y\<lparr>probe_position := position y\<rparr>) m else raise_alarm EXEC_ALARM_PROBE_FAIL m
      else upd_sys (probe_succeeded_update (\<lambda>_. True)) m)"

definition probe_finish :: "fl vec \<Rightarrow> bool \<Rightarrow> machine \<Rightarrow> (fl vec \<times> machine) option" where
  "probe_finish target is_no_error m = do {
     m \<leftarrow> protocol_execute_realtime ((probe_outcome is_no_error m)\<lparr>sys_probe_state := PROBE_OFF\<rparr>);
     if abort (sys m) then Some (target, m)
     else do {
       let m = plan_sync_position (plan_reset (st_reset m));
       bs \<leftarrow> report_probe_parameters m;
       Some (system_convert_array_steps_to_mpos (cfg m) (position (sys m)), emit bs m)
     }
   }"

definition mc_probe_cycle ::
  "fl vec \<Rightarrow> fl \<Rightarrow> bool \<Rightarrow> bool \<Rightarrow> bool \<Rightarrow> machine \<Rightarrow> (fl vec \<times> machine) option" where
  "mc_probe_cycle target feed invert_feed_rate is_probe_away is_no_error m =
     (if state (sys m) = STATE_CHECK_MODE then Some (target, m)
      else do {
        m \<leftarrow> protocol_buffer_synchronize m;
        let m = probe_configure_invert_mask is_probe_away (upd_sys (probe_succeeded_update (\<lambda>_. False)) m);
        m \<leftarrow> (if probe_get_state m then protocol_execute_realtime (raise_alarm EXEC_ALARM_PROBE_FAIL m) else Some m);
        if abort (sys m) then Some (target, m)
        else do {
          m \<leftarrow> mc_line target feed invert_feed_rate m;
          m \<leftarrow> wait_until_idle (raise_exec EXEC_CYCLE_START (m\<lparr>sys_probe_state := PROBE_ACTIVE\<rparr>));
          if abort (sys m) then Some (target, m) else probe_finish target is_no_error m
        }
      })"

end
