(* ===== verification/GcodeExec.thy ===== *)
theory GcodeExec
  imports Motion
begin

text \<open>
  Step 4 of \<open>gc_execute_line\<close> (\<open>gcode.c\<close>): a checked block updates the parser state and is
  executed, in the order the standard gives, through the spindle, coolant and motion control.
\<close>

definition put_nvm :: "flash \<Rightarrow> machine \<Rightarrow> machine" where
  "put_nvm f m = upd_env (nvm_update (\<lambda>_. f)) m"

definition gc_init :: "machine \<Rightarrow> machine option" where
  "gc_init m = do {
     (ok, data, f) \<leftarrow> settings_read_coord_data (coord_select zero_modal) (nvm (env m));
     let m = (put_nvm f m)\<lparr>gc_state := zero_parser_state\<lparr>coord_system := data\<rparr>\<rparr>;
     Some (if ok then m else emit (report_status_message STATUS_SETTING_READ_FAIL) m)
   }"

section \<open>Sections 0 to 18: speeds, spindle, coolant, dwell and modes\<close>

definition exec_spindle_speed :: "gc_locals \<Rightarrow> machine \<Rightarrow> machine option" where
  "exec_spindle_speed l m =
     (let s = s_word (bvalues l) in
      if \<not> fl_eq (spindle_speed (gc_state m)) s then do {
        m \<leftarrow> (if spindle_mode (modal (gc_state m)) \<noteq> SPINDLE_DISABLE
               then spindle_run (spindle_mode (modal (gc_state m))) s m else Some m);
        Some (upd_gc (spindle_speed_update (\<lambda>_. s)) m)
      }
      else Some m)"

definition exec_spindle :: "gc_locals \<Rightarrow> machine \<Rightarrow> machine option" where
  "exec_spindle l m =
     (let mode = spindle_mode (bmodal l) in
      if spindle_mode (modal (gc_state m)) \<noteq> mode then do {
        m \<leftarrow> spindle_run mode (spindle_speed (gc_state m)) m;
        Some (upd_gc_modal (spindle_mode_update (\<lambda>_. mode)) m)
      }
      else Some m)"

definition exec_coolant :: "gc_locals \<Rightarrow> machine \<Rightarrow> machine option" where
  "exec_coolant l m =
     (let mode = coolant_mode (bmodal l) in
      if coolant_mode (modal (gc_state m)) \<noteq> mode then do {
        m \<leftarrow> coolant_run mode m;
        Some (upd_gc_modal (coolant_mode_update (\<lambda>_. mode)) m)
      }
      else Some m)"

definition exec_tool_length :: "gc_locals \<Rightarrow> machine \<Rightarrow> machine" where
  "exec_tool_length l m =
     (if axis_command l = AXIS_COMMAND_TOOL_LENGTH_OFFSET then
        let mode = tool_length (bmodal l); m = upd_gc_modal (tool_length_update (\<lambda>_. mode)) m
        in upd_gc (tool_length_offset_update (\<lambda>_.
             if mode = TOOL_LENGTH_OFFSET_ENABLE_DYNAMIC then xyz (bvalues l) ! TOOL_LENGTH_OFFSET_AXIS else Fin 0)) m
      else m)"

definition exec_coord_select :: "gc_locals \<Rightarrow> machine \<Rightarrow> machine" where
  "exec_coord_select l m =
     (if coord_select (modal (gc_state m)) \<noteq> coord_select (bmodal l) then
        upd_gc (coord_system_update (\<lambda>_. coordinate_data l))
          (upd_gc_modal (coord_select_update (\<lambda>_. coord_select (bmodal l))) m)
      else m)"

definition exec_modes :: "gc_locals \<Rightarrow> machine \<Rightarrow> machine" where
  "exec_modes l m =
     (let b = bmodal l;
          m = upd_gc_modal (\<lambda>g. g\<lparr>plane_select := plane_select b, units := units b\<rparr>) m;
          m = exec_coord_select l (exec_tool_length l m)
      in upd_gc_modal (distance_update (\<lambda>_. distance b)) m)"

definition exec_settings :: "gc_locals \<Rightarrow> machine \<Rightarrow> machine option" where
  "exec_settings l m =
     (let m = upd_gc (\<lambda>g. g\<lparr>line_number := n_word (bvalues l),
                modal := (modal g)\<lparr>feed_rate_mode := feed_rate_mode (bmodal l)\<rparr>, feed_rate := f_word (bvalues l)\<rparr>) m
      in do {
        m \<leftarrow> exec_spindle_speed l m;
        m \<leftarrow> exec_spindle l (upd_gc (tool_update (\<lambda>_. t_word (bvalues l))) m);
        m \<leftarrow> exec_coolant l m;
        m \<leftarrow> (if non_modal_command l = NON_MODAL_DWELL then mc_dwell (p_word (bvalues l)) m else Some m);
        Some (exec_modes l m)
      })"

section \<open>Section 19: non-modal commands\<close>

definition rapid_to :: "fl vec \<Rightarrow> machine \<Rightarrow> machine option" where
  "rapid_to target m = mc_line target (to_f32 (f64_lit (- 1))) False m"

definition exec_non_modal :: "gc_locals \<Rightarrow> machine \<Rightarrow> machine option" where
  "exec_non_modal l m =
     (let c = non_modal_command l in
      if c = NON_MODAL_SET_COORDINATE_DATA then do {
        f \<leftarrow> settings_write_coord_data (g10_select l) (parameter_data l) (nvm (env m));
        let m = put_nvm f m;
        Some (if coord_select (modal (gc_state m)) = g10_select l
              then upd_gc (coord_system_update (\<lambda>_. parameter_data l)) m else m)
      }
      else if c = NON_MODAL_GO_HOME_0 \<or> c = NON_MODAL_GO_HOME_1 then do {
        m \<leftarrow> (if axis_command l \<noteq> 0 then rapid_to (xyz (bvalues l)) m else Some m);
        m \<leftarrow> rapid_to (parameter_data l) m;
        Some (upd_gc (gc_position_update (\<lambda>_. parameter_data l)) m)
      }
      else if c = NON_MODAL_SET_HOME_0 \<or> c = NON_MODAL_SET_HOME_1 then do {
        f \<leftarrow> settings_write_coord_data (if c = NON_MODAL_SET_HOME_0 then SETTING_INDEX_G28 else SETTING_INDEX_G30)
          (gc_position (gc_state m)) (nvm (env m));
        Some (put_nvm f m)
      }
      else if c = NON_MODAL_SET_COORDINATE_OFFSET then
        Some (upd_gc (coord_offset_update (\<lambda>_. xyz (bvalues l))) m)
      else if c = NON_MODAL_RESET_COORDINATE_OFFSET then Some (upd_gc (coord_offset_update (\<lambda>_. zero_vec)) m)
      else Some m)"

section \<open>Section 20: motion\<close>

text \<open>The result is the target, which a probing cycle changes, and the machine.\<close>

definition run_motion :: "libm \<Rightarrow> gc_locals \<Rightarrow> machine \<Rightarrow> (fl vec \<times> machine) option" where
  "run_motion lm l m =
     (let mo = motion (modal (gc_state m)); target = xyz (bvalues l); feed = feed_rate (gc_state m);
          iv = (feed_rate_mode (modal (gc_state m)) \<noteq> 0); axes = (axis_0 l, axis_1 l, axis_linear l);
          keep = map_option (Pair target)
      in if mo = MOTION_MODE_SEEK then keep (rapid_to target m)
         else if mo = MOTION_MODE_LINEAR then keep (mc_line target feed iv m)
         else if mo = MOTION_MODE_CW_ARC \<or> mo = MOTION_MODE_CCW_ARC then
           keep (mc_arc lm target (ijk (bvalues l)) (r_word (bvalues l)) feed iv axes (mo = MOTION_MODE_CW_ARC) m)
         else if mo = MOTION_MODE_PROBE_TOWARD then mc_probe_cycle target feed iv False False m
         else if mo = MOTION_MODE_PROBE_TOWARD_NO_ERROR then mc_probe_cycle target feed iv False True m
         else if mo = MOTION_MODE_PROBE_AWAY then mc_probe_cycle target feed iv True False m
         else if mo = MOTION_MODE_PROBE_AWAY_NO_ERROR then mc_probe_cycle target feed iv True True m
         else Some (target, m))"

definition exec_motion :: "libm \<Rightarrow> gc_locals \<Rightarrow> machine \<Rightarrow> machine option" where
  "exec_motion lm l m =
     (let m = upd_gc_modal (motion_update (\<lambda>_. motion (bmodal l))) m in
      if motion (bmodal l) \<noteq> MOTION_MODE_NONE \<and> axis_command l = AXIS_COMMAND_MOTION_MODE then do {
        (target, m) \<leftarrow> run_motion lm l m;
        Some (upd_gc (gc_position_update (\<lambda>_. target)) m)
      }
      else Some m)"

section \<open>Section 21: program flow\<close>

definition program_end_modes :: "gc_modal_t \<Rightarrow> gc_modal_t" where
  "program_end_modes g = g\<lparr>motion := MOTION_MODE_LINEAR, plane_select := PLANE_SELECT_XY,
     distance := DISTANCE_MODE_ABSOLUTE, feed_rate_mode := FEED_RATE_MODE_UNITS_PER_MIN, coord_select := 0,
     spindle_mode := SPINDLE_DISABLE, coolant_mode := COOLANT_DISABLE\<rparr>"

definition program_end :: "machine \<Rightarrow> (u8 \<times> machine) option" where
  "program_end m =
     (let m = upd_gc_modal program_end_modes m in do {
        (ok, m) \<leftarrow>
          (if state (sys m) \<noteq> STATE_CHECK_MODE then do {
             (ok, data, f) \<leftarrow> settings_read_coord_data (coord_select (modal (gc_state m))) (nvm (env m));
             let m = put_nvm f m;
             Some (ok, if ok then coolant_stop (spindle_stop (upd_gc (coord_system_update (\<lambda>_. data)) m)) else m)
           }
           else Some (True, m));
        if \<not> ok then Some (STATUS_SETTING_READ_FAIL, m)
        else Some (STATUS_OK, emit (report_feedback_message MESSAGE_PROGRAM_END) m)
      })"

definition exec_program_flow :: "gc_locals \<Rightarrow> machine \<Rightarrow> (u8 \<times> machine) option" where
  "exec_program_flow l m =
     (let flow = program_flow (bmodal l); m = upd_gc_modal (program_flow_update (\<lambda>_. flow)) m;
          running = upd_gc_modal (program_flow_update (\<lambda>_. PROGRAM_FLOW_RUNNING))
      in if flow \<noteq> 0 then do {
           m \<leftarrow> protocol_buffer_synchronize m;
           if flow = PROGRAM_FLOW_PAUSED then do {
             m \<leftarrow> (if state (sys m) \<noteq> STATE_CHECK_MODE then protocol_execute_realtime (raise_exec EXEC_FEED_HOLD m) else Some m);
             Some (STATUS_OK, running m)
           }
           else do {
             (status, m) \<leftarrow> program_end m;
             Some (status, if status = STATUS_OK then running m else m)
           }
         }
         else Some (STATUS_OK, m))"

section \<open>A whole line\<close>

definition gc_execute_block :: "libm \<Rightarrow> gc_locals \<Rightarrow> machine \<Rightarrow> (u8 \<times> machine) option" where
  "gc_execute_block lm l m = do {
     m \<leftarrow> exec_settings l m;
     m \<leftarrow> exec_non_modal l m;
     m \<leftarrow> exec_motion lm l m;
     exec_program_flow l m
   }"

definition gc_execute_line :: "libm \<Rightarrow> u8 list \<Rightarrow> machine \<Rightarrow> (u8 \<times> machine) option" where
  "gc_execute_line lm line m = do {
     (status, l) \<leftarrow> gc_read_block line (gc_state m) (nvm (env m));
     let m = put_nvm (gc_nvm l) m;
     if status \<noteq> STATUS_OK then Some (status, m) else gc_execute_block lm l m
   }"

end
