(* ===== verification/Command.thy ===== *)
theory Command
  imports GcodeExec
begin

text \<open>
  The system commands (\<open>system.c\<close>), the line filter and main loop (\<open>protocol.c\<close>) and the start-up
  (\<open>main.c\<close>).  The static line buffer is the field \<open>line_buf\<close>; a C string in it ends at its first
  NUL.
\<close>

definition cstring :: "u8 list \<Rightarrow> u8 list" where
  "cstring buf = takeWhile (\<lambda>c. c \<noteq> 0) buf"

text \<open>Moving the rest of the string, from position \<open>i\<close> on, to the start of the buffer.\<close>

definition shift_line :: "nat \<Rightarrow> u8 list \<Rightarrow> u8 list" where
  "shift_line i buf = (let t = drop i (cstring buf) @ [0] in t @ drop (length t) buf)"

definition put_line :: "u8 list \<Rightarrow> machine \<Rightarrow> machine" where
  "put_line l m = m\<lparr>line_buf := l\<rparr>"

section \<open>Start-up lines\<close>

definition execute_startup_line :: "libm \<Rightarrow> nat \<Rightarrow> machine \<Rightarrow> machine option" where
  "execute_startup_line lm n m = do {
     (ok, l, f) \<leftarrow> settings_read_startup_line n (nvm (env m));
     let m = put_line l (put_nvm f m);
     if \<not> ok then Some (emit (report_status_message STATUS_SETTING_READ_FAIL) m)
     else if char_at (line_buf m) 0 \<noteq> 0 then do {
       (status, m) \<leftarrow> gc_execute_line lm (cstring (line_buf m)) (emit (printString (line_buf m)) m);
       Some (emit (report_status_message status) m)
     }
     else Some m
   }"

fun execute_startup_lines :: "libm \<Rightarrow> nat \<Rightarrow> machine \<Rightarrow> machine option" where
  "execute_startup_lines lm 0 m = Some m"
| "execute_startup_lines lm (Suc n) m = do { m \<leftarrow> execute_startup_lines lm n m; execute_startup_line lm n m }"

definition system_execute_startup :: "libm \<Rightarrow> machine \<Rightarrow> machine option" where
  "system_execute_startup lm m = execute_startup_lines lm N_STARTUP_LINE m"

section \<open>System commands\<close>

definition check_mode_command :: "machine \<Rightarrow> u8 \<times> machine" where
  "check_mode_command m =
     (if state (sys m) = STATE_CHECK_MODE then (STATUS_OK, emit (report_feedback_message MESSAGE_DISABLED) (mc_reset m))
      else if state (sys m) \<noteq> 0 then (STATUS_IDLE_ERROR, m)
      else (STATUS_OK, emit (report_feedback_message MESSAGE_ENABLED) (set_state STATE_CHECK_MODE m)))"

definition unlock_command :: "machine \<Rightarrow> machine option" where
  "unlock_command m =
     (if state (sys m) = STATE_ALARM then
        let m = set_state STATE_IDLE (emit (report_feedback_message MESSAGE_ALARM_UNLOCK) m) in
        if system_check_safety_door_ajar m then protocol_execute_realtime (raise_exec EXEC_SAFETY_DOOR m) else Some m
      else Some m)"

text \<open>\<open>$$\<close>, \<open>$G\<close>, \<open>$C\<close> and \<open>$X\<close>.\<close>

definition plain_command :: "u8 \<Rightarrow> machine \<Rightarrow> (u8 \<times> machine) option" where
  "plain_command c m =
     (if c = 36 then
        if in_state (STATE_CYCLE OR STATE_HOLD) m then Some (STATUS_IDLE_ERROR, m)
        else do { bs \<leftarrow> report_grbl_settings (cfg m); Some (STATUS_OK, emit bs m) }
      else if c = 71 then do { bs \<leftarrow> report_gcode_modes m; Some (STATUS_OK, emit bs m) }
      else if c = 67 then Some (check_mode_command m)
      else do { m \<leftarrow> unlock_command m; Some (STATUS_OK, m) })"

definition homing_command :: "libm \<Rightarrow> machine \<Rightarrow> (u8 \<times> machine) option" where
  "homing_command lm m =
     (if bit_istrue (flags (cfg m)) BITFLAG_HOMING_ENABLE then
        let m = set_state STATE_HOMING m in do {
          m \<leftarrow> (if system_check_safety_door_ajar m then protocol_execute_realtime (raise_exec EXEC_SAFETY_DOOR m) else Some m);
          m \<leftarrow> mc_homing_cycle m;
          if abort (sys m) then Some (STATUS_OK, m)
          else do {
            m \<leftarrow> system_execute_startup lm (st_go_idle (set_state STATE_IDLE m));
            Some (STATUS_OK, m)
          }
        }
      else Some (STATUS_SETTING_DISABLED, m))"

definition build_info_command :: "u8 list \<Rightarrow> machine \<Rightarrow> (u8 \<times> machine) option" where
  "build_info_command build_date m =
     (let s = cstring (line_buf m) in
      if char_at s 2 = 0 then do {
        (ok, l, f) \<leftarrow> settings_read_build_info (nvm (env m));
        let m = put_line l (put_nvm f m);
        Some (STATUS_OK, emit (report_build_info build_date (line_buf m)) m)
      }
      else if char_at s 2 \<noteq> 61 then Some (STATUS_INVALID_STATEMENT, m)
      else
        let m = put_line (shift_line 3 (line_buf m)) m in do {
          f \<leftarrow> settings_store_build_info (line_buf m) (nvm (env m));
          Some (STATUS_OK, put_nvm f m)
        })"

definition restore_command :: "machine \<Rightarrow> (u8 \<times> machine) option" where
  "restore_command m =
     (let s = cstring (line_buf m); c = char_at s 5 in
      if char_at s 2 \<noteq> 83 \<or> char_at s 3 \<noteq> 84 \<or> char_at s 4 \<noteq> 61 \<or> char_at s 6 \<noteq> 0 \<or> c \<notin> {36, 35, 42}
      then Some (STATUS_INVALID_STATEMENT, m)
      else do {
        e \<leftarrow> settings_restore (if c = 36 then SETTINGS_RESTORE_DEFAULTS else if c = 35 then SETTINGS_RESTORE_PARAMETERS
              else SETTINGS_RESTORE_ALL) (env m);
        Some (STATUS_OK, mc_reset (emit (report_feedback_message MESSAGE_RESTORE_DEFAULTS) (upd_env (\<lambda>_. e) m)))
      })"

fun print_startup_lines :: "nat \<Rightarrow> machine \<Rightarrow> machine option" where
  "print_startup_lines 0 m = Some m"
| "print_startup_lines (Suc n) m = do {
     m \<leftarrow> print_startup_lines n m;
     (ok, l, f) \<leftarrow> settings_read_startup_line n (nvm (env m));
     let m = put_line l (put_nvm f m);
     Some (emit (if ok then report_startup_line (of_nat n) (line_buf m) else report_status_message STATUS_SETTING_READ_FAIL) m)
   }"

text \<open>The assignments \<open>$Nx=line\<close> and \<open>$x=value\<close>; \<open>cc\<close> is where the number starts.\<close>

definition store_startup_command :: "libm \<Rightarrow> fl \<Rightarrow> u8 \<Rightarrow> machine \<Rightarrow> (u8 \<times> machine) option" where
  "store_startup_command lm parameter cc m =
     (let m = put_line (shift_line (unat cc) (line_buf m)) m in do {
        (status, m) \<leftarrow> gc_execute_line lm (cstring (line_buf m)) m;
        if status \<noteq> STATUS_OK then Some (status, m)
        else do {
          f \<leftarrow> settings_store_startup_line (unat (fl_to_u8 (fl_trunc parameter))) (line_buf m) (nvm (env m));
          Some (STATUS_OK, put_nvm f m)
        }
      })"

definition store_setting_command :: "fl \<Rightarrow> u8 \<Rightarrow> machine \<Rightarrow> (u8 \<times> machine) option" where
  "store_setting_command parameter cc m =
     (let s = cstring (line_buf m) in
      case read_float s cc of
        None \<Rightarrow> Some (STATUS_BAD_NUMBER_FORMAT, m)
      | Some (val, cc) \<Rightarrow>
          if char_at s cc \<noteq> 0 \<or> fl_gt parameter (f32_of_int 255) then Some (STATUS_INVALID_STATEMENT, m)
          else do {
            (status, e) \<leftarrow> settings_store_global_setting (fl_to_u8 parameter) val (env m);
            Some (status, upd_env (\<lambda>_. e) m)
          })"

definition assign_command :: "libm \<Rightarrow> bool \<Rightarrow> u8 \<Rightarrow> machine \<Rightarrow> (u8 \<times> machine) option" where
  "assign_command lm startup cc m =
     (let s = cstring (line_buf m) in
      case read_float s cc of
        None \<Rightarrow> Some (STATUS_BAD_NUMBER_FORMAT, m)
      | Some (parameter, cc) \<Rightarrow>
          if char_at s cc \<noteq> 61 then Some (STATUS_INVALID_STATEMENT, m)
          else if startup then store_startup_command lm parameter (cc + 1) m
          else store_setting_command parameter (cc + 1) m)"

definition startup_command :: "libm \<Rightarrow> machine \<Rightarrow> (u8 \<times> machine) option" where
  "startup_command lm m =
     (if char_at (cstring (line_buf m)) 2 = 0 then do { m \<leftarrow> print_startup_lines N_STARTUP_LINE m; Some (STATUS_OK, m) }
      else if state (sys m) \<noteq> STATE_IDLE then Some (STATUS_IDLE_ERROR, m)
      else assign_command lm True 2 m)"

definition idle_command :: "libm \<Rightarrow> u8 list \<Rightarrow> u8 \<Rightarrow> machine \<Rightarrow> (u8 \<times> machine) option" where
  "idle_command lm build_date c m =
     (if c = 35 then
        if char_at (cstring (line_buf m)) 2 \<noteq> 0 then Some (STATUS_INVALID_STATEMENT, m)
        else do { m \<leftarrow> report_ngc_parameters m; Some (STATUS_OK, m) }
      else if c = 72 then homing_command lm m
      else if c = 73 then build_info_command build_date m
      else if c = 82 then restore_command m
      else if c = 78 then startup_command lm m
      else assign_command lm False 1 m)"

definition system_execute_line :: "libm \<Rightarrow> u8 list \<Rightarrow> machine \<Rightarrow> (u8 \<times> machine) option" where
  "system_execute_line lm build_date m =
     (let s = cstring (line_buf m); c = char_at s 1 in
      if c = 0 then Some (STATUS_OK, emit report_grbl_help m)
      else if c \<in> {36, 71, 67, 88} then
        if char_at s 2 \<noteq> 0 then Some (STATUS_INVALID_STATEMENT, m) else plain_command c m
      else if \<not> (state (sys m) = STATE_IDLE \<or> state (sys m) = STATE_ALARM) then Some (STATUS_IDLE_ERROR, m)
      else idle_command lm build_date c m)"

section \<open>Lines from the serial port\<close>

definition protocol_execute_line :: "libm \<Rightarrow> u8 list \<Rightarrow> machine \<Rightarrow> machine option" where
  "protocol_execute_line lm build_date m = do {
     m \<leftarrow> protocol_execute_realtime m;
     if abort (sys m) then Some m
     else do {
       (status, m) \<leftarrow>
         (let c = char_at (cstring (line_buf m)) 0 in
          if c = 0 then Some (STATUS_OK, m)
          else if c = 36 then system_execute_line lm build_date m
          else if state (sys m) = STATE_ALARM then Some (STATUS_ALARM_LOCK, m)
          else gc_execute_line lm (cstring (line_buf m)) m);
       Some (emit (report_status_message status) m)
     }
   }"

abbreviation (input) COMMENT_NONE :: u8 where "COMMENT_NONE \<equiv> 0"
abbreviation (input) COMMENT_TYPE_PARENTHESES :: u8 where "COMMENT_TYPE_PARENTHESES \<equiv> 1"
abbreviation (input) COMMENT_TYPE_SEMICOLON :: u8 where "COMMENT_TYPE_SEMICOLON \<equiv> 2"

record line_state =
  comment :: u8
  line_char_counter :: u8

definition new_line :: line_state where
  "new_line = \<lparr>comment = COMMENT_NONE, line_char_counter = 0\<rparr>"

text \<open>A character that does not end the line.\<close>

definition filter_char :: "u8 \<Rightarrow> line_state \<Rightarrow> machine \<Rightarrow> line_state \<times> machine" where
  "filter_char c ls m =
     (let put = (\<lambda>c. (ls\<lparr>line_char_counter := line_char_counter ls + 1\<rparr>,
                      put_line ((line_buf m)[unat (line_char_counter ls) := c]) m))
      in if comment ls \<noteq> COMMENT_NONE then
           (if c = 41 \<and> comment ls = COMMENT_TYPE_PARENTHESES then ls\<lparr>comment := COMMENT_NONE\<rparr> else ls, m)
         else if c \<le> 32 then (ls, m)
         else if c = 47 then (ls, m)
         else if c = 40 then (ls\<lparr>comment := COMMENT_TYPE_PARENTHESES\<rparr>, m)
         else if c = 59 then (ls\<lparr>comment := COMMENT_TYPE_SEMICOLON\<rparr>, m)
         else if line_char_counter ls \<ge> of_nat LINE_BUFFER_SIZE - 1 then
           (new_line, emit (report_status_message STATUS_OVERFLOW) m)
         else if c \<ge> 97 \<and> c \<le> 122 then put (c - 97 + 65)
         else put c)"

definition process_char :: "libm \<Rightarrow> u8 list \<Rightarrow> u8 \<Rightarrow> line_state \<Rightarrow> machine \<Rightarrow> (line_state \<times> machine) option" where
  "process_char lm build_date c ls m =
     (if c = 10 \<or> c = 13 then do {
        m \<leftarrow> protocol_execute_line lm build_date (put_line ((line_buf m)[unat (line_char_counter ls) := 0]) m);
        Some (new_line, m)
      }
      else Some (filter_char c ls m))"

partial_function (option) process_serial ::
  "libm \<Rightarrow> u8 list \<Rightarrow> line_state \<Rightarrow> machine \<Rightarrow> (line_state \<times> machine) option" where
  "process_serial lm build_date ls m =
     (let (c, s) = serial_read (ser m); m = m\<lparr>ser := s\<rparr> in
      if c = SERIAL_NO_DATA then Some (ls, m)
      else do { (ls, m) \<leftarrow> process_char lm build_date c ls m; process_serial lm build_date ls m })"

declare process_serial.simps [code]

text \<open>The primary loop; it leaves on a system abort, or where the environment has nothing more.\<close>

partial_function (option) primary_loop :: "libm \<Rightarrow> u8 list \<Rightarrow> line_state \<Rightarrow> machine \<Rightarrow> machine option" where
  "primary_loop lm build_date ls m = do {
     (ls, m) \<leftarrow> process_serial lm build_date ls m;
     m \<leftarrow> protocol_execute_realtime (protocol_auto_cycle_start m);
     if abort (sys m) then Some m
     else case await m of None \<Rightarrow> Some m | Some m \<Rightarrow> primary_loop lm build_date ls m
   }"

declare primary_loop.simps [code]

definition protocol_main_loop :: "libm \<Rightarrow> u8 list \<Rightarrow> machine \<Rightarrow> machine option" where
  "protocol_main_loop lm build_date m =
     (let m = emit report_init_message m in do {
        m \<leftarrow> (if state (sys m) = STATE_ALARM then Some (emit (report_feedback_message MESSAGE_ALARM_LOCK) m)
              else do {
                m \<leftarrow> (if system_check_safety_door_ajar m then protocol_execute_realtime (raise_exec EXEC_SAFETY_DOOR m)
                      else Some (set_state STATE_IDLE m));
                system_execute_startup lm m
              });
        primary_loop lm build_date new_line m
      })"

section \<open>Power-up and reset\<close>

definition power_up :: "machine \<Rightarrow> machine option" where
  "power_up m = do {
     (restored, e) \<leftarrow> settings_init (env m);
     let m = upd_env (\<lambda>_. e) m;
     m \<leftarrow> (if restored then do {
             bs \<leftarrow> report_grbl_settings (cfg m);
             Some (emit (report_status_message STATUS_SETTING_READ_FAIL @ bs) m)
           }
           else Some m);
     let m = m\<lparr>sys := zero_system\<lparr>abort := True\<rparr>\<rparr>;
     Some (if bit_istrue (flags (cfg m)) BITFLAG_HOMING_ENABLE then set_state STATE_ALARM m else m)
   }"

definition reset_systems :: "machine \<Rightarrow> machine option" where
  "reset_systems m = do {
     m \<leftarrow> gc_init (m\<lparr>ser := serial_reset_read_buffer (ser m)\<rparr>);
     let m = st_reset (plan_reset (upd_env limits_init (coolant_stop (spindle_stop m))));
     let m = (if spindle_pwm_enable_at_start (cfg m) \<noteq> 0 then
                spindle_set_state SPINDLE_ENABLE_CW (Fin 0) (upd_gc_modal (spindle_mode_update (\<lambda>_. SPINDLE_ENABLE_CW)) m)
              else m);
     let m = gc_sync_position (plan_sync_position m);
     Some ((upd_sys (\<lambda>y. y\<lparr>abort := False, suspend := 0, soft_limit := False\<rparr>) m)
       \<lparr>sys_rt_exec_state := 0, sys_rt_exec_alarm := 0\<rparr>)
   }"

definition reset_cycle :: "libm \<Rightarrow> u8 list \<Rightarrow> machine \<Rightarrow> machine option" where
  "reset_cycle lm build_date m = do { m \<leftarrow> reset_systems m; protocol_main_loop lm build_date m }"

text \<open>The loop over resets: the main loop comes back to it on a system abort only.  The argument bounds
  the number of rounds.\<close>

fun resets :: "libm \<Rightarrow> u8 list \<Rightarrow> nat \<Rightarrow> machine \<Rightarrow> machine option" where
  "resets lm build_date 0 m = Some m"
| "resets lm build_date (Suc n) m = do {
     m \<leftarrow> reset_cycle lm build_date m;
     if abort (sys m) then resets lm build_date n m else Some m
   }"

definition firmware :: "libm \<Rightarrow> u8 list \<Rightarrow> nat \<Rightarrow> machine \<Rightarrow> machine option" where
  "firmware lm build_date n m = do { m \<leftarrow> power_up m; resets lm build_date n m }"

end
