(* ===== verification/Invariant.thy ===== *)
theory Invariant
  imports Command StepInvariant
begin

text \<open>
  Invariants of the running machine, stated once for any predicate.  The locale
  \<open>realtime_invariant\<close> assumes that a predicate survives the primitive changes of the real-time
  executor; its lemmas show that it survives the executor itself and everything that waits in it.
\<close>

abbreviation legal_states :: "u8 set" where
  "legal_states \<equiv> {STATE_IDLE, STATE_ALARM, STATE_CHECK_MODE, STATE_HOMING, STATE_CYCLE, STATE_HOLD,
     STATE_SAFETY_DOOR, STATE_MOTION_CANCEL}"

abbreviation legal_suspend :: "u8 \<Rightarrow> bool" where
  "legal_suspend x \<equiv> x AND 0xF0 = 0"

section \<open>Interrupts\<close>

lemma rx_inv_isr: "rx_inv s \<Longrightarrow> rx_inv (snd (SERIAL_DMA_ISR id c (rt, s)))"
  by (simp add: SERIAL_DMA_ISR_def serial_dma_store_inv split: option.split rt_command.split)

lemma rx_inv_read: "rx_inv s \<Longrightarrow> rx_inv (snd (serial_read s))"
  using serial_read_step(1) [of s] rx_empty_iff [of s]
  by (cases "rx_contents s = []") (auto simp: serial_read_def Let_def)

locale machine_invariant = step_invariant P
  for P :: "machine \<Rightarrow> bool" +
  assumes P_put_alarm: "P m \<Longrightarrow> P (m\<lparr>sys_rt_exec_alarm := x\<rparr>)"
    and P_put_spindle: "P m \<Longrightarrow> P (m\<lparr>spindle_timer_on := on, spindle_output_on := out, spindle_oc_value := oc,
      spindle_timer_period := per\<rparr>)"
    and P_put_gpioc: "P m \<Longrightarrow> P (m\<lparr>gpioc_odr := pc\<rparr>)"
    and P_put_debounce: "P m \<Longrightarrow> P (m\<lparr>debounce_timer_on := db\<rparr>)"
    and P_put_probe_pin: "P m \<Longrightarrow> P (m\<lparr>probe_pin := pp\<rparr>)"
    and P_put_limit_pins: "P m \<Longrightarrow> P (m\<lparr>limit_pins := lp\<rparr>)"
    and P_serial: "P m \<Longrightarrow> rx_inv (ser m)"
    and P_put_serial: "P m \<Longrightarrow> rx_inv r \<Longrightarrow> P (m\<lparr>ser := r\<rparr>)"
begin

lemma P_flags:
  "P m \<Longrightarrow> P (raise_exec b m)" "P m \<Longrightarrow> P (clear_exec b m)"
  "P m \<Longrightarrow> P (raise_alarm b m)" "P m \<Longrightarrow> P (clear_alarm b m)"
  by (simp_all add: raise_exec_def clear_exec_def raise_alarm_def clear_alarm_def P_put_exec P_put_alarm)

lemma P_spindle_fields:
  "P m \<Longrightarrow> P (m\<lparr>spindle_timer_on := b\<rparr>)" "P m \<Longrightarrow> P (m\<lparr>spindle_output_on := b\<rparr>)"
  "P m \<Longrightarrow> P (m\<lparr>spindle_oc_value := v\<rparr>)" "P m \<Longrightarrow> P (m\<lparr>spindle_timer_period := w\<rparr>)"
  using P_put_spindle [of m "spindle_timer_period m" "spindle_oc_value m" "spindle_output_on m" b]
    P_put_spindle [of m "spindle_timer_period m" "spindle_oc_value m" b "spindle_timer_on m"]
    P_put_spindle [of m "spindle_timer_period m" v "spindle_output_on m" "spindle_timer_on m"]
    P_put_spindle [of m w "spindle_oc_value m" "spindle_output_on m" "spindle_timer_on m"] by simp_all

lemma P_spindle_stop: "P m \<Longrightarrow> P (spindle_stop m)"
  unfolding spindle_stop_def by (intro P_spindle_fields)

lemma P_spindle: "P m \<Longrightarrow> P (spindle_set_state mode rpm m)"
  unfolding spindle_set_state_def Let_def by (intro P_if P_spindle_stop P_spindle_fields P_gpioa)

lemma P_coolant_stop: "P m \<Longrightarrow> P (coolant_stop m)"
  by (simp add: coolant_stop_def P_put_gpioc)

lemma P_coolant: "P m \<Longrightarrow> P (coolant_set_state mode m)"
  by (simp add: coolant_set_state_def P_coolant_stop P_put_gpioc)

lemma P_mc_reset: "P m \<Longrightarrow> P (mc_reset m)"
  by (simp add: mc_reset_def Let_def P_flags P_coolant_stop P_spindle_stop P_go_idle)

lemma P_debounce: "P m \<Longrightarrow> P (enable_debounce_timer m)"
  by (simp add: enable_debounce_timer_def P_put_debounce)

lemma P_receive: "P m \<Longrightarrow> P (receive_byte c m)"
proof -
  assume P: "P m"
  obtain rt r where r: "SERIAL_DMA_ISR id c (sys_rt_exec_state m, ser m) = (rt, r)" by fastforce
  have "rx_inv r"
    using rx_inv_isr [OF P_serial [OF P], of c "sys_rt_exec_state m"] r by simp
  from P_put_serial [OF P_put_exec [OF P] this, of rt] show ?thesis
    using P r by (simp add: receive_byte_def P_mc_reset)
qed

lemma P_interrupt: "P m \<Longrightarrow> P (interrupt_step i m)"
  by (cases i)
    (simp_all add: P_main_isr P_pulse_isr P_receive limit_pin_isr_def P_debounce SW_DEBOUNCE_TIMER_ISR_def Let_def
      RESET_CONTROL_ISR_def FEED_HOLD_CONTROL_ISR_def SAFETY_DOOR_CONTROL_ISR_def CYCLE_START_CONTROL_ISR_def
      P_mc_reset P_flags P_put_debounce P_put_probe_pin P_put_limit_pins)

lemma P_read: "P m \<Longrightarrow> P (m\<lparr>ser := snd (serial_read (ser m))\<rparr>)"
  by (simp add: P_put_serial rx_inv_read P_serial)

lemma P_read_reset: "P m \<Longrightarrow> P (m\<lparr>ser := serial_reset_read_buffer (ser m)\<rparr>)"
  using P_serial [of m] by (intro P_put_serial) (simp_all add: serial_reset_read_buffer_def rx_inv_def)

end

section \<open>The real-time executor\<close>

locale realtime_invariant = machine_invariant P
  for P :: "machine \<Rightarrow> bool" +
  assumes P_future: "P m \<Longrightarrow> P (m\<lparr>future := fut\<rparr>)"
    and P_emit: "P m \<Longrightarrow> P (emit bs m)"
    and P_set_state: "P m \<Longrightarrow> x \<in> legal_states \<Longrightarrow> P (set_state x m)"
    and P_set_suspend: "P m \<Longrightarrow> legal_suspend x \<Longrightarrow> P (set_suspend x m)"
    and P_suspend: "P m \<Longrightarrow> legal_suspend (suspend (sys m))"
    and P_abort: "P m \<Longrightarrow> P (upd_sys (abort_update (\<lambda>_. True)) m)"
begin

lemmas P_prep = P_st_prep_buffer

lemma P_bind: "pred_option P x \<Longrightarrow> (\<And>m. P m \<Longrightarrow> pred_option Q (f m)) \<Longrightarrow> pred_option Q (x \<bind> f)"
  by (rule pred_bind)

lemma P_bind2: "pred_option (\<lambda>r. P (snd r)) x \<Longrightarrow> (\<And>r. P (snd r) \<Longrightarrow> pred_option Q (f r)) \<Longrightarrow> pred_option Q (x \<bind> f)"
  by (rule pred_bind)

lemmas P_flow = P_if pred_if pred_Some P_bind P_bind2

lemma P_suspend_or: "P m \<Longrightarrow> legal_suspend x \<Longrightarrow> P (set_suspend (suspend (sys m) OR x) m)"
  using P_suspend [of m] by (intro P_set_suspend) (simp_all add: bit.conj_disj_distrib2)

lemmas P_basic = P_emit P_set_state P_set_suspend P_suspend_or P_abort P_flags P_st_update P_wake_up
  P_spindle_stop P_spindle P_coolant_stop P_coolant

lemma P_interrupts: "P m \<Longrightarrow> P (fold interrupt_step evs m)"
  by (induction evs arbitrary: m) (simp_all add: P_interrupt)

lemma P_await: "P m \<Longrightarrow> pred_option P (await m)"
  by (cases "future m") (simp_all add: await_def P_interrupts P_future)

lemma P_poll: "P m \<Longrightarrow> P (poll m)"
  using P_await [of m] by (cases "await m") (simp_all add: poll_def)

lemma P_delay: "P m \<Longrightarrow> P (delay_ms ms m)"
  by (simp add: delay_ms_def P_poll)

lemma P_wait_for_reset: "P m \<Longrightarrow> pred_option P (wait_for_reset m)"
proof (rule pred_optionI)
  fix r assume "wait_for_reset m = Some r" "P m"
  then show "P r"
  proof (induction rule: wait_for_reset.raw_induct [rotated, consumes 1, case_names step])
    case (step f m r)
    have f: "pred_option P (f x)" if "P x" for x
      by (rule pred_optionI) (use step.IH that in blast)
    show "P r"
      by (rule pred_optionD [OF _ step.hyps])
        (intro P_flow P_await f step.prems)
  qed
qed

lemma P_alarm_message: "P m \<Longrightarrow> P (report_alarm_message c m)"
  by (simp add: report_alarm_message_def P_basic P_delay)

lemma P_execute_alarm: "P m \<Longrightarrow> pred_option P (execute_alarm m)"
  by (simp add: execute_alarm_def Let_def) (intro P_flow conjI impI P_wait_for_reset P_basic P_alarm_message; simp)

lemma P_enter_hold: "P m \<Longrightarrow> P (snd (enter_hold rt m))"
  unfolding enter_hold_def Let_def by (simp add: P_basic)

lemma P_execute_holds: "P m \<Longrightarrow> P (snd (execute_holds rt m))"
  using P_enter_hold [of m rt]
  by (simp add: execute_holds_def case_prod_beta P_flags split: prod.split)

lemma P_reenergize: "P m \<Longrightarrow> P (reenergize m)"
  unfolding reenergize_def Let_def by (simp add: P_basic P_delay)

lemma P_start_or_idle: "P m \<Longrightarrow> pred_option P (start_or_idle m)"
  unfolding start_or_idle_def by (intro P_flow P_prep P_basic; simp)

lemma P_cycle_start: "P m \<Longrightarrow> pred_option P (execute_cycle_start rt m)"
  unfolding execute_cycle_start_def by (intro P_flow P_start_or_idle P_reenergize P_basic; simp)

lemma P_cycle_stop: "P m \<Longrightarrow> P (execute_cycle_stop rt m)"
  using P_suspend_or [of m SUSPEND_ENABLE_READY] P_suspend_or [of "coolant_stop (spindle_stop m)" SUSPEND_ENABLE_READY]
  unfolding execute_cycle_stop_def Let_def bit_true_def by (simp add: P_basic)

lemma P_status_report: "P m \<Longrightarrow> pred_option P (execute_status_report rt m)"
  unfolding execute_status_report_def
  by (intro pred_if pred_bind [where Q = "\<lambda>_. True"] pred_Some P_basic) (simp_all add: option.pred_True)

lemma P_commands: "P m \<Longrightarrow> pred_option P (execute_commands rt m)"
  unfolding execute_commands_def Let_def case_prod_beta
  by (intro P_flow P_status_report P_cycle_start P_cycle_stop P_execute_holds)

lemma P_close_door: "P m \<Longrightarrow> P (close_safety_door m)"
  by (simp add: close_safety_door_def P_basic)

lemma P_realtime_pass: "P m \<Longrightarrow> pred_option (\<lambda>r. P (snd r)) (realtime_pass m)"
  unfolding realtime_pass_def Let_def
  by (intro P_flow P_execute_alarm P_commands P_prep; simp add: P_abort P_close_door)

lemma P_suspend_loop: "P m \<Longrightarrow> pred_option P (suspend_loop m)"
proof (rule pred_optionI)
  fix r assume "suspend_loop m = Some r" "P m"
  then show "P r"
  proof (induction rule: suspend_loop.raw_induct [rotated, consumes 1, case_names step])
    case (step f m r)
    have f: "pred_option P (f x)" if "P x" for x
      by (rule pred_optionI) (use step.IH that in blast)
    show "P r"
      by (rule pred_optionD [OF _ step.hyps], unfold Let_def case_prod_beta)
        (intro P_flow P_realtime_pass P_await f step.prems)
  qed
qed

lemma P_realtime: "P m \<Longrightarrow> pred_option P (protocol_execute_realtime m)"
  by (simp add: protocol_execute_realtime_def P_suspend_loop P_poll)

lemma P_synchronize: "P m \<Longrightarrow> pred_option P (protocol_buffer_synchronize m)"
proof (rule pred_optionI)
  fix r assume "protocol_buffer_synchronize m = Some r" "P m"
  then show "P r"
  proof (induction rule: protocol_buffer_synchronize.raw_induct [rotated, consumes 1, case_names step])
    case (step f m r)
    have f: "pred_option P (f x)" if "P x" for x
      by (rule pred_optionI) (use step.IH that in blast)
    show "P r"
      by (rule pred_optionD [OF _ step.hyps], unfold Let_def case_prod_beta protocol_auto_cycle_start_def)
        (intro P_flow P_realtime P_flags P_await f step.prems)
  qed
qed

lemma P_wait_until_idle: "P m \<Longrightarrow> pred_option P (wait_until_idle m)"
proof (rule pred_optionI)
  fix r assume "wait_until_idle m = Some r" "P m"
  then show "P r"
  proof (induction rule: wait_until_idle.raw_induct [rotated, consumes 1, case_names step])
    case (step f m r)
    have f: "pred_option P (f x)" if "P x" for x
      by (rule pred_optionI) (use step.IH that in blast)
    show "P r"
      by (rule pred_optionD [OF _ step.hyps])
        (intro P_flow P_realtime P_await f step.prems)
  qed
qed

lemma P_spindle_run: "P m \<Longrightarrow> pred_option P (spindle_run mode rpm m)"
  unfolding spindle_run_def by (intro P_flow P_synchronize P_spindle)

lemma P_coolant_run: "P m \<Longrightarrow> pred_option P (coolant_run mode m)"
  unfolding coolant_run_def by (intro P_flow P_synchronize P_coolant)

lemma P_wait_for_room: "P m \<Longrightarrow> pred_option (\<lambda>r. P (snd r)) (wait_for_room m)"
proof (rule pred_optionI)
  fix r assume "wait_for_room m = Some r" "P m"
  then show "P (snd r)"
  proof (induction rule: wait_for_room.raw_induct [rotated, consumes 1, case_names step])
    case (step f m r)
    have f: "pred_option (\<lambda>r. P (snd r)) (f x)" if "P x" for x
      by (rule pred_optionI) (use step.IH that in blast)
    show "P (snd r)"
      by (rule pred_optionD [OF _ step.hyps], unfold Let_def case_prod_beta protocol_auto_cycle_start_def)
        (intro P_flow P_realtime P_await P_flags f step.prems)
  qed
qed

end

section \<open>Soft limits\<close>

locale limit_invariant = realtime_invariant +
  assumes P_soft_limit: "P m \<Longrightarrow> P (upd_sys (soft_limit_update (\<lambda>_. b)) m)"
begin

lemma P_soft_kill: "P m \<Longrightarrow> pred_option P (soft_limit_kill m)"
  unfolding soft_limit_kill_def by (intro P_realtime P_flags P_mc_reset)

lemma P_soft_stop: "P m \<Longrightarrow> pred_option P (soft_limit_stop m)"
  unfolding soft_limit_stop_def by (intro P_flow P_wait_until_idle P_soft_kill P_flags)

lemma P_soft_axes: "P m \<Longrightarrow> pred_option P (soft_check_axes idxs target m)"
  by (induction idxs target m rule: soft_check_axes.induct) (auto simp: Let_def P_soft_limit P_soft_stop)

lemma P_soft_check: "P m \<Longrightarrow> pred_option P (limits_soft_check target m)"
  by (simp add: limits_soft_check_def P_soft_axes)

end

section \<open>Motion control\<close>

lemma length_fold_axes: "(\<And>i p. length (f i p) = length p) \<Longrightarrow> length (fold f is p) = length p"
  by (induction "is" arbitrary: p) simp_all

lemma length_zero_axis: "length (zero_axis_position c i p) = length p"
  by (simp add: zero_axis_position_def Let_def)

lemma length_homed: "length (homed_position c i p) = length p"
  by (simp add: homed_position_def Let_def)

lemma upd_position_eq: "upd_sys (position_update f) m = upd_sys (position_update (\<lambda>_. f (position (sys m)))) m"
  by (simp add: upd_sys_def)

text \<open>The homing cycle itself leaves the environment record alone, so its laws do not ask for that.\<close>

locale homing_invariant = limit_invariant +
  assumes P_buffer_line: "P m \<Longrightarrow> pred_option P (plan_buffer_line target feed iv m)"
    and P_plan_reset: "P m \<Longrightarrow> P (plan_reset m)"
    and P_plan_sync: "P m \<Longrightarrow> P (plan_sync_position m)"
    and P_axis_lock: "P m \<Longrightarrow> P (upd_sys (homing_axis_lock_update (\<lambda>_. lock)) m)"
begin

lemma P_watch_limits: "P m \<Longrightarrow> P (snd (watch_limits lock m))"
  by (simp add: watch_limits_def Let_def P_axis_lock P_debounce)

lemma P_watch_if: "P m \<Longrightarrow> P (snd (if approach then watch_limits lock m else (lock, m)))"
  by (simp add: P_watch_limits)

lemma P_homing_watch: "P m \<Longrightarrow> pred_option (\<lambda>r. P (snd r)) (homing_watch approach cm lock m)"
proof (rule pred_optionI)
  fix r assume "homing_watch approach cm lock m = Some r" "P m"
  then show "P (snd r)"
  proof (induction rule: homing_watch.raw_induct [rotated, consumes 1, case_names step])
    case (step f approach cm lock m r)
    have f: "pred_option (\<lambda>r. P (snd r)) (f a b c x)" if "P x" for a b c x
      by (rule pred_optionI) (use step.IH that in blast)
    show "P (snd r)"
      by (rule pred_optionD [OF _ step.hyps], unfold Let_def case_prod_beta)
        (intro P_flow P_await P_prep P_realtime P_mc_reset f P_watch_if P_flags step.prems)
  qed
qed

lemma P_position_fun: "P m \<Longrightarrow> (\<And>p. length (f p) = length p) \<Longrightarrow> P (upd_sys (position_update f) m)"
  by (subst upd_position_eq) (rule P_position)

lemma P_homing_prepare: "P m \<Longrightarrow> P (snd (homing_prepare approach cm travel m))"
  unfolding homing_prepare_def Let_def
  by (simp add: P_axis_lock P_position_fun length_fold_axes length_zero_axis)

lemma P_homing_rounds: "P m \<Longrightarrow> pred_option (\<lambda>r. P (snd r)) (homing_rounds n cm approach travel rate m)"
proof (induction n arbitrary: approach travel rate m)
  case (Suc n)
  show ?case
    unfolding homing_rounds.simps Let_def case_prod_beta
    by (intro P_bind P_bind2 P_buffer_line P_prep P_homing_watch P_wake_up P_plan_sync P_homing_prepare pred_if
          Suc P_delay P_plan_reset P_st_reset; simp)
qed simp

lemma P_go_home: "P m \<Longrightarrow> pred_option P (limits_go_home cm m)"
  unfolding limits_go_home_def case_prod_beta
  by (intro P_flow P_homing_rounds P_plan_sync P_position_fun length_fold_axes length_homed)

end

locale motion_invariant = homing_invariant +
  assumes P_probe_ok: "P m \<Longrightarrow> P (upd_sys (probe_succeeded_update (\<lambda>_. b)) m)"
    and P_probe_mask: "P m \<Longrightarrow> P (probe_configure_invert_mask b m)"
    and P_gc: "P m \<Longrightarrow> P (upd_gc g m)"
    and P_env: "P m \<Longrightarrow> P (upd_env e m)"
begin

lemma P_mc_line: "P m \<Longrightarrow> pred_option P (mc_line target feed iv m)"
  unfolding mc_line_def case_prod_beta
  by (intro P_flow P_soft_check P_wait_for_room P_buffer_line)

lemma P_arc_segments: "P m \<Longrightarrow> pred_option (\<lambda>r. P (snd r)) (arc_segments lm a feed iv n i v m)"
proof (induction n arbitrary: i v m)
  case (Suc n)
  show ?case
    unfolding arc_segments.simps Let_def
    by (intro P_flow P_mc_line P_gc Suc; simp add: Suc)
qed simp

lemma P_mc_arc: "P m \<Longrightarrow> pred_option P (mc_arc lm target offset radius feed iv axes cw m)"
  unfolding mc_arc_def Let_def case_prod_beta
  by (intro P_flow P_arc_segments P_mc_line) simp_all

lemma P_dwell_loop: "P m \<Longrightarrow> pred_option P (dwell_loop n m)"
proof (induction n arbitrary: m)
  case (Suc n)
  show ?case unfolding dwell_loop.simps by (intro P_flow P_realtime Suc P_delay)
qed simp

lemma P_dwell: "P m \<Longrightarrow> pred_option P (mc_dwell seconds m)"
  unfolding mc_dwell_def by (intro P_flow P_synchronize P_dwell_loop P_delay)

lemma P_gc_sync: "P m \<Longrightarrow> P (gc_sync_position m)"
  by (simp add: gc_sync_position_def P_gc)

lemma P_homing_cycle: "P m \<Longrightarrow> pred_option P (mc_homing_cycle m)"
  unfolding mc_homing_cycle_def
  by (intro P_flow P_go_home P_realtime P_env P_gc_sync)

lemma P_probe_outcome: "P m \<Longrightarrow> P (probe_outcome b m)"
  by (simp add: probe_outcome_def P_probed P_probe_ok P_flags)

lemma P_probe_finish: "P m \<Longrightarrow> pred_option (\<lambda>r. P (snd r)) (probe_finish target b m)"
  unfolding probe_finish_def Let_def
  by (intro P_bind P_realtime P_put_probe_state P_probe_outcome pred_if pred_bind [where Q = "\<lambda>_. True"] pred_Some)
    (simp_all add: option.pred_True P_emit P_plan_sync P_plan_reset P_st_reset)

lemma P_probe_cycle: "P m \<Longrightarrow> pred_option (\<lambda>r. P (snd r)) (mc_probe_cycle target feed iv away no_error m)"
  unfolding mc_probe_cycle_def Let_def
  by (intro P_flow P_synchronize P_realtime P_mc_line P_wait_until_idle P_probe_finish P_flags P_put_probe_state P_probe_mask
      P_probe_ok; simp)

end

section \<open>Commands and the main loop\<close>

lemma mem_bytes_length: "length (mem_bytes g a n) = n"
  by (simp add: mem_bytes_def)

lemma length_startup_line: "pred_option (\<lambda>r. length (fst (snd r)) = LINE_BUFFER_SIZE) (settings_read_startup_line n f)"
  unfolding settings_read_startup_line_def memcpy_from_eq Let_def
  by (auto simp: mem_bytes_length split: bool.split intro: pred_bind [where Q = "\<lambda>_. True"] simp: option.pred_True)

lemma length_build_info: "pred_option (\<lambda>r. length (fst (snd r)) = LINE_BUFFER_SIZE) (settings_read_build_info f)"
  unfolding settings_read_build_info_def memcpy_from_eq Let_def
  by (auto simp: mem_bytes_length split: bool.split intro: pred_bind [where Q = "\<lambda>_. True"] simp: option.pred_True)

lemma cstring_length: "length (cstring buf) \<le> length buf"
  by (simp add: cstring_def length_takeWhile_le)

lemma length_shift_line: "0 < i \<Longrightarrow> buf \<noteq> [] \<Longrightarrow> length (shift_line i buf) = length buf"
  using cstring_length [of buf] by (cases buf) (auto simp: shift_line_def Let_def)

locale command_invariant = motion_invariant +
  assumes P_line: "P m \<Longrightarrow> length l = LINE_BUFFER_SIZE \<Longrightarrow> P (put_line l m)"
    and P_line_length: "P m \<Longrightarrow> length (line_buf m) = LINE_BUFFER_SIZE"
    and P_clear_abort: "P m \<Longrightarrow> P (upd_sys (abort_update (\<lambda>_. False)) m)"
begin

lemma P_nvm: "P m \<Longrightarrow> P (put_nvm f m)"
  by (simp add: put_nvm_def P_env)

lemma P_gc_state: "P m \<Longrightarrow> P (m\<lparr>gc_state := x\<rparr>)"
  using P_gc [of m "\<lambda>_. x"] by (simp add: upd_gc_def)

lemma P_gc_init: "P m \<Longrightarrow> pred_option P (gc_init m)"
  unfolding gc_init_def Let_def case_prod_beta
  by (intro pred_bind [where Q = "\<lambda>_. True"] pred_Some P_if P_emit P_gc_state P_nvm) (simp_all add: option.pred_True)

lemma P_spindle_speed: "P m \<Longrightarrow> pred_option P (exec_spindle_speed l m)"
  unfolding exec_spindle_speed_def Let_def by (intro P_flow P_spindle_run P_gc)

lemma P_exec_spindle: "P m \<Longrightarrow> pred_option P (exec_spindle l m)"
  unfolding exec_spindle_def Let_def by (intro P_flow P_spindle_run P_gc)

lemma P_exec_coolant: "P m \<Longrightarrow> pred_option P (exec_coolant l m)"
  unfolding exec_coolant_def Let_def by (intro P_flow P_coolant_run P_gc)

lemma P_exec_modes: "P m \<Longrightarrow> P (exec_modes l m)"
  by (simp add: exec_modes_def exec_tool_length_def exec_coord_select_def Let_def P_gc)

lemma P_exec_settings: "P m \<Longrightarrow> pred_option P (exec_settings l m)"
  unfolding exec_settings_def Let_def
  by (intro P_flow P_spindle_speed P_exec_spindle P_exec_coolant P_dwell P_exec_modes P_gc)

lemma P_exec_non_modal: "P m \<Longrightarrow> pred_option P (exec_non_modal l m)"
  unfolding exec_non_modal_def rapid_to_def Let_def
  by (intro P_if pred_if pred_Some P_bind P_mc_line P_gc P_nvm pred_bind [where Q = "\<lambda>_. True"])
    (simp_all add: option.pred_True)

lemma P_keep: "pred_option P x \<Longrightarrow> pred_option (\<lambda>r. P (snd r)) (map_option (Pair t) x)"
  by (cases x) simp_all

lemma P_run_motion: "P m \<Longrightarrow> pred_option (\<lambda>r. P (snd r)) (run_motion lm l m)"
  unfolding run_motion_def rapid_to_def Let_def
  by (intro pred_if P_keep P_mc_line P_mc_arc P_probe_cycle pred_Some) simp_all

lemma P_exec_motion: "P m \<Longrightarrow> pred_option P (exec_motion lm l m)"
  unfolding exec_motion_def Let_def case_prod_beta
  by (intro P_flow P_run_motion P_gc)

lemma P_program_end: "P m \<Longrightarrow> pred_option (\<lambda>r. P (snd r)) (program_end m)"
  unfolding program_end_def Let_def case_prod_beta
  by (intro P_bind2 pred_if pred_Some pred_bind [where Q = "\<lambda>_. True"])
    (simp_all add: option.pred_True P_gc P_nvm P_emit P_coolant_stop P_spindle_stop)

lemma P_program_flow: "P m \<Longrightarrow> pred_option (\<lambda>r. P (snd r)) (exec_program_flow l m)"
  unfolding exec_program_flow_def Let_def case_prod_beta
  by (intro P_bind P_bind2 pred_if pred_Some P_synchronize P_realtime P_program_end P_flags P_gc)
    (simp_all add: P_gc)

lemma P_execute_block: "P m \<Longrightarrow> pred_option (\<lambda>r. P (snd r)) (gc_execute_block lm l m)"
  unfolding gc_execute_block_def
  by (intro P_bind P_exec_settings P_exec_non_modal P_exec_motion P_program_flow)

lemma P_execute_line: "P m \<Longrightarrow> pred_option (\<lambda>r. P (snd r)) (gc_execute_line lm line m)"
  unfolding gc_execute_line_def Let_def case_prod_beta
  by (intro pred_bind [where Q = "\<lambda>_. True"] pred_if pred_Some P_execute_block P_nvm) (simp_all add: option.pred_True P_nvm)

lemma P_read_startup:
  "P m \<Longrightarrow> (\<And>r. length (fst (snd r)) = LINE_BUFFER_SIZE \<Longrightarrow> pred_option Q (f r)) \<Longrightarrow>
   pred_option Q (settings_read_startup_line n fl \<bind> f)"
  by (rule pred_bind [OF length_startup_line])

lemma P_startup_line: "P m \<Longrightarrow> pred_option P (execute_startup_line lm n m)"
  unfolding execute_startup_line_def Let_def case_prod_beta
  by (rule P_read_startup, assumption)
    (intro pred_if pred_Some P_bind2 P_execute_line P_emit P_line P_nvm; assumption)

lemma P_startup_lines: "P m \<Longrightarrow> pred_option P (execute_startup_lines lm n m)"
  by (induction n arbitrary: m) (auto intro: P_bind P_startup_line)

lemma P_check_mode: "P m \<Longrightarrow> P (snd (check_mode_command m))"
  by (simp add: check_mode_command_def P_emit P_mc_reset P_set_state)

lemma P_unlock: "P m \<Longrightarrow> pred_option P (unlock_command m)"
  by (simp add: unlock_command_def Let_def system_check_safety_door_ajar_def P_emit P_set_state)

lemma P_say: "(\<And>bs. pred_option (\<lambda>r. P (snd r)) (f bs)) \<Longrightarrow> pred_option (\<lambda>r. P (snd r)) (x \<bind> f)"
  by (rule pred_bind [where Q = "\<lambda>_. True"]) (simp_all add: option.pred_True)

lemma P_plain: "P m \<Longrightarrow> pred_option (\<lambda>r. P (snd r)) (plain_command c m)"
  unfolding plain_command_def
  by (intro pred_if pred_Some P_bind P_unlock P_say) (simp_all add: P_emit P_check_mode)

lemma P_homing_command: "P m \<Longrightarrow> pred_option (\<lambda>r. P (snd r)) (homing_command lm m)"
  unfolding homing_command_def Let_def system_check_safety_door_ajar_def system_execute_startup_def
  by (intro pred_if P_bind P_homing_cycle P_startup_lines P_go_idle pred_Some P_set_state) simp_all

lemma P_buf: "P m \<Longrightarrow> line_buf m \<noteq> []"
  using P_line_length [of m] by (auto simp: LINE_BUFFER_SIZE_def)

lemma P_shift: "P m \<Longrightarrow> 0 < i \<Longrightarrow> P (put_line (shift_line i (line_buf m)) m)"
  by (intro P_line) (simp_all add: length_shift_line P_buf P_line_length)

lemma P_build_info: "P m \<Longrightarrow> pred_option (\<lambda>r. P (snd r)) (build_info_command bd m)"
  unfolding build_info_command_def Let_def case_prod_beta
  by (intro pred_if pred_Some P_say pred_bind [OF length_build_info]) (simp_all add: P_emit P_line P_nvm P_shift)

lemma P_restore: "P m \<Longrightarrow> pred_option (\<lambda>r. P (snd r)) (restore_command m)"
  unfolding restore_command_def Let_def
  by (intro pred_if pred_Some P_say) (simp_all add: P_emit P_mc_reset P_env)

lemma P_print_startup: "P m \<Longrightarrow> pred_option P (print_startup_lines n m)"
proof (induction n arbitrary: m)
  case (Suc n)
  show ?case
    unfolding print_startup_lines.simps Let_def case_prod_beta
    by (intro P_bind Suc P_read_startup, assumption) (simp add: P_emit P_line P_nvm)
qed simp

lemma P_store_startup: "P m \<Longrightarrow> cc \<noteq> 0 \<Longrightarrow> pred_option (\<lambda>r. P (snd r)) (store_startup_command lm p cc m)"
  unfolding store_startup_command_def Let_def case_prod_beta
  by (intro P_bind2 P_execute_line P_shift pred_if P_say pred_Some) (simp_all add: P_nvm unat_gt_0)

lemma P_store_setting: "P m \<Longrightarrow> pred_option (\<lambda>r. P (snd r)) (store_setting_command p cc m)"
  unfolding store_setting_command_def Let_def case_prod_beta
  by (cases "read_float (cstring (line_buf m)) cc") (auto intro!: P_say P_env)

lemma P_assign:
  assumes "P m" "startup \<longrightarrow> unat cc \<le> length (cstring (line_buf m))"
  shows "pred_option (\<lambda>r. P (snd r)) (assign_command lm startup cc m)"
proof (cases "read_float (cstring (line_buf m)) cc")
  case None
  then show ?thesis using assms(1) by (simp add: assign_command_def)
next
  case (Some r)
  obtain p c where r: "r = (p, c)" by fastforce
  have len: "length (cstring (line_buf m)) < 255"
    using cstring_length [of "line_buf m"] P_line_length [OF assms(1)] by (simp add: LINE_BUFFER_SIZE_def)
  have "c + 1 \<noteq> 0" if startup
  proof -
    have "unat c \<le> length (cstring (line_buf m))"
      using read_float_counter(2) [OF _ _ Some [unfolded r]] len assms(2) that by simp
    then have "unat (c + 1) = unat c + 1" using len by (simp add: unat_word_ariths)
    then show ?thesis by auto
  qed
  then show ?thesis
    using assms(1) Some r by (auto simp: assign_command_def Let_def P_store_setting P_store_startup)
qed

lemma char_at_length: "char_at s c \<noteq> 0 \<Longrightarrow> unat c < length s"
  by (auto simp: char_at_def split: if_splits)

lemma P_startup_command: "P m \<Longrightarrow> pred_option (\<lambda>r. P (snd r)) (startup_command lm m)"
  unfolding startup_command_def
  by (intro pred_if P_bind P_print_startup pred_Some P_assign) (use char_at_length in \<open>fastforce+\<close>)

lemma P_ngc_systems: "P m \<Longrightarrow> pred_option (\<lambda>r. P (snd r)) (report_coord_systems n sel m)"
proof (induction n arbitrary: sel m)
  case (Suc n)
  have "P (m\<lparr>env := (env m)\<lparr>nvm := f\<rparr>\<rparr>)" for f
    using P_env [OF Suc.prems, of "nvm_update (\<lambda>_. f)"] by (simp add: upd_env_def)
  then show ?case
    unfolding report_coord_systems.simps Let_def case_prod_beta
    by (intro P_say pred_if pred_Some Suc.IH) (simp_all add: P_emit)
qed simp

lemma P_ngc: "P m \<Longrightarrow> pred_option P (report_ngc_parameters m)"
  unfolding report_ngc_parameters_def case_prod_beta
  by (intro P_bind2 P_ngc_systems pred_if pred_Some pred_bind [where Q = "\<lambda>_. True"]) (simp_all add: option.pred_True P_emit)

lemma P_idle_command: "P m \<Longrightarrow> pred_option (\<lambda>r. P (snd r)) (idle_command lm bd c m)"
  unfolding idle_command_def
  by (intro pred_if P_bind P_ngc pred_Some P_homing_command P_build_info P_restore P_startup_command P_assign) simp_all

lemma P_system_line: "P m \<Longrightarrow> pred_option (\<lambda>r. P (snd r)) (system_execute_line lm bd m)"
  unfolding system_execute_line_def Let_def
  by (intro pred_if pred_Some P_plain P_idle_command) (simp_all add: P_emit)

lemma P_protocol_line: "P m \<Longrightarrow> pred_option P (protocol_execute_line lm bd m)"
  unfolding protocol_execute_line_def Let_def case_prod_beta
  by (intro P_bind P_bind2 P_realtime pred_if pred_Some P_system_line P_execute_line P_emit) simp_all

lemma P_filter_char: "P m \<Longrightarrow> P (snd (filter_char c ls m))"
  by (simp add: filter_char_def Let_def P_emit P_line P_line_length)

lemma P_process_char: "P m \<Longrightarrow> pred_option (\<lambda>r. P (snd r)) (process_char lm bd c ls m)"
  unfolding process_char_def
  by (intro pred_if P_bind P_protocol_line) (simp_all add: P_line P_line_length P_filter_char)

lemma P_process_serial: "P m \<Longrightarrow> pred_option (\<lambda>r. P (snd r)) (process_serial lm bd ls m)"
proof (rule pred_optionI)
  fix r assume "process_serial lm bd ls m = Some r" "P m"
  then show "P (snd r)"
  proof (induction rule: process_serial.raw_induct [rotated, consumes 1, case_names step])
    case (step f lm bd ls m r)
    have f: "pred_option (\<lambda>r. P (snd r)) (f a b c x)" if "P x" for a b c x
      by (rule pred_optionI) (use step.IH that in blast)
    show "P (snd r)"
      by (rule pred_optionD [OF _ step.hyps], unfold Let_def case_prod_beta)
        (intro pred_if P_bind2 P_process_char f pred_Some P_read step.prems)
  qed
qed

lemma P_primary_loop: "P m \<Longrightarrow> pred_option P (primary_loop lm bd ls m)"
proof (rule pred_optionI)
  fix r assume "primary_loop lm bd ls m = Some r" "P m"
  then show "P r"
  proof (induction rule: primary_loop.raw_induct [rotated, consumes 1, case_names step])
    case (step f lm bd ls m r)
    have f: "pred_option P (f a b c x)" if "P x" for a b c x
      by (rule pred_optionI) (use step.IH that in blast)
    have w: "pred_option P (case await m of None \<Rightarrow> Some m | Some m \<Rightarrow> f lm bd l m)" if "P m" for l m
      using P_await [OF that] f that by (cases "await m") simp_all
    show "P r"
      by (rule pred_optionD [OF _ step.hyps], unfold Let_def case_prod_beta protocol_auto_cycle_start_def)
        (intro P_bind2 P_process_serial P_bind P_realtime P_flags pred_if pred_Some w step.prems)
  qed
qed

lemma P_main_loop: "P m \<Longrightarrow> pred_option P (protocol_main_loop lm bd m)"
  unfolding protocol_main_loop_def Let_def system_check_safety_door_ajar_def system_execute_startup_def
  by (intro P_bind pred_if pred_Some P_primary_loop P_startup_lines) (simp_all add: P_emit P_set_state)

lemma P_reset_systems: "P m \<Longrightarrow> pred_option P (reset_systems m)"
proof -
  assume P: "P m"
  have e: "(upd_sys (\<lambda>y. y\<lparr>abort := False, suspend := 0, soft_limit := False\<rparr>) m)\<lparr>sys_rt_exec_state := 0, sys_rt_exec_alarm := 0\<rparr>
      = (upd_sys (soft_limit_update (\<lambda>_. False)) (set_suspend 0 (upd_sys (abort_update (\<lambda>_. False)) m)))
        \<lparr>sys_rt_exec_state := 0\<rparr>\<lparr>sys_rt_exec_alarm := 0\<rparr>" for m :: machine
    by (simp add: upd_sys_def)
  show ?thesis
    unfolding reset_systems_def Let_def e
    by (intro P_bind P_gc_init P_read_reset P pred_Some P_put_alarm P_put_exec P_soft_limit P_set_suspend P_clear_abort P_gc_sync
        P_plan_sync P_if P_spindle P_gc P_st_reset P_plan_reset P_env P_coolant_stop P_spindle_stop) simp_all
qed

lemma P_reset_cycle: "P m \<Longrightarrow> pred_option P (reset_cycle lm bd m)"
  unfolding reset_cycle_def by (intro P_bind P_reset_systems P_main_loop)

end

end
