(* ===== verification/WellFormed.thy ===== *)
theory WellFormed
  imports Invariant
begin

text \<open>
  The type invariant of the whole machine: every index is inside its array, every vector has one
  component per axis, the state is one of the eight states, the receive buffer is a ring and the
  line buffer keeps its size.  Every operation of the firmware preserves it.
\<close>

section \<open>The invariant\<close>

definition sys_ok :: "system_t \<Rightarrow> bool" where
  "sys_ok y = (length (position y) = N_AXIS \<and> length (probe_position y) = N_AXIS \<and>
     state y \<in> legal_states \<and> legal_suspend (suspend y))"

definition plan_ok :: "'a plan_state_scheme \<Rightarrow> bool" where
  "plan_ok s = (blocks_ok (block_buffer s) \<and> block_buffer_tail s < BLOCK_BUFFER_SIZE \<and>
     block_buffer_head s < BLOCK_BUFFER_SIZE \<and> next_buffer_head s < BLOCK_BUFFER_SIZE \<and>
     block_buffer_planned s < BLOCK_BUFFER_SIZE \<and> (\<forall>i. pl_block s = Some i \<longrightarrow> i < BLOCK_BUFFER_SIZE) \<and>
     length (pl_position s) = N_AXIS \<and> length (previous_unit_vec s) = N_AXIS)"

definition step_ok :: "'a step_state_scheme \<Rightarrow> bool" where
  "step_ok s = (stepper_ok (st s) \<and> st_blocks_ok (st_block_buffer s) \<and> segments_ok (segment_buffer s) \<and>
     segment_buffer_tail s < SEGMENT_BUFFER_SIZE \<and> segment_buffer_head s < SEGMENT_BUFFER_SIZE \<and>
     segment_next_head s < SEGMENT_BUFFER_SIZE \<and> prep_block_index (prep s) < SEGMENT_BUFFER_SIZE - 1)"

definition machine_ok :: "machine \<Rightarrow> bool" where
  "machine_ok m = (sys_ok (sys m) \<and> plan_ok m \<and> step_ok m \<and> rx_inv (ser m) \<and> length (line_buf m) = LINE_BUFFER_SIZE)"

lemmas ok_defs = machine_ok_def sys_ok_def plan_ok_def step_ok_def

lemma blocks_ok_put:
  assumes "blocks_ok bs" "\<And>b. length (steps b) = N_AXIS \<Longrightarrow> length (steps (f b)) = N_AXIS"
  shows "blocks_ok (bs[i := f (bs ! i)])"
proof (cases "i < length bs")
  case True
  then have "length (steps (f (bs ! i))) = N_AXIS" using assms by (simp add: blocks_ok_def)
  then show ?thesis
    using assms(1) all_set_update [of bs "\<lambda>b. length (steps b) = N_AXIS" "f (bs ! i)" i] by (simp add: blocks_ok_def)
next
  case False
  then show ?thesis using assms(1) by (simp add: list_update_beyond)
qed

lemma machine_ok_upd_block:
  assumes "machine_ok m" "\<And>b. length (steps b) = N_AXIS \<Longrightarrow> length (steps (f b)) = N_AXIS"
  shows "machine_ok (upd_block i f m)"
  using blocks_ok_put [of "block_buffer m" f "unat i"] assms by (simp add: ok_defs upd_block_def block_at_def)

lemma machine_ok_same_path: "machine_ok m \<Longrightarrow> (\<And>b. block_path (f b) = block_path b) \<Longrightarrow> machine_ok (upd_block i f m)"
  by (rule machine_ok_upd_block) (simp_all add: block_path_def)

interpretation mach_step: machine_invariant machine_ok
  by unfold_locales (fact machine_ok_same_path | simp add: ok_defs upd_st_def upd_sys_def)+

lemma limit_axes_length: "length (ll_unit_vec (fold (limit_axis c u i) xs l)) = length (ll_unit_vec l)"
  by (induction xs arbitrary: l) (simp_all add: limit_axis_def Let_def)

lemma machine_ok_new_block:
  "machine_ok m \<Longrightarrow> length u = N_AXIS \<Longrightarrow> length p = N_AXIS \<Longrightarrow>
   machine_ok (m\<lparr>previous_unit_vec := u, previous_nominal_speed_sqr := n, pl_position := p,
     block_buffer_head := next_buffer_head m, next_buffer_head := plan_next_block_index (next_buffer_head m)\<rparr>)"
  by (simp add: ok_defs plan_next_less)

lemma block_steps_length: "length (block_steps c d) = N_AXIS"
  by (simp add: block_steps_def Let_def N_AXIS_def)

text \<open>The homing cycle and the planner also leave the settings alone.\<close>

definition ok_with :: "settings_t \<Rightarrow> machine \<Rightarrow> bool" where
  "ok_with c m = (machine_ok m \<and> cfg m = c)"

lemma ok_with_upd_block:
  assumes "ok_with c m" "\<And>b. length (steps b) = N_AXIS \<Longrightarrow> length (steps (f b)) = N_AXIS"
  shows "ok_with c (upd_block i f m)"
  using machine_ok_upd_block [of m f i] assms by (simp add: ok_with_def) (simp add: upd_block_def)

lemma ok_with_same_path: "ok_with c m \<Longrightarrow> (\<And>b. block_path (f b) = block_path b) \<Longrightarrow> ok_with c (upd_block i f m)"
  by (rule ok_with_upd_block) (simp_all add: block_path_def)

interpretation set_step: machine_invariant "ok_with c" for c
  by unfold_locales (fact ok_with_same_path | simp add: ok_with_def ok_defs upd_st_def upd_sys_def regenerate_masks_def case_prod_beta)+

lemma ok_with_buffer_line: "ok_with c m \<Longrightarrow> pred_option (ok_with c) (plan_buffer_line target feed iv m)"
proof -
  assume m: "ok_with c m"
  have new: "ok_with c ((s\<lparr>previous_unit_vec := u, previous_nominal_speed_sqr := n, pl_position := p,
      block_buffer_head := next_buffer_head s\<rparr>)\<lparr>next_buffer_head := plan_next_block_index (block_buffer_head
        (s\<lparr>previous_unit_vec := u, previous_nominal_speed_sqr := n, pl_position := p, block_buffer_head := next_buffer_head s\<rparr>))\<rparr>)"
    if "ok_with c s" "length u = N_AXIS" "length p = N_AXIS" for s u p n
    using machine_ok_new_block [OF _ that(2,3)] that(1) by (simp add: ok_with_def)
  show ?thesis
    unfolding plan_buffer_line_def Let_def
    by (intro pred_if pred_Some set_step.P_recalculate new set_step.P_if ok_with_upd_block m)
      (simp_all add: block_steps_length limit_axes_length line_steps_def)
qed

interpretation homing: homing_invariant "ok_with c" for c
  by unfold_locales
    (fact ok_with_buffer_line
     | simp add: ok_with_def ok_defs upd_sys_def emit_def plan_reset_def plan_sync_position_def N_AXIS_def zero_vec_def Let_def)+

lemma machine_ok_buffer_line: "machine_ok m \<Longrightarrow> pred_option machine_ok (plan_buffer_line target feed iv m)"
  by (rule option.pred_mono_strong [OF ok_with_buffer_line [of "cfg m"]]) (simp_all add: ok_with_def)

interpretation mach: command_invariant machine_ok
  by unfold_locales
    (fact machine_ok_buffer_line
     | simp add: ok_defs upd_sys_def emit_def plan_reset_def plan_sync_position_def probe_configure_invert_mask_def
         upd_gc_def upd_env_def put_line_def N_AXIS_def zero_vec_def Let_def)+

section \<open>The whole firmware\<close>

lemma machine_ok_fresh_system: "machine_ok m \<Longrightarrow> machine_ok (m\<lparr>sys := zero_system\<lparr>abort := True\<rparr>\<rparr>)"
  by (simp add: ok_defs zero_system_def N_AXIS_def)

lemma machine_ok_power_up: "machine_ok m \<Longrightarrow> pred_option machine_ok (power_up m)"
  unfolding power_up_def Let_def case_prod_beta
  by (intro pred_bind [where Q = "\<lambda>_. True"] mach.P_bind pred_if pred_Some mach_step.P_if mach.P_set_state machine_ok_fresh_system
      mach.P_env mach.P_emit; simp add: option.pred_True mach.P_env mach.P_emit)

lemma machine_ok_resets: "machine_ok m \<Longrightarrow> pred_option machine_ok (resets lm bd n m)"
proof (induction n arbitrary: m)
  case (Suc n)
  show ?case unfolding resets.simps by (intro mach.P_flow mach.P_reset_cycle Suc)
qed simp

lemma machine_ok_zero: "machine_ok ((zero_machine f)\<lparr>future := evs\<rparr>)"
  by (simp add: ok_defs zero_machine_def zero_system_def zero_stepper_def zero_prep_def zero_vec_def N_AXIS_def
      blocks_ok_def zero_block_def st_blocks_ok_def zero_st_block_def segments_ok_def stepper_ok_def rx_inv_def
      serial_zero_def RX_BUFFER_SIZE_def)

text \<open>C7: From power-up with any flash contents, any received bytes and any interrupts, every state in
  which the firmware is left between two resets, or when nothing more happens, is well-formed: each ring
  index is inside its array, each vector has one component per axis, the state is one of the eight
  states, the receive buffer is a ring and the line buffer keeps its 80 bytes.\<close>

theorem firmware_well_formed:
  "pred_option machine_ok (firmware lm build_date n ((zero_machine f)\<lparr>future := evs\<rparr>))"
  unfolding firmware_def
  by (intro mach.P_bind machine_ok_power_up machine_ok_resets machine_ok_zero)

end
