(* ===== verification/Safety.thy ===== *)
theory Safety
  imports WellFormed
begin

text \<open>
  What keeps the machine safe: what interrupts can and cannot change, hard and soft limits, the wait
  for a reset after a critical event, and the lock of the planner once a line has been refused.
\<close>

section \<open>Relations every step interrupt keeps\<close>

text \<open>A relation that survives the single changes the step interrupt makes holds between the state
  before and after the whole interrupt.\<close>

locale isr_relation =
  fixes R :: "'a step_state_scheme \<Rightarrow> 'a step_state_scheme \<Rightarrow> bool"
  assumes R_refl: "R s s"
    and R_st: "R s t \<Longrightarrow> R s (upd_st f t)"
    and R_ring: "R s t \<Longrightarrow> R s (t\<lparr>segment_buffer_tail := x\<rparr>)"
    and R_busy: "R s t \<Longrightarrow> R s (t\<lparr>busy := b\<rparr>)"
    and R_ports: "R s t \<Longrightarrow> R s (t\<lparr>gpioa_odr := u, gpiob_odr := v\<rparr>)"
    and R_pulse: "R s t \<Longrightarrow> R s (t\<lparr>pulse_timer_period := q, pulse_timer_on := b\<rparr>)"
    and R_timer: "R s t \<Longrightarrow> R s (t\<lparr>main_timer_period := w\<rparr>)" "R s t \<Longrightarrow> R s (t\<lparr>main_timer_irq := b\<rparr>)"
    and R_moved: "R s t \<Longrightarrow> R s (upd_sys (\<lambda>y. y\<lparr>position := g (position y)\<rparr>) t)"
    and R_probed: "R s t \<Longrightarrow> R s (upd_sys (\<lambda>y. y\<lparr>probe_position := position y\<rparr>) (t\<lparr>sys_probe_state := z\<rparr>))"
    and R_raised: "R s t \<Longrightarrow> R s (raise_exec EXEC_MOTION_CANCEL t)" "R s t \<Longrightarrow> R s (raise_exec EXEC_CYCLE_STOP t)"
begin

lemma R_if: "R s t \<Longrightarrow> R s u \<Longrightarrow> R s (if c then t else u)"
  by simp

lemma R_port: "R s t \<Longrightarrow> R s (t\<lparr>gpioa_odr := u\<rparr>)"
  using R_ports [of s t "gpiob_odr t" u] by simp

lemma R_pins: "R s t \<Longrightarrow> R s (SET_STEP_BITS b t)" "R s t \<Longrightarrow> R s (SET_DIRECTION_BITS b t)"
  by (simp_all add: SET_STEP_BITS_def SET_DIRECTION_BITS_def R_ports)

lemma R_axis_tick: "R s t \<Longrightarrow> R s (axis_tick i t)"
  unfolding axis_tick_def Let_def
  using R_moved [of s "upd_st f t" "\<lambda>p. p[i := h p]" for f h] by (intro R_if R_st) (simp add: R_st)

lemma R_probe_monitor: "R s t \<Longrightarrow> R s (probe_state_monitor t)"
  unfolding probe_state_monitor_def by (intro R_if R_raised R_probed)

lemma R_segment_tick: "R s t \<Longrightarrow> R s (segment_tick t)"
  unfolding segment_tick_def Let_def by (intro R_if R_st R_busy R_ring R_axis_tick R_probe_monitor)

lemma R_load_segment: "R s t \<Longrightarrow> load_segment t = Some u \<Longrightarrow> R s u"
  unfolding load_segment_def Let_def by (auto split: if_splits intro!: R_st R_timer)

lemma R_go_idle: "R s t \<Longrightarrow> R s (st_go_idle t)"
proof -
  assume "R s t"
  from R_busy [OF R_timer(2) [OF this]] show ?thesis
    unfolding st_go_idle_def put_steppers_disable_def Let_def by (simp add: R_port)
qed

lemma R_main_isr: "R s (MAIN_TIMER_ISR s)"
proof (cases "busy s")
  case False
  define t where "t = (SET_STEP_BITS (step_outbits (st s)) (SET_DIRECTION_BITS (dir_outbits (st s)) s))
      \<lparr>pulse_timer_period := step_pulse_time (st s), pulse_timer_on := True, busy := True\<rparr>"
  have t: "R s t" unfolding t_def by (intro R_busy R_pulse R_pins R_refl)
  have m: "MAIN_TIMER_ISR s = (case (if exec_segment (st t) = None then load_segment t else Some t) of
      None \<Rightarrow> raise_exec EXEC_CYCLE_STOP (st_go_idle t) | Some u \<Rightarrow> segment_tick u)"
    by (simp only: MAIN_TIMER_ISR_def Let_def t_def False if_False put_bits_fields)
  show ?thesis
  proof (cases "if exec_segment (st t) = None then load_segment t else Some t")
    case None
    then show ?thesis by (simp only: m option.case) (intro R_raised R_go_idle t)
  next
    case (Some u)
    then have "R s u" using t by (auto split: if_splits intro: R_load_segment)
    then show ?thesis by (simp only: m Some option.case) (rule R_segment_tick)
  qed
qed (simp add: MAIN_TIMER_ISR_def R_refl)

lemma R_pulse_isr: "R s (PULSE_TIMER_ISR s)"
  unfolding PULSE_TIMER_ISR_def using R_pulse [OF R_pins(1) [OF R_refl], of s b "pulse_timer_period s" for b]
  by (simp add: SET_STEP_BITS_def)

end

section \<open>What interrupts leave alone\<close>

text \<open>An interrupt moves the motors and raises flags.  It clears no flag, changes no state of the main
  program and does not touch the planner.\<close>

definition flags_grow :: "u8 \<Rightarrow> u8 \<Rightarrow> bool" where
  "flags_grow a b = (b AND a = a)"

definition isr_frame :: "'a step_state_scheme \<Rightarrow> 'a step_state_scheme \<Rightarrow> bool" where
  "isr_frame s t = (state (sys t) = state (sys s) \<and> suspend (sys t) = suspend (sys s) \<and> abort (sys t) = abort (sys s) \<and>
     soft_limit (sys t) = soft_limit (sys s) \<and> flags_grow (sys_rt_exec_state s) (sys_rt_exec_state t) \<and>
     flags_grow (sys_rt_exec_alarm s) (sys_rt_exec_alarm t) \<and> env t = env s \<and> block_buffer t = block_buffer s \<and>
     block_buffer_head t = block_buffer_head s \<and> block_buffer_tail t = block_buffer_tail s)"

lemma flags_grow_refl [simp]: "flags_grow a a"
  by (simp add: flags_grow_def)

lemma flags_grow_raise [simp]: "flags_grow a (bit_true a b)"
  by (simp add: flags_grow_def bit_true_def word_ao_absorbs)

lemma flags_grow_trans: "flags_grow a b \<Longrightarrow> flags_grow b c \<Longrightarrow> flags_grow a c"
  unfolding flags_grow_def by (metis word_bw_assocs(1))

lemma flags_grow_istrue: "flags_grow a b \<Longrightarrow> bit_istrue a x \<Longrightarrow> bit_istrue b x"
  unfolding flags_grow_def bit_istrue_def by (metis and_zero_eq word_bw_assocs(1) word_bw_comms(1))

lemma isr_frame_refl [simp]: "isr_frame s s"
  by (simp add: isr_frame_def)

lemma isr_frame_trans: "isr_frame s t \<Longrightarrow> isr_frame t u \<Longrightarrow> isr_frame s u"
  unfolding isr_frame_def by (auto intro: flags_grow_trans)

lemmas frame_defs = isr_frame_def upd_sys_def upd_st_def raise_exec_def raise_alarm_def

interpretation frame: isr_relation "isr_frame :: 'a step_state_scheme \<Rightarrow> 'a step_state_scheme \<Rightarrow> bool"
  by unfold_locales (auto simp: frame_defs intro: flags_grow_trans)

lemma frame_flags: "isr_frame s t \<Longrightarrow> isr_frame s (raise_exec b t)" "isr_frame s t \<Longrightarrow> isr_frame s (raise_alarm b t)"
  by (auto simp: frame_defs intro: flags_grow_trans)

lemma frame_mc_reset: "isr_frame s t \<Longrightarrow> isr_frame s (mc_reset t)"
proof -
  assume t: "isr_frame s t"
  have "isr_frame s (coolant_stop (spindle_stop (raise_exec b t)))" for b
    using frame_flags(1) [OF t, of b] by (simp add: coolant_stop_def spindle_stop_def isr_frame_def)
  then show ?thesis
    unfolding mc_reset_def Let_def by (intro frame.R_if frame.R_go_idle frame_flags t)
qed

lemma frame_put: "isr_frame s t \<Longrightarrow> isr_frame s (t\<lparr>debounce_timer_on := b\<rparr>)" "isr_frame s t \<Longrightarrow> isr_frame s (t\<lparr>probe_pin := b\<rparr>)"
  "isr_frame s t \<Longrightarrow> isr_frame s (t\<lparr>limit_pins := l\<rparr>)" "isr_frame s t \<Longrightarrow> isr_frame s (t\<lparr>ser := r\<rparr>)"
  by (simp_all add: isr_frame_def)

lemma frame_receive: "isr_frame m (receive_byte c m)"
proof (cases "realtime_command c = Some CMD_RESET")
  case False
  then show ?thesis
    by (auto simp: receive_byte_def SERIAL_DMA_ISR_def isr_frame_def split: option.split rt_command.split)
qed (simp add: receive_byte_def frame_mc_reset)

lemma frame_interrupt: "isr_frame m (interrupt_step i m)"
  by (cases i)
    (simp_all add: frame.R_main_isr frame.R_pulse_isr frame_mc_reset limit_pin_isr_def enable_debounce_timer_def frame_receive
      RESET_CONTROL_ISR_def FEED_HOLD_CONTROL_ISR_def SAFETY_DOOR_CONTROL_ISR_def CYCLE_START_CONTROL_ISR_def
      SW_DEBOUNCE_TIMER_ISR_def Let_def frame_flags frame_put)

lemma frame_interrupts: "isr_frame m (fold interrupt_step evs m)"
  by (induction evs arbitrary: m) (auto intro: isr_frame_trans frame_interrupt)

lemma frame_await: "await m = Some m' \<Longrightarrow> isr_frame m m'"
  using frame_interrupts [of "m\<lparr>future := tl (future m)\<rparr>" "hd (future m)"]
  by (cases "future m") (auto simp: await_def isr_frame_def)

lemma frame_poll: "isr_frame m (poll m)"
  using frame_await [of m] by (cases "await m") (simp_all add: poll_def)

section \<open>Resets\<close>

definition is_reset :: "interrupt \<Rightarrow> bool" where
  "is_reset e = (e = ResetPin \<or> e = RxByte 0x18)"

lemma mc_reset_raises: "bit_istrue (sys_rt_exec_state (mc_reset m)) EXEC_RESET"
proof -
  have "bit_istrue (sys_rt_exec_state (coolant_stop (spindle_stop (raise_exec EXEC_RESET m)))) EXEC_RESET"
    by (simp add: coolant_stop_def spindle_stop_def raise_exec_def bit_istrue_def bit_true_def word_ao_dist EXEC_RESET_def bit_of_def)
  then show ?thesis
    by (auto simp: mc_reset_def Let_def st_go_idle_def put_steppers_disable_def raise_alarm_def bit_isfalse_def bit_istrue_def)
qed

lemma reset_raises: "is_reset e \<Longrightarrow> bit_istrue (sys_rt_exec_state (interrupt_step e m)) EXEC_RESET"
  by (auto simp: is_reset_def RESET_CONTROL_ISR_def receive_byte_def realtime_command_def mc_reset_raises)

lemma resets_raise:
  "e \<in> set evs \<Longrightarrow> is_reset e \<Longrightarrow> bit_istrue (sys_rt_exec_state (fold interrupt_step evs m)) EXEC_RESET"
proof (induction evs arbitrary: m)
  case (Cons d evs)
  have "flags_grow (sys_rt_exec_state (interrupt_step d m)) (sys_rt_exec_state (fold interrupt_step evs (interrupt_step d m)))"
    using frame_interrupts [of "interrupt_step d m" evs] by (simp add: isr_frame_def)
  then show ?case using Cons flags_grow_istrue reset_raises [of d m] by auto
qed simp

lemma wait_for_reset_frame: "wait_for_reset m = Some r \<Longrightarrow> isr_frame m r \<and> bit_istrue (sys_rt_exec_state r) EXEC_RESET"
proof (induction rule: wait_for_reset.raw_induct [rotated, consumes 1, case_names step])
  case (step f m r)
  then obtain n where n: "await m = Some n"
    and r: "(if bit_isfalse (sys_rt_exec_state n) EXEC_RESET then f n else Some n) = Some r"
    by (auto simp: bind_eq_Some_conv)
  show ?case
    using r step.IH [of n r] frame_await [OF n] isr_frame_trans
    by (auto simp: bit_isfalse_def bit_istrue_def split: if_splits)
qed

section \<open>Critical events\<close>

abbreviation critical :: "machine \<Rightarrow> bool" where
  "critical m \<equiv> bit_istrue (sys_rt_exec_alarm m) EXEC_CRITICAL_EVENT"

text \<open>The machine after a critical event: locked, with the planner as it was.\<close>

definition locked_from :: "machine \<Rightarrow> machine \<Rightarrow> bool" where
  "locked_from m r = (abort (sys r) \<and> state (sys r) = STATE_ALARM \<and> bit_istrue (sys_rt_exec_state r) EXEC_RESET \<and>
     block_buffer r = block_buffer m \<and> block_buffer_head r = block_buffer_head m \<and> block_buffer_tail r = block_buffer_tail m)"

text \<open>The machine on its way into the wait loop.\<close>

definition before_reset :: "machine \<Rightarrow> machine" where
  "before_reset m =
     (let rt_exec = sys_rt_exec_alarm m; m = set_state STATE_ALARM m;
          m = (if alarm_code rt_exec \<noteq> 0 then report_alarm_message (alarm_code rt_exec) m else m)
      in clear_exec EXEC_RESET (emit (report_feedback_message MESSAGE_CRITICAL_EVENT) m))"

lemma execute_alarm_critical:
  "critical m \<Longrightarrow> execute_alarm m = map_option (clear_alarm 0xFF) (wait_for_reset (before_reset m))"
  by (cases "wait_for_reset (before_reset m)") (auto simp: execute_alarm_def before_reset_def Let_def bit_istrue_def)

lemma before_reset_keeps:
  "state (sys (before_reset m)) = STATE_ALARM \<and> block_buffer (before_reset m) = block_buffer m \<and>
   block_buffer_head (before_reset m) = block_buffer_head m \<and> block_buffer_tail (before_reset m) = block_buffer_tail m"
  using frame_poll [of "emit b (set_state STATE_ALARM m)" for b]
  by (simp add: before_reset_def report_alarm_message_def delay_ms_def Let_def clear_exec_def emit_def isr_frame_def upd_sys_def)

lemma critical_pass: "critical m \<Longrightarrow> pred_option (\<lambda>p. fst p \<and> locked_from m (snd p)) (realtime_pass m)"
proof -
  assume c: "critical m"
  show ?thesis
  proof (cases "wait_for_reset (before_reset m)")
    case None
    then show ?thesis by (simp add: realtime_pass_def execute_alarm_critical [OF c])
  next
    case (Some r)
    from wait_for_reset_frame [OF Some] before_reset_keeps [of m] show ?thesis
      by (simp add: realtime_pass_def execute_alarm_critical [OF c] Some clear_alarm_def locked_from_def isr_frame_def Let_def upd_sys_def)
  qed
qed

lemma critical_loop: "critical m \<Longrightarrow> pred_option (locked_from m) (suspend_loop m)"
  using critical_pass [of m] by (subst suspend_loop.simps) (cases "realtime_pass m", auto)

lemma critical_poll: "critical m \<Longrightarrow> critical (poll m)"
  using frame_poll [of m] flags_grow_istrue by (auto simp: isr_frame_def)

lemma locked_from_trans: "isr_frame m n \<Longrightarrow> locked_from n r \<Longrightarrow> locked_from m r"
  by (simp add: locked_from_def isr_frame_def)

lemma critical_realtime: "critical m \<Longrightarrow> pred_option (locked_from m) (protocol_execute_realtime m)"
proof -
  assume "critical m"
  then have "pred_option (locked_from (poll m)) (protocol_execute_realtime m)"
    by (simp add: protocol_execute_realtime_def critical_loop critical_poll)
  then show ?thesis
    by (rule option.pred_mono_strong) (rule locked_from_trans [OF frame_poll])
qed

text \<open>A pending reset makes the executor come back with the abort flag set.\<close>

lemma poll_istrue: "bit_istrue (sys_rt_exec_state m) b \<Longrightarrow> bit_istrue (sys_rt_exec_state (poll m)) b"
  using frame_poll [of m] flags_grow_istrue by (auto simp: isr_frame_def)

lemma reset_pass:
  assumes "bit_istrue (sys_rt_exec_state m) EXEC_RESET"
  shows "pred_option (\<lambda>p. fst p \<and> abort (sys (snd p))) (realtime_pass m)"
proof (cases "critical m")
  case True
  from critical_pass [OF this] show ?thesis
    by (rule option.pred_mono_strong) (simp add: locked_from_def)
next
  case False
  have "pred_option (\<lambda>n. bit_istrue (sys_rt_exec_state n) EXEC_RESET) (execute_alarm m)"
    using False assms
    by (simp add: execute_alarm_def report_alarm_message_def delay_ms_def clear_alarm_def emit_def upd_sys_def poll_istrue Let_def)
  then show ?thesis
    by (cases "execute_alarm m") (simp_all add: realtime_pass_def Let_def upd_sys_def)
qed

lemma reset_realtime:
  assumes "bit_istrue (sys_rt_exec_state m) EXEC_RESET"
  shows "pred_option (\<lambda>r. abort (sys r)) (protocol_execute_realtime m)"
  using reset_pass [OF poll_istrue [OF assms]]
  by (cases "realtime_pass (poll m)") (auto simp: protocol_execute_realtime_def suspend_loop.simps)

text \<open>C8: Once an interrupt or the soft limit check has raised a critical event, the real-time executor
  returns only after a reset has been raised: with the abort flag set, the machine in the alarm state
  and the planner's blocks exactly as they were, whatever else happens meanwhile.\<close>

theorem critical_event_locks:
  assumes "bit_istrue (sys_rt_exec_alarm m) EXEC_CRITICAL_EVENT"
  shows "pred_option (locked_from m) (protocol_execute_realtime m)"
  by (rule critical_realtime [OF assms])

section \<open>The environment goes on\<close>

definition with_future :: "interrupt list list \<Rightarrow> machine \<Rightarrow> bool" where
  "with_future evs m = (machine_ok m \<and> future m = evs)"

interpretation future_step: machine_invariant "with_future evs" for evs
proof
  fix s :: machine and f :: "plan_block_t \<Rightarrow> plan_block_t" and i
  assume "with_future evs s" "\<And>b. block_path (f b) = block_path b"
  then show "with_future evs (upd_block i f s)"
    using mach_step.P_upd_block [of s f i] by (simp add: with_future_def) (simp add: upd_block_def)
qed (clarsimp simp: with_future_def ok_defs upd_st_def upd_sys_def)+

lemma future_interrupts: "with_future evs m \<Longrightarrow> with_future evs (fold interrupt_step es m)"
  by (induction es arbitrary: m) (simp_all add: future_step.P_interrupt)

lemma await_Cons:
  assumes "with_future (es # evs) m"
  shows "\<exists>n. await m = Some n \<and> with_future evs n \<and> n = fold interrupt_step es (m\<lparr>future := evs\<rparr>)"
  using assms future_interrupts [of evs "m\<lparr>future := evs\<rparr>" es]
  by (simp add: await_def with_future_def mach.P_future)

lemma poll_future: "with_future evs m \<Longrightarrow> with_future (tl evs) (poll m)"
  using await_Cons [of "hd evs" "tl evs" m] by (cases evs) (auto simp: poll_def await_def with_future_def)

lemma wait_for_reset_returns:
  "with_future evs m \<Longrightarrow> (\<exists>es\<in>set evs. \<exists>e\<in>set es. is_reset e) \<Longrightarrow> wait_for_reset m \<noteq> None"
proof (induction evs arbitrary: m)
  case (Cons es evs)
  obtain n where n: "await m = Some n" "with_future evs n" "n = fold interrupt_step es (m\<lparr>future := evs\<rparr>)"
    using await_Cons [OF Cons.prems(1)] by blast
  show ?case
  proof (cases "\<exists>e\<in>set es. is_reset e")
    case True
    then have "bit_istrue (sys_rt_exec_state n) EXEC_RESET" using n(3) resets_raise by blast
    then show ?thesis by (subst wait_for_reset.simps) (simp add: n(1) bit_isfalse_iff)
  next
    case False
    then have "wait_for_reset n \<noteq> None" using Cons.IH [OF n(2)] Cons.prems(2) by auto
    then show ?thesis by (subst wait_for_reset.simps) (simp add: n(1))
  qed
qed simp

lemma before_reset_future:
  assumes "with_future evs m"
  shows "with_future evs (before_reset m) \<or> with_future (tl evs) (before_reset m)"
proof -
  have e: "with_future evs (emit bs m)" "with_future evs (clear_exec b m)" "with_future evs (set_state STATE_ALARM m)"
    if "with_future evs m" for m evs bs b
    using that mach.P_emit [of m bs] mach_step.P_flags(2) [of m b] mach.P_set_state [of m STATE_ALARM]
    by (simp_all add: with_future_def emit_def clear_exec_def upd_sys_def)
  show ?thesis
    by (simp add: before_reset_def Let_def report_alarm_message_def delay_ms_def e assms poll_future)
qed

lemma alarms_cleared: "sys_rt_exec_alarm (clear_alarm 0xFF m) = 0"
proof -
  have "NOT 0xFF = (0 :: u8)" by code_simp
  then show ?thesis by (simp only: clear_alarm_def bit_false_def) simp
qed

lemma critical_returns:
  assumes "machine_ok m" and "critical m" and "\<exists>es\<in>set (drop 2 (future m)). \<exists>e\<in>set es. is_reset e"
  shows "\<exists>r. protocol_execute_realtime m = Some r \<and> locked_from m r \<and> sys_rt_exec_alarm r = 0"
proof -
  let ?evs = "tl (future m)" and ?n = "poll m"
  have f: "with_future ?evs ?n" by (rule poll_future) (simp add: with_future_def assms(1))
  have d: "drop 2 (future m) = tl ?evs" by (simp add: drop_Suc eval_nat_numeral)
  have sub: "set (tl ?evs) \<subseteq> set ?evs" by (cases ?evs) auto
  obtain es e where es: "es \<in> set (tl ?evs)" "e \<in> set es" "is_reset e" using assms(3) unfolding d by blast
  then have "wait_for_reset (before_reset ?n) \<noteq> None"
    using before_reset_future [OF f] sub wait_for_reset_returns by blast
  then obtain r where w: "wait_for_reset (before_reset ?n) = Some r" by blast
  have c: "critical ?n" by (rule critical_poll [OF assms(2)])
  have "execute_alarm ?n = Some (clear_alarm 0xFF r)"
    by (simp add: execute_alarm_critical [OF c] w)
  moreover have "bit_istrue (sys_rt_exec_state (clear_alarm 0xFF r)) EXEC_RESET"
    using wait_for_reset_frame [OF w] by (simp add: clear_alarm_def)
  ultimately have "realtime_pass ?n = Some (True, upd_sys (abort_update (\<lambda>_. True)) (clear_alarm 0xFF r))"
    by (simp add: realtime_pass_def Let_def)
  then have "protocol_execute_realtime m = Some (upd_sys (abort_update (\<lambda>_. True)) (clear_alarm 0xFF r))"
    by (simp add: protocol_execute_realtime_def suspend_loop.simps)
  then show ?thesis
    using critical_realtime [OF assms(2)] by (simp add: alarms_cleared upd_sys_def)
qed

text \<open>C12: A critical event is not a dead end.  If the environment ever sends a reset, on the pin or as a
  character, after the first two polling points (the executor's own and the delay of the alarm
  message), the real-time executor returns and the machine is locked with the abort flag set.\<close>

theorem reset_ends_critical_event:
  assumes "machine_ok m" and "bit_istrue (sys_rt_exec_alarm m) EXEC_CRITICAL_EVENT"
    and "\<exists>es\<in>set (drop 2 (future m)). \<exists>e\<in>set es. is_reset e"
  shows "\<exists>r. protocol_execute_realtime m = Some r \<and> locked_from m r"
  using critical_returns [OF assms] by blast

text \<open>A locked machine with the reset still pending raises no other alarm, so the executor does not wait again.\<close>

interpretation alarm_kept: isr_relation "\<lambda>s t :: machine. sys_rt_exec_alarm t = sys_rt_exec_alarm s"
  by unfold_locales (simp_all add: upd_sys_def upd_st_def raise_exec_def)

definition settled :: "machine \<Rightarrow> bool" where
  "settled m = (state (sys m) = STATE_ALARM \<and> bit_istrue (sys_rt_exec_state m) EXEC_RESET \<and> sys_rt_exec_alarm m = 0)"

lemma settled_interrupt: "settled m \<Longrightarrow> settled (interrupt_step i m)"
proof -
  assume m: "settled m"
  then have reset: "mc_reset m = m" by (simp add: settled_def mc_reset_def bit_isfalse_def bit_istrue_def)
  have "sys_rt_exec_alarm (interrupt_step i m) = 0"
    using m by (cases i)
      (simp_all add: settled_def reset alarm_kept.R_main_isr alarm_kept.R_pulse_isr limit_pin_isr_def enable_debounce_timer_def
        receive_byte_def RESET_CONTROL_ISR_def FEED_HOLD_CONTROL_ISR_def SAFETY_DOOR_CONTROL_ISR_def CYCLE_START_CONTROL_ISR_def
        SW_DEBOUNCE_TIMER_ISR_def Let_def raise_exec_def case_prod_beta)
  then show ?thesis
    using m frame_interrupt [of m i] flags_grow_istrue by (auto simp: settled_def isr_frame_def)
qed

lemma settled_interrupts: "settled m \<Longrightarrow> settled (fold interrupt_step es m)"
  by (induction es arbitrary: m) (simp_all add: settled_interrupt)

lemma settled_poll: "settled m \<Longrightarrow> settled (poll m)"
  using settled_interrupts [of "m\<lparr>future := es\<rparr>" es' for es es']
  by (cases "future m") (simp_all add: poll_def await_def settled_def)

lemma settled_returns: "settled m \<Longrightarrow> \<exists>r. protocol_execute_realtime m = Some r \<and> abort (sys r)"
proof -
  assume "settled m"
  from settled_poll [OF this] show ?thesis
    unfolding protocol_execute_realtime_def
    by (subst suspend_loop.simps) (simp add: settled_def realtime_pass_def execute_alarm_def upd_sys_def)
qed

section \<open>Hard limits\<close>

lemma sys_go_idle: "sys (st_go_idle s) = sys s" "\<not> main_timer_irq (st_go_idle s)"
  by (simp_all add: st_go_idle_def put_steppers_disable_def Let_def)

lemma mc_reset_sys: "sys (mc_reset m) = sys m"
  by (simp add: mc_reset_def Let_def sys_go_idle raise_alarm_def coolant_stop_def spindle_stop_def)

lemma mc_reset_stopped: "\<not> main_timer_irq m \<Longrightarrow> \<not> main_timer_irq (mc_reset m)"
  by (simp add: mc_reset_def Let_def sys_go_idle coolant_stop_def spindle_stop_def raise_exec_def)

lemma interrupt_stopped:
  "\<not> main_timer_irq m \<Longrightarrow> sys (interrupt_step i m) = sys m \<and> \<not> main_timer_irq (interrupt_step i m)"
proof (cases i)
  case (RxByte c)
  assume "\<not> main_timer_irq m"
  then show ?thesis by (simp add: RxByte receive_byte_def mc_reset_sys mc_reset_stopped split: prod.split)
qed (simp_all add: PULSE_TIMER_ISR_def SET_STEP_BITS_def mc_reset_sys mc_reset_stopped limit_pin_isr_def
      enable_debounce_timer_def RESET_CONTROL_ISR_def FEED_HOLD_CONTROL_ISR_def SAFETY_DOOR_CONTROL_ISR_def
      CYCLE_START_CONTROL_ISR_def SW_DEBOUNCE_TIMER_ISR_def Let_def raise_exec_def raise_alarm_def)

lemma interrupts_stopped:
  "\<not> main_timer_irq m \<Longrightarrow> sys (fold interrupt_step evs m) = sys m \<and> \<not> main_timer_irq (fold interrupt_step evs m)"
  by (induction evs arbitrary: m) (simp_all add: interrupt_stopped)

lemma mc_reset_safe:
  assumes "bit_isfalse (sys_rt_exec_state m) EXEC_RESET"
  shows "\<not> spindle_output_on (mc_reset m)" "\<not> bit_istrue (gpioc_odr (mc_reset m)) COOLANT_FLOOD_MASK"
    "in_state (STATE_CYCLE OR STATE_HOMING) m \<Longrightarrow> \<not> main_timer_irq (mc_reset m)"
proof -
  have w: "in_state b (coolant_stop (spindle_stop (raise_exec EXEC_RESET m))) = in_state b m" for b
    by (simp add: in_state_def coolant_stop_def spindle_stop_def)
  have g: "gpioc_odr (st_go_idle n) = gpioc_odr n" "spindle_output_on (st_go_idle n) = spindle_output_on n" for n :: machine
    by (simp_all add: st_go_idle_def put_steppers_disable_def Let_def)
  show "\<not> spindle_output_on (mc_reset m)"
    using assms by (simp add: mc_reset_def Let_def g raise_alarm_def coolant_stop_def spindle_stop_def)
  have "\<not> bit_istrue (gpioc_odr (coolant_stop n)) COOLANT_FLOOD_MASK" for n
    by (simp add: coolant_stop_def bit_false_def bit_istrue_def word_bw_assocs)
  then show "\<not> bit_istrue (gpioc_odr (mc_reset m)) COOLANT_FLOOD_MASK"
    using assms by (simp add: mc_reset_def Let_def g raise_alarm_def)
  show "\<not> main_timer_irq (mc_reset m)" if "in_state (STATE_CYCLE OR STATE_HOMING) m"
    using assms that by (simp add: mc_reset_def Let_def w sys_go_idle)
qed

lemma hard_limit_alarm:
  assumes "debounce_timer_on m" "limits_get_state m \<noteq> 0" "state (sys m) = STATE_CYCLE" "sys_rt_exec_alarm m = 0"
  defines "r \<equiv> interrupt_step DebounceTimeout m"
  shows "r = raise_alarm (EXEC_ALARM_HARD_LIMIT OR EXEC_CRITICAL_EVENT) (mc_reset (m\<lparr>debounce_timer_on := False\<rparr>))" "critical r"
proof -
  have limits: "limits_get_state (m\<lparr>debounce_timer_on := b\<rparr>) = limits_get_state m" for b
    by (simp add: limits_get_state_def)
  show r: "r = raise_alarm (EXEC_ALARM_HARD_LIMIT OR EXEC_CRITICAL_EVENT) (mc_reset (m\<lparr>debounce_timer_on := False\<rparr>))"
    using assms(1-4) limits [of False] by (simp add: r_def SW_DEBOUNCE_TIMER_ISR_def Let_def)
  show "critical r" by (simp add: r raise_alarm_def bit_true_def bit_istrue_def word_ao_dist)
qed

text \<open>C11: When the debounce timer finds a limit switch engaged during a cycle, the spindle and the
  coolant go off and the motors stop: no later interrupt moves them, and the real-time executor comes
  back only locked, with the abort flag set.\<close>

theorem hard_limit_stops:
  assumes "debounce_timer_on m" and "limits_get_state m \<noteq> 0" and "state (sys m) = STATE_CYCLE"
    and "sys_rt_exec_alarm m = 0" and "bit_isfalse (sys_rt_exec_state m) EXEC_RESET"
    and "r = interrupt_step DebounceTimeout m"
  shows "\<not> spindle_output_on r \<and> \<not> bit_istrue (gpioc_odr r) COOLANT_FLOOD_MASK \<and>
    sys (fold interrupt_step evs r) = sys m \<and> pred_option (locked_from r) (protocol_execute_realtime r)"
proof -
  let ?n = "m\<lparr>debounce_timer_on := False\<rparr>"
  note r = hard_limit_alarm [OF assms(1-4), folded assms(6)]
  have n: "bit_isfalse (sys_rt_exec_state ?n) EXEC_RESET" "in_state (STATE_CYCLE OR STATE_HOMING) ?n"
    using assms(3,5) by (simp_all add: in_state_def bit_istrue_def)
  have "pred_option (locked_from r) (protocol_execute_realtime r)" by (rule critical_realtime [OF r(2)])
  moreover have "\<not> main_timer_irq r" using mc_reset_safe(3) [OF n] by (simp add: r(1) raise_alarm_def)
  moreover have "sys r = sys m" using mc_reset_sys [of ?n] by (simp add: r(1) raise_alarm_def)
  ultimately show ?thesis
    using mc_reset_safe(1,2) [OF n(1)] interrupts_stopped [of r evs]
    by (simp add: r(1) raise_alarm_def)
qed

section \<open>Soft limits\<close>

definition no_new_line :: "u8 \<Rightarrow> bool \<Rightarrow> machine \<Rightarrow> bool" where
  "no_new_line h a m = (machine_ok m \<and> block_buffer_head m = h \<and> (a \<longrightarrow> abort (sys m)))"

interpretation quiet: limit_invariant "no_new_line h a" for h a
proof
  fix s :: machine and f :: "plan_block_t \<Rightarrow> plan_block_t" and i
  assume "no_new_line h a s" "\<And>b. block_path (f b) = block_path b"
  then show "no_new_line h a (upd_block i f s)"
    using mach_step.P_upd_block [of s f i] by (simp add: no_new_line_def) (simp add: upd_block_def)
qed (clarsimp simp: no_new_line_def ok_defs upd_st_def upd_sys_def emit_def)+

lemma soft_kill_aborts: "pred_option (\<lambda>r. abort (sys r)) (soft_limit_kill m)"
proof -
  have "critical (raise_alarm (EXEC_ALARM_SOFT_LIMIT OR EXEC_CRITICAL_EVENT) (mc_reset m))"
    by (simp add: raise_alarm_def bit_true_def bit_istrue_def word_ao_dist)
  from critical_realtime [OF this] show ?thesis
    unfolding soft_limit_kill_def by (rule option.pred_mono_strong) (simp add: locked_from_def)
qed

lemma soft_stop_aborts: "pred_option (\<lambda>r. abort (sys r)) (soft_limit_stop m)"
  unfolding soft_limit_stop_def
  by (intro pred_if pred_bind [where Q = "\<lambda>_. True"] soft_kill_aborts) (simp_all add: option.pred_True soft_kill_aborts)

lemma soft_axes_abort: "i \<in> set idxs \<Longrightarrow> beyond_limit (cfg m) target i \<Longrightarrow>
    pred_option (\<lambda>r. abort (sys r)) (soft_check_axes idxs target m)"
  by (induction idxs target m rule: soft_check_axes.induct) (auto simp: Let_def soft_stop_aborts)

lemma aborted_no_room:
  assumes "no_new_line h True m"
  shows "pred_option (\<lambda>r. \<not> fst r \<and> no_new_line h True (snd r)) (wait_for_room m)"
  using quiet.P_realtime [OF assms]
  by (subst wait_for_room.simps) (cases "protocol_execute_realtime m", auto simp: no_new_line_def)

text \<open>A soft limit stops a machine at rest only until the reset that ends it.\<close>

lemma soft_kill_settles:
  assumes "machine_ok m" "\<exists>es\<in>set (drop 2 (future m)). \<exists>e\<in>set es. is_reset e"
  shows "pred_option settled (soft_limit_kill m) \<and> soft_limit_kill m \<noteq> None"
proof -
  let ?n = "raise_alarm (EXEC_ALARM_SOFT_LIMIT OR EXEC_CRITICAL_EVENT) (mc_reset m)"
  have "with_future (future m) ?n"
    by (intro future_step.P_flags future_step.P_mc_reset) (simp add: with_future_def assms(1))
  then have n: "machine_ok ?n" "future ?n = future m" by (simp_all add: with_future_def)
  have "critical ?n" by (simp add: raise_alarm_def bit_true_def bit_istrue_def word_ao_dist)
  from critical_returns [OF n(1) this] n(2) assms(2) show ?thesis
    by (auto simp: soft_limit_kill_def locked_from_def settled_def)
qed

lemma soft_check_settles:
  assumes "machine_ok m" "\<exists>es\<in>set (drop 2 (future m)). \<exists>e\<in>set es. is_reset e" "state (sys m) \<noteq> STATE_CYCLE"
    and "i \<in> set idxs" "beyond_limit (cfg m) target i"
  shows "\<exists>r. soft_check_axes idxs target m = Some r \<and> settled r"
  using assms
proof (induction idxs arbitrary: m)
  case (Cons idx idxs)
  let ?m = "if beyond_limit (cfg m) target idx then upd_sys (soft_limit_update (\<lambda>_. True)) m else m"
  have m: "machine_ok ?m" "future ?m = future m" "cfg ?m = cfg m" "state (sys ?m) = state (sys m)"
    using Cons.prems(1) by (simp_all add: ok_defs upd_sys_def)
  show ?case
  proof (cases "soft_limit (sys ?m)")
    case True
    then have "soft_check_axes (idx # idxs) target m = soft_limit_kill ?m"
      using Cons.prems(3) m(4) by (simp only: soft_check_axes.simps Let_def soft_limit_stop_def) simp
    then show ?thesis
      using soft_kill_settles [OF m(1)] Cons.prems(2) m(2) by (cases "soft_limit_kill ?m") auto
  next
    case False
    then have "\<not> beyond_limit (cfg m) target idx" by (auto simp: upd_sys_def split: if_splits)
    then show ?thesis
      using False Cons.prems Cons.IH [OF Cons.prems(1-3)] by (auto simp: Let_def)
  qed
qed simp

text \<open>C10: With soft limits on, a line whose target is outside the work space of any axis is never
  planned: if \<open>mc_line\<close> comes back, the abort flag is set and no block has been added to the planner,
  whatever the interrupts do.  It does come back, from any state but a running cycle, once a reset
  arrives after the first two polling points.\<close>

theorem soft_limit_refuses_line:
  assumes "machine_ok m" and "bit_istrue (flags (cfg m)) BITFLAG_SOFT_LIMIT_ENABLE"
    and "i < N_AXIS" and "beyond_limit (cfg m) target i"
  shows "pred_option (\<lambda>r. abort (sys r) \<and> block_buffer_head r = block_buffer_head m) (mc_line target feed iv m) \<and>
    (state (sys m) \<noteq> STATE_CYCLE \<and> (\<exists>es\<in>set (drop 2 (future m)). \<exists>e\<in>set es. is_reset e) \<longrightarrow> mc_line target feed iv m \<noteq> None)"
proof -
  let ?h = "block_buffer_head m"
  have "no_new_line ?h False m" using assms(1) by (simp add: no_new_line_def)
  then have "pred_option (no_new_line ?h False) (limits_soft_check target m)" by (rule quiet.P_soft_check)
  moreover have "pred_option (\<lambda>r. abort (sys r)) (limits_soft_check target m)"
    unfolding limits_soft_check_def by (rule soft_axes_abort) (use assms(3,4) in simp_all)
  ultimately have c: "pred_option (no_new_line ?h True) (limits_soft_check target m)"
    by (cases "limits_soft_check target m") (simp_all add: no_new_line_def)
  have w: "pred_option (no_new_line ?h True) (wait_for_room n \<bind> (\<lambda>(room, n). if room then f n else Some n))"
    if "no_new_line ?h True n" for n and f :: "machine \<Rightarrow> machine option"
    by (rule pred_bind [OF aborted_no_room [OF that]]) auto
  have "pred_option (no_new_line ?h True) (mc_line target feed iv m)"
    unfolding mc_line_def using assms(2) by (simp only: if_True) (intro pred_bind [OF c] pred_if pred_Some w)
  then have aborted: "pred_option (\<lambda>r. abort (sys r) \<and> block_buffer_head r = ?h) (mc_line target feed iv m)"
    by (rule option.pred_mono_strong) (simp add: no_new_line_def)
  have "mc_line target feed iv m \<noteq> None"
    if still: "state (sys m) \<noteq> STATE_CYCLE" and reset: "\<exists>es\<in>set (drop 2 (future m)). \<exists>e\<in>set es. is_reset e"
  proof -
    obtain r where r: "limits_soft_check target m = Some r" "settled r"
      using soft_check_settles [OF assms(1) reset still _ assms(4), of "[0..<N_AXIS]"] assms(3)
      by (auto simp: limits_soft_check_def)
    obtain t where "protocol_execute_realtime r = Some t" "abort (sys t)" using settled_returns [OF r(2)] by blast
    then have "wait_for_room r = Some (False, t)" by (subst wait_for_room.simps) simp
    moreover have "state (sys r) \<noteq> STATE_CHECK_MODE" using r(2) by (simp add: settled_def)
    ultimately show ?thesis using assms(2) r(1) by (simp add: mc_line_def)
  qed
  then show ?thesis using aborted by blast
qed

section \<open>The theorems at work\<close>

definition tripped_machine :: machine where
  "tripped_machine = (zero_machine fresh_flash)\<lparr>future := [[], [], [StepTick, ResetPin]], sys_rt_exec_alarm := 3\<rparr>"

lemma tripped_returns: "\<exists>r. protocol_execute_realtime tripped_machine = Some r"
proof -
  have "machine_ok tripped_machine" unfolding tripped_machine_def by (intro mach_step.P_put_alarm machine_ok_zero)
  from critical_returns [OF this] show ?thesis by (auto simp: tripped_machine_def bit_istrue_def is_reset_def)
qed

theorem critical_event_locks_witness:
  "\<exists>r. protocol_execute_realtime tripped_machine = Some r \<and> abort (sys r) \<and> state (sys r) = STATE_ALARM"
proof -
  have "bit_istrue (sys_rt_exec_alarm tripped_machine) EXEC_CRITICAL_EVENT"
    by (simp add: tripped_machine_def bit_istrue_def)
  from critical_event_locks [OF this] tripped_returns show ?thesis by (auto simp: locked_from_def)
qed

theorem reset_ends_critical_event_witness:
  "\<exists>r. protocol_execute_realtime tripped_machine = Some r \<and> locked_from tripped_machine r"
proof (rule reset_ends_critical_event)
  show "machine_ok tripped_machine" unfolding tripped_machine_def by (intro mach_step.P_put_alarm machine_ok_zero)
qed (simp_all add: tripped_machine_def bit_istrue_def is_reset_def)

definition cycling_machine :: machine where
  "cycling_machine = (set_state STATE_CYCLE ((zero_machine fresh_flash)\<lparr>future := [[], [], [RxByte 0x18]]\<rparr>))
     \<lparr>debounce_timer_on := True, main_timer_irq := True\<rparr>"

abbreviation (input) switched_machine :: machine where
  "switched_machine \<equiv> interrupt_step DebounceTimeout cycling_machine"

theorem hard_limit_stops_witness:
  "\<not> spindle_output_on switched_machine \<and> \<not> bit_istrue (gpioc_odr switched_machine) COOLANT_FLOOD_MASK \<and>
   sys (fold interrupt_step [StepTick, PulseEnd, StepTick] switched_machine) = sys cycling_machine \<and>
   (\<exists>r. protocol_execute_realtime switched_machine = Some r \<and> locked_from switched_machine r)"
proof -
  have n: "[0..<N_AXIS] = [0, 1, 2]" by (simp add: N_AXIS_def upt_rec)
  have l: "limits_get_state cycling_machine \<noteq> 0"
    by (simp add: limits_get_state_def cycling_machine_def zero_machine_def zero_settings_def bit_isfalse_def
        get_limit_pin_mask_def bit_of_def upd_sys_def Let_def n)
  have c: "debounce_timer_on cycling_machine" "state (sys cycling_machine) = STATE_CYCLE" "sys_rt_exec_alarm cycling_machine = 0"
    "bit_isfalse (sys_rt_exec_state cycling_machine) EXEC_RESET"
    by (simp_all add: cycling_machine_def zero_machine_def bit_isfalse_def upd_sys_def)
  have "machine_ok (set_state STATE_CYCLE ((zero_machine fresh_flash)\<lparr>future := [[], [], [RxByte 0x18]]\<rparr>))"
    by (intro mach.P_set_state machine_ok_zero) simp
  then have "with_future [[], [], [RxByte 0x18]] cycling_machine" by (simp add: with_future_def cycling_machine_def ok_defs upd_sys_def)
  then have "with_future [[], [], [RxByte 0x18]] switched_machine" by (rule future_step.P_interrupt)
  then have f: "machine_ok switched_machine" "future switched_machine = [[], [], [RxByte 0x18]]" by (simp_all add: with_future_def)
  from critical_returns [OF f(1) hard_limit_alarm(2) [OF c(1) l c(2,3)]] f(2) hard_limit_stops [OF c(1) l c(2-4) refl, of "[StepTick, PulseEnd, StepTick]"] show ?thesis
    by (auto simp: is_reset_def)
qed

definition soft_machine :: machine where
  "soft_machine = upd_env (settings_update (flags_update (\<lambda>_. BITFLAG_SOFT_LIMIT_ENABLE)))
     ((zero_machine fresh_flash)\<lparr>future := [[], [], [ResetPin]]\<rparr>)"

theorem soft_limit_refuses_line_witness:
  "\<exists>r. mc_line [Fin 0, Fin 5, Fin 0] (Fin 100) False soft_machine = Some r \<and> abort (sys r) \<and>
     block_buffer_head r = block_buffer_head soft_machine"
proof -
  have "machine_ok soft_machine" unfolding soft_machine_def by (intro mach.P_env machine_ok_zero)
  moreover have "(1 :: nat) < N_AXIS" by (simp add: N_AXIS_def)
  moreover have "bit_istrue (flags (cfg soft_machine)) BITFLAG_SOFT_LIMIT_ENABLE"
    "beyond_limit (cfg soft_machine) [Fin 0, Fin 5, Fin 0] 1"
    by (simp_all add: soft_machine_def upd_env_def bit_istrue_def beyond_limit_def BITFLAG_SOFT_LIMIT_ENABLE_def bit_of_def)
  ultimately have "pred_option (\<lambda>r. abort (sys r) \<and> block_buffer_head r = block_buffer_head soft_machine)
      (mc_line [Fin 0, Fin 5, Fin 0] (Fin 100) False soft_machine)"
    "state (sys soft_machine) \<noteq> STATE_CYCLE \<and> (\<exists>es\<in>set (drop 2 (future soft_machine)). \<exists>e\<in>set es. is_reset e) \<longrightarrow>
      mc_line [Fin 0, Fin 5, Fin 0] (Fin 100) False soft_machine \<noteq> None"
    using soft_limit_refuses_line by blast+
  moreover have "state (sys soft_machine) = 0" "future soft_machine = [[], [], [ResetPin]]"
    by (simp_all add: soft_machine_def upd_env_def zero_machine_def zero_system_def)
  ultimately show ?thesis
    by (cases "mc_line [Fin 0, Fin 5, Fin 0] (Fin 100) False soft_machine") (auto simp: is_reset_def)
qed

end
