(* ===== verification/Hold.thy ===== *)
theory Hold
  imports Safety
begin

text \<open>
  The feed hold as a state of the real-time executor: a machine held in \<open>STATE_HOLD\<close> or by the
  safety door stays in the suspend loop until the environment sends a cycle start, a reset or a limit
  switch trip.
\<close>

section \<open>Interrupts that do not end a hold\<close>

abbreviation EXEC_ENDS_HOLD :: u8 where
  "EXEC_ENDS_HOLD \<equiv> EXEC_CYCLE_START OR EXEC_RESET"

definition calm_frame :: "'a step_state_scheme \<Rightarrow> 'a step_state_scheme \<Rightarrow> bool" where
  "calm_frame s t = (isr_frame s t \<and> sys_rt_exec_alarm t = sys_rt_exec_alarm s \<and>
     sys_rt_exec_state t AND EXEC_ENDS_HOLD = sys_rt_exec_state s AND EXEC_ENDS_HOLD)"

definition ends_hold :: "interrupt \<Rightarrow> bool" where
  "ends_hold e = (is_reset e \<or> e = CycleStartPin \<or> e = RxByte 126 \<or> e = DebounceTimeout)"

lemmas exec_bits = EXEC_STATUS_REPORT_def EXEC_CYCLE_START_def EXEC_CYCLE_STOP_def EXEC_FEED_HOLD_def EXEC_RESET_def
  EXEC_SAFETY_DOOR_def EXEC_MOTION_CANCEL_def bit_of_def

lemma calm_raise: "calm_frame s t \<Longrightarrow> b AND EXEC_ENDS_HOLD = 0 \<Longrightarrow> calm_frame s (raise_exec b t)"
  by (simp add: calm_frame_def frame_flags) (simp add: raise_exec_def bit_true_def bit.conj_disj_distrib2)

interpretation calm: isr_relation "calm_frame :: 'a step_state_scheme \<Rightarrow> 'a step_state_scheme \<Rightarrow> bool"
proof
  fix s t :: "'a step_state_scheme"
  assume c: "calm_frame s t"
  show "calm_frame s (raise_exec EXEC_MOTION_CANCEL t)" "calm_frame s (raise_exec EXEC_CYCLE_STOP t)"
    by (intro calm_raise c; simp add: exec_bits)+
qed (auto simp: calm_frame_def frame_defs intro: flags_grow_trans)

lemma calm_interrupt: "\<not> ends_hold e \<Longrightarrow> calm_frame m (interrupt_step e m)"
proof (cases e)
  case (RxByte c)
  assume "\<not> ends_hold e"
  then have "realtime_command c \<noteq> Some CMD_RESET" "realtime_command c \<noteq> Some CMD_CYCLE_START"
    by (auto simp: RxByte ends_hold_def is_reset_def realtime_command_def split: if_splits)
  moreover have "calm_frame m (raise_exec b m)" if "b AND EXEC_ENDS_HOLD = 0" for b
    by (rule calm_raise [OF calm.R_refl that])
  ultimately show ?thesis
    using calm.R_refl [of m]
    by (auto simp: RxByte receive_byte_def SERIAL_DMA_ISR_def calm_frame_def isr_frame_def raise_exec_def exec_bits
      split: option.split rt_command.split)
qed (simp_all add: ends_hold_def is_reset_def calm.R_main_isr calm.R_pulse_isr calm.R_refl limit_pin_isr_def
      enable_debounce_timer_def FEED_HOLD_CONTROL_ISR_def SAFETY_DOOR_CONTROL_ISR_def calm_raise exec_bits,
     simp_all add: calm_frame_def isr_frame_def)

section \<open>The held machine\<close>

definition held :: "interrupt list list \<Rightarrow> machine \<Rightarrow> bool" where
  "held evs m = (with_future evs m \<and> (state (sys m) = STATE_HOLD \<or> state (sys m) = STATE_SAFETY_DOOR) \<and>
     suspend (sys m) \<noteq> 0 \<and> \<not> soft_limit (sys m) \<and> sys_rt_exec_alarm m = 0 \<and>
     sys_rt_exec_state m AND EXEC_ENDS_HOLD = 0)"

interpretation held_prep: prep_invariant "held evs" for evs
proof
  fix s :: machine and f :: "plan_block_t \<Rightarrow> plan_block_t" and i
  assume "held evs s" "\<And>b. block_path (f b) = block_path b"
  then show "held evs (upd_block i f s)"
    using mach_step.P_upd_block [of s f i] by (simp add: held_def with_future_def) (simp add: upd_block_def)
qed (clarsimp simp: held_def with_future_def ok_defs)+

lemma held_calm: "held evs m \<Longrightarrow> \<not> ends_hold e \<Longrightarrow> held evs (interrupt_step e m)"
  using calm_interrupt [of e m] future_step.P_interrupt [of evs m e]
  by (simp add: held_def calm_frame_def isr_frame_def)

lemma held_calms: "held evs m \<Longrightarrow> \<forall>e\<in>set es. \<not> ends_hold e \<Longrightarrow> held evs (fold interrupt_step es m)"
  by (induction es arbitrary: m) (simp_all add: held_calm)

lemma held_await:
  assumes "held evs m" "\<forall>es\<in>set evs. \<forall>e\<in>set es. \<not> ends_hold e" "await m = Some n"
  shows "evs \<noteq> [] \<and> held (tl evs) n"
proof (cases evs)
  case (Cons es rest)
  have "held rest (m\<lparr>future := rest\<rparr>)"
    using assms(1) mach.P_future [of m rest] by (simp add: held_def with_future_def)
  from held_calms [OF this, of es] show ?thesis
    using assms by (simp add: Cons await_def held_def with_future_def)
qed (use assms in \<open>simp add: await_def held_def with_future_def\<close>)

lemma held_emit: "held evs m \<Longrightarrow> held evs (emit bs m)"
  using mach.P_emit [of m bs] by (simp add: held_def with_future_def) (simp add: emit_def)

lemma held_clear: "held evs m \<Longrightarrow> held evs (clear_exec b m)"
proof -
  assume h: "held evs m"
  have "(x AND NOT b) AND k = 0" if "x AND k = 0" for x k :: u8
    using that by (metis and.assoc and.commute and_zero_eq)
  then show ?thesis
    using h mach_step.P_flags(2) [of m b] by (simp add: held_def with_future_def) (simp add: clear_exec_def bit_false_def)
qed

lemma held_state: "held evs m \<Longrightarrow> held evs (set_state STATE_HOLD m)" "held evs m \<Longrightarrow> held evs (set_state STATE_SAFETY_DOOR m)"
  using mach.P_set_state [of m STATE_HOLD] mach.P_set_state [of m STATE_SAFETY_DOOR]
  by (simp_all add: held_def with_future_def) (simp_all add: upd_sys_def)

lemma held_suspend: "held evs m \<Longrightarrow> b AND 0xF0 = 0 \<Longrightarrow> held evs (set_suspend (suspend (sys m) OR b) m)"
proof -
  assume h: "held evs m" and b: "b AND 0xF0 = (0 :: u8)"
  have "(x OR b) AND x = x" for x by (simp add: word_ao_absorbs)
  then have "suspend (sys m) OR b \<noteq> 0" using h unfolding held_def by (metis and_zero_eq zero_and_eq)
  then show ?thesis
    using h mach.P_suspend_or [of m b] b by (simp add: held_def with_future_def) (simp add: upd_sys_def)
qed

lemma held_power: "held evs m \<Longrightarrow> held evs (coolant_stop (spindle_stop m))"
  using mach_step.P_coolant_stop [of "spindle_stop m"] mach_step.P_spindle_stop [of m]
  by (simp add: held_def with_future_def) (simp add: coolant_stop_def spindle_stop_def)

lemma held_enter:
  assumes "held evs m" "x AND EXEC_ENDS_HOLD = 0"
  shows "held evs (snd (enter_hold x m)) \<and> fst (enter_hold x m) AND EXEC_ENDS_HOLD = 0"
proof -
  have st: "state (sys m) \<noteq> STATE_CYCLE" "state (sys m) \<noteq> STATE_IDLE" using assms(1) by (auto simp: held_def)
  have r: "bit_true x EXEC_CYCLE_STOP AND EXEC_ENDS_HOLD = 0"
    using assms(2) by (simp add: bit_true_def bit.conj_disj_distrib2 exec_bits)
  have d: "held evs (set_state STATE_SAFETY_DOOR (set_suspend (suspend (sys n) OR SUSPEND_ENERGIZE) n))" if "held evs n" for n
    using that by (intro held_state held_suspend) simp_all
  define m1 where "m1 = (if bit_istrue x EXEC_MOTION_CANCEL then set_suspend (suspend (sys m) OR SUSPEND_MOTION_CANCEL) m else m)"
  have m1: "held evs m1" using assms(1) held_suspend [of evs m SUSPEND_MOTION_CANCEL] by (simp add: m1_def)
  define m2 where "m2 = (if bit_istrue x EXEC_FEED_HOLD \<and> \<not> in_state STATE_SAFETY_DOOR m1 then set_state STATE_HOLD m1 else m1)"
  have m2: "held evs m2" using m1 held_state(1) by (simp add: m2_def)
  have "enter_hold x m = (if bit_istrue x EXEC_SAFETY_DOOR then
      (let m = emit (report_feedback_message MESSAGE_SAFETY_DOOR_AJAR) m2;
           x = (if bit_istrue (suspend (sys m)) SUSPEND_ENABLE_READY then bit_true x EXEC_CYCLE_STOP else x)
       in (x, set_state STATE_SAFETY_DOOR (set_suspend (suspend (sys m) OR SUSPEND_ENERGIZE) m))) else (x, m2))"
    unfolding enter_hold_def m2_def m1_def using st by (simp only: Let_def if_False)
  then show ?thesis using m2 r assms(2) d [OF held_emit [OF m2]] by (simp add: Let_def)
qed

lemma held_holds:
  assumes "held evs m" "x AND EXEC_ENDS_HOLD = 0"
  shows "held evs (snd (execute_holds x m)) \<and> fst (execute_holds x m) AND EXEC_ENDS_HOLD = 0"
  using held_enter [OF assms] assms held_clear by (auto simp: execute_holds_def case_prod_beta)

lemma held_stop: "held evs m \<Longrightarrow> held evs (execute_cycle_stop x m)"
proof -
  assume h: "held evs m"
  have c: "in_state (STATE_HOLD OR STATE_SAFETY_DOOR) m \<and> \<not> soft_limit (sys m)"
    using h by (auto simp: held_def in_state_def bit_istrue_def)
  have s: "held evs (set_suspend (bit_true (suspend (sys n)) SUSPEND_ENABLE_READY) n)" if "held evs n" for n
    unfolding bit_true_def using that by (rule held_suspend) simp_all
  show ?thesis
    unfolding execute_cycle_stop_def if_P [OF c] Let_def
    by (intro held_prep.P_if held_clear s held_power h)
qed

lemma not_ending: "x AND EXEC_ENDS_HOLD = 0 \<Longrightarrow> \<not> bit_istrue x EXEC_CYCLE_START \<and> \<not> bit_istrue x EXEC_RESET"
  unfolding bit_istrue_def bit.conj_disj_distrib by (simp add: or_eq_0_iff)

lemma held_commands:
  assumes "held evs m" "x AND EXEC_ENDS_HOLD = 0"
  shows "pred_option (held evs) (execute_commands x m)"
proof -
  have "pred_option (held evs) (execute_status_report x m)"
    unfolding execute_status_report_def using assms(1)
    by (intro pred_if pred_bind [where Q = "\<lambda>_. True"] pred_Some held_clear held_emit) (simp_all add: option.pred_True)
  moreover have "pred_option (held evs) (execute_cycle_start (fst (execute_holds x n)) (snd (execute_holds x n)))"
    if "held evs n" for n
  proof -
    have h: "held evs (snd (execute_holds x n))" and "fst (execute_holds x n) AND EXEC_ENDS_HOLD = 0"
      using held_holds [OF that assms(2)] by blast+
    then have c: "\<not> bit_istrue (fst (execute_holds x n)) EXEC_CYCLE_START" using not_ending by blast
    from h show ?thesis unfolding execute_cycle_start_def if_not_P [OF c] by simp
  qed
  ultimately show ?thesis
    unfolding execute_commands_def Let_def case_prod_beta
    by (intro pred_if pred_bind [where Q = "held evs"] pred_Some held_stop assms(1); blast)
qed

lemma held_door: "held evs m \<Longrightarrow> held evs (close_safety_door m)"
  by (simp add: close_safety_door_def held_state)

lemma held_pass: "held evs m \<Longrightarrow> pred_option (\<lambda>p. \<not> fst p \<and> held evs (snd p)) (realtime_pass m)"
proof -
  assume h: "held evs m"
  then have "execute_alarm m = Some m" "\<not> bit_istrue (sys_rt_exec_state m) EXEC_RESET"
    using not_ending by (simp_all add: execute_alarm_def held_def)
  then show ?thesis
    unfolding realtime_pass_def Let_def using h
    by (simp, intro pred_bind [where Q = "held evs"] held_commands pred_if held_prep.P_st_prep_buffer)
      (simp_all add: held_def [of evs m] held_door)
qed

lemma held_loop: "suspend_loop m = Some r \<Longrightarrow> held evs m \<Longrightarrow> \<exists>es\<in>set evs. \<exists>e\<in>set es. ends_hold e"
proof (induction arbitrary: evs rule: suspend_loop.raw_induct [rotated, consumes 1, case_names step])
  case (step f m r)
  then obtain ret n where p: "realtime_pass m = Some (ret, n)"
    and r: "(if ret \<or> suspend (sys n) = 0 then Some n else await n \<bind> f) = Some r"
    by (auto simp: bind_eq_Some_conv)
  from held_pass [OF step.prems] p have n: "\<not> ret" "held evs n" by simp_all
  then obtain k where k: "await n = Some k" "f k = Some r"
    using r by (auto simp: bind_eq_Some_conv held_def)
  show ?case
  proof (rule ccontr)
    assume c: "\<not> (\<exists>es\<in>set evs. \<exists>e\<in>set es. ends_hold e)"
    with held_await [OF n(2) _ k(1)] have t: "evs \<noteq> []" "held (tl evs) k" by auto
    then have "set (tl evs) \<subseteq> set evs" by (cases evs) auto
    with step.IH [OF k(2) t(2)] c show False by blast
  qed
qed

text \<open>C13: A feed hold really holds.  A machine suspended in the hold or safety door state comes out of the
  real-time executor only if the environment has sent a cycle start, a reset or a limit switch trip;
  nothing the step interrupt, the host or the other pins do ends the hold.\<close>

theorem hold_needs_restart:
  assumes "machine_ok m" and "state (sys m) = STATE_HOLD \<or> state (sys m) = STATE_SAFETY_DOOR"
    and "suspend (sys m) \<noteq> 0" and "\<not> soft_limit (sys m)" and "sys_rt_exec_alarm m = 0"
    and "\<not> bit_istrue (sys_rt_exec_state m) (EXEC_CYCLE_START OR EXEC_RESET)"
    and "protocol_execute_realtime m = Some r"
  shows "\<exists>es\<in>set (future m). \<exists>e\<in>set es. ends_hold e"
proof (rule ccontr)
  assume c: "\<not> (\<exists>es\<in>set (future m). \<exists>e\<in>set es. ends_hold e)"
  have h: "held (future m) m" using assms(1-6) by (simp add: held_def with_future_def bit_istrue_def)
  have "held (tl (future m)) (poll m)"
  proof (cases "await m")
    case (Some n)
    with held_await [OF h _ Some] c show ?thesis by (auto simp: poll_def)
  next
    case None
    then show ?thesis using h by (cases "future m") (simp_all add: await_def poll_def)
  qed
  moreover have "suspend_loop (poll m) = Some r" using assms(7) by (simp add: protocol_execute_realtime_def)
  moreover have "set (tl (future m)) \<subseteq> set (future m)" by (cases "future m") auto
  ultimately show False using held_loop c by blast
qed

definition holding_machine :: machine where
  "holding_machine = set_state STATE_HOLD (set_suspend SUSPEND_ENABLE_READY ((zero_machine fresh_flash)\<lparr>future := [[CycleStartPin]]\<rparr>))"

lemma holding_poll: "poll holding_machine =
    raise_exec EXEC_CYCLE_START (set_state STATE_HOLD (set_suspend SUSPEND_ENABLE_READY ((zero_machine fresh_flash)\<lparr>future := []\<rparr>)))"
  by (simp add: holding_machine_def poll_def await_def CYCLE_START_CONTROL_ISR_def upd_sys_def zero_machine_def)

lemma holding_returns: "\<exists>r. protocol_execute_realtime holding_machine = Some r"
  unfolding protocol_execute_realtime_def holding_poll
  by (subst suspend_loop.simps)
    (simp add: realtime_pass_def execute_alarm_def execute_commands_def execute_status_report_def execute_holds_def
      execute_cycle_start_def start_or_idle_def reenergize_def execute_cycle_stop_def close_safety_door_def Let_def
      plan_get_current_block_def in_state_def upd_sys_def raise_exec_def clear_exec_def bit_istrue_def bit_isfalse_def
      bit_true_def bit_false_def zero_machine_def exec_bits)

theorem hold_needs_restart_witness:
  "(\<exists>r. protocol_execute_realtime holding_machine = Some r) \<and> (\<exists>es\<in>set (future holding_machine). \<exists>e\<in>set es. ends_hold e)"
proof -
  obtain r where r: "protocol_execute_realtime holding_machine = Some r" using holding_returns by blast
  have "machine_ok holding_machine"
    unfolding holding_machine_def by (intro mach.P_set_state mach.P_set_suspend machine_ok_zero) simp_all
  from hold_needs_restart [OF this _ _ _ _ _ r] r show ?thesis
    by (simp add: holding_machine_def zero_machine_def zero_system_def)
qed

end
