(* ===== verification/HomedAxes.thy ===== *)
theory HomedAxes
  imports Safety
begin

text \<open>
  The machine position after homing.  The motors of a CoreXY machine share the axes X and Y, so
  setting the position of one axis must not move the other: seen as axis steps, the position
  changes in the homed axis only.  The last section runs a whole cycle to its end.
\<close>

section \<open>Positions as axis steps\<close>

text \<open>The axis steps of a motor position, what \<open>plan_sync_position\<close> gives to the planner.\<close>

definition axis_steps :: "settings_t \<Rightarrow> i32 vec \<Rightarrow> i32 vec" where
  "axis_steps c p = [system_convert_corexy_to_x_axis_steps c p, system_convert_corexy_to_y_axis_steps c p, p ! Z_AXIS]"

lemma pl_position_sync: "pl_position (plan_sync_position s) = axis_steps (cfg s) (position (sys s))"
  by (simp add: plan_sync_position_def axis_steps_def Let_def)

abbreviation half_range :: "i32 \<Rightarrow> bool" where
  "half_range w \<equiv> - (2 ^ 30) \<le> sint w \<and> sint w < 2 ^ 30"

lemma i32_half_range: "half_range (i32_half w)"
proof -
  have w: "- (2 ^ 31) \<le> sint w" "sint w < 2 ^ 31"
    using sint_greater_eq [of w] sint_less [of w] by simp_all
  define n where "n = (if sint w < 0 then - ((- sint w) div 2) else sint w div 2)"
  have n: "- (2 ^ 30) \<le> n" "n < 2 ^ 30" using w by (auto simp: n_def)
  then have "sint (word_of_int n :: i32) = n"
    by (simp add: sint_sbintrunc' signed_take_bit_int_eq_self)
  then show ?thesis using n by (simp add: i32_half_def Let_def n_def)
qed

lemma axis_steps_motor:
  assumes "half_range x" "half_range y" "length p = N_AXIS"
  shows "axis_steps c (p[A_MOTOR := corexy_motor_steps c x y ! 0, B_MOTOR := corexy_motor_steps c x y ! 1]) = [x, y, p ! Z_AXIS]"
proof -
  have "system_convert_corexy_to_x_axis_steps c (p[0 := corexy_motor_steps c x y ! 0, 1 := corexy_motor_steps c x y ! 1])
      = system_convert_corexy_to_x_axis_steps c (corexy_motor_steps c x y)"
    "system_convert_corexy_to_y_axis_steps c (p[0 := corexy_motor_steps c x y ! 0, 1 := corexy_motor_steps c x y ! 1])
      = system_convert_corexy_to_y_axis_steps c (corexy_motor_steps c x y)"
    using assms(3) by (simp_all add: system_convert_corexy_to_x_axis_steps_def system_convert_corexy_to_y_axis_steps_def N_AXIS_def)
  then show ?thesis
    using assms by (simp add: axis_steps_def corexy_x_of_motor corexy_y_of_motor)
qed

lemma axis_steps_half: "half_range (axis_steps c p ! X_AXIS)" "half_range (axis_steps c p ! Y_AXIS)"
  using i32_half_range by (simp_all add: axis_steps_def system_convert_corexy_to_x_axis_steps_def
    system_convert_corexy_to_y_axis_steps_def)

lemma homed_axis:
  assumes "length p = N_AXIS" "idx < N_AXIS" "half_range (set_axis_position c idx)"
  shows "axis_steps c (homed_position c idx p) = (axis_steps c p)[idx := set_axis_position c idx]"
proof -
  have "idx = X_AXIS \<or> idx = Y_AXIS \<or> idx = Z_AXIS" using assms(2) by (auto simp: N_AXIS_def)
  then show ?thesis
  proof (elim disjE)
    assume i: "idx = X_AXIS"
    show ?thesis
      using axis_steps_motor [OF assms(3) axis_steps_half(2), of p c c p] assms(1) i
      by (simp add: homed_position_def Let_def corexy_motor_steps_def) (simp add: axis_steps_def)
  next
    assume i: "idx = Y_AXIS"
    show ?thesis
      using axis_steps_motor [OF axis_steps_half(1) assms(3), of p c c p] assms(1) i
      by (simp add: homed_position_def Let_def corexy_motor_steps_def) (simp add: axis_steps_def)
  next
    assume i: "idx = Z_AXIS"
    then show ?thesis
      using assms(1) by (simp add: homed_position_def axis_steps_def system_convert_corexy_to_x_axis_steps_def
        system_convert_corexy_to_y_axis_steps_def N_AXIS_def)
  qed
qed

lemma zeroed_axis:
  assumes "length p = N_AXIS" "idx < N_AXIS"
  shows "axis_steps c (zero_axis_position c idx p) = (axis_steps c p)[idx := 0]"
proof -
  have "idx = X_AXIS \<or> idx = Y_AXIS \<or> idx = Z_AXIS" using assms(2) by (auto simp: N_AXIS_def)
  then show ?thesis
  proof (elim disjE)
    assume i: "idx = X_AXIS"
    show ?thesis
      using axis_steps_motor [OF _ axis_steps_half(2), of 0 p c c p] assms(1) i
      by (simp add: zero_axis_position_def Let_def corexy_motor_steps_def) (simp add: axis_steps_def)
  next
    assume i: "idx = Y_AXIS"
    show ?thesis
      using axis_steps_motor [OF axis_steps_half(1), of 0 p c c p] assms(1) i
      by (simp add: zero_axis_position_def Let_def corexy_motor_steps_def) (simp add: axis_steps_def)
  next
    assume i: "idx = Z_AXIS"
    then show ?thesis
      using assms(1) by (simp add: zero_axis_position_def axis_steps_def system_convert_corexy_to_x_axis_steps_def
        system_convert_corexy_to_y_axis_steps_def N_AXIS_def)
  qed
qed

section \<open>A whole cycle\<close>

lemma length_axis_steps: "length (axis_steps c p) = N_AXIS"
  by (simp add: axis_steps_def N_AXIS_def)

lemma length_homed_position: "length (homed_position c idx p) = length p"
  by (simp add: homed_position_def Let_def)

lemma homed_fold:
  assumes "length p = N_AXIS" "\<forall>i\<in>set idxs. i < N_AXIS \<and> half_range (set_axis_position c i)"
  shows "axis_steps c (fold (homed_position c) idxs p) = fold (\<lambda>i q. q[i := set_axis_position c i]) idxs (axis_steps c p)"
  using assms by (induction idxs arbitrary: p) (simp_all add: homed_axis length_homed_position)

lemma fold_put_nth:
  "i < length q \<Longrightarrow> fold (\<lambda>i q. q[i := v i]) idxs q ! i = (if i \<in> set idxs then v i else q ! i)"
  by (induction idxs arbitrary: q) (auto simp: nth_list_update)

lemma length_fold_put: "length (fold (\<lambda>i q. q[i := v i]) idxs q) = length q"
  by (induction idxs arbitrary: q) simp_all

text \<open>The position updates at the end of a cycle: each homed axis stands at its pull-off position and every
  other axis where it was, although on CoreXY both of the axes X and Y are driven by both motors; the
  pull-off positions only have to stay below half the range of the step counters.\<close>

lemma homed_axes_updates:
  assumes "length (position (sys s)) = N_AXIS"
    and "\<forall>i\<in>set (active_axes cycle_mask). half_range (set_axis_position (cfg s) i)"
    and "t = upd_sys (position_update (fold (homed_position (cfg s)) (active_axes cycle_mask))) s"
  shows "pl_position (plan_sync_position t) = map (\<lambda>i. if bit_istrue cycle_mask (bit_of i) then set_axis_position (cfg s) i
    else pl_position (plan_sync_position s) ! i) [0..<N_AXIS]"
proof -
  have "i < N_AXIS" if "i \<in> set (active_axes cycle_mask)" for i
    using that by (simp add: active_axes_def)
  then have "pl_position (plan_sync_position t) =
      fold (\<lambda>i q. q[i := set_axis_position (cfg s) i]) (active_axes cycle_mask) (pl_position (plan_sync_position s))"
    using assms(1,2) homed_fold [of "position (sys s)" "active_axes cycle_mask" "cfg s"]
    by (simp add: pl_position_sync assms(3))
  then show ?thesis
    by (intro nth_equalityI) (auto simp: length_fold_put pl_position_sync length_axis_steps fold_put_nth active_axes_def)
qed

definition homed_machine :: machine where
  "homed_machine = upd_sys (position_update (\<lambda>_. [100, 40, 7])) (zero_machine fresh_flash)"

lemma corexy_homed_example:
  "pl_position (plan_sync_position (upd_sys (position_update (fold (homed_position (cfg homed_machine)) (active_axes HOMING_CYCLE_1)))
     homed_machine)) = [70, 0, 7]"
proof -
  have n: "[0..<N_AXIS] = [0, 1, 2]" by (simp add: N_AXIS_def upt_rec)
  have c: "cfg homed_machine = zero_settings" and p: "position (sys homed_machine) = [100, 40, 7]"
    by (simp_all add: homed_machine_def zero_machine_def upd_sys_def zero_system_def)
  have set0: "set_axis_position zero_settings i = 0" if "i < N_AXIS" for i
  proof -
    have "i = 0 \<or> i = 1 \<or> i = 2" using that by (auto simp: N_AXIS_def)
    then show ?thesis
      by (auto simp: set_axis_position_def zero_settings_def zero_vec_def N_AXIS_def fl_mul_def fl_round_def fl_lround_def
          fl_round_away_def rat_round_away_def fl_to_i32_def clamp_def rat_trunc_def)
  qed
  have "set_axis_position zero_settings (Suc 0) = 0" using set0 [of 1] by (simp add: N_AXIS_def)
  then show ?thesis
    by (subst homed_axes_updates [OF _ _ refl])
      (simp_all add: n active_axes_def c p pl_position_sync axis_steps_def HOMING_CYCLE_1_def bit_istrue_def bit_of_def,
       simp_all add: N_AXIS_def system_convert_corexy_to_x_axis_steps_def system_convert_corexy_to_y_axis_steps_def
        dir_sign_def zero_settings_def i32_half_def bit_istrue_def)
qed

section \<open>The homing cycle\<close>

text \<open>A cycle that is cut off has called for a reset, and comes back aborted.\<close>

lemma cut_off_aborts: "pred_option (\<lambda>r. \<not> fst r \<longrightarrow> abort (sys (snd r))) (homing_watch approach cm lock m)"
proof (rule pred_optionI)
  fix r assume "homing_watch approach cm lock m = Some r"
  then show "\<not> fst r \<longrightarrow> abort (sys (snd r))"
  proof (induction rule: homing_watch.raw_induct [rotated, consumes 1, case_names step])
    case (step f approach cm lock m r)
    have f: "pred_option (\<lambda>r. \<not> fst r \<longrightarrow> abort (sys (snd r))) (f a b c x)" for a b c x
      by (rule pred_optionI) (use step.IH in blast)
    have cut: "pred_option (\<lambda>r. \<not> fst r \<longrightarrow> abort (sys (snd r))) (protocol_execute_realtime (mc_reset n) \<bind> (\<lambda>n. Some (False, n)))" for n
      by (rule pred_bind [OF reset_realtime]) (simp_all add: mc_reset_raises)
    show ?case
      by (rule pred_optionD [OF _ step.hyps], unfold Let_def case_prod_beta)
        (intro pred_if cut f pred_bind [where Q = "\<lambda>_. True"]; simp add: option.pred_True)
  qed
qed

lemma uncut_rounds: "pred_option (\<lambda>r. \<not> fst r \<longrightarrow> abort (sys (snd r))) (homing_rounds n cm approach travel rate m)"
proof (induction n arbitrary: approach travel rate m)
  case (Suc n)
  have any: "pred_option (\<lambda>_. True) (x :: machine option)" for x by (simp add: option.pred_True)
  show ?case
    unfolding homing_rounds.simps Let_def case_prod_beta
    by (intro pred_bind [OF any] pred_bind [OF cut_off_aborts] pred_if Suc) simp
qed simp

lemma position_updated:
  fixes m :: machine
  shows "cfg (upd_sys (position_update f) m) = cfg m" "position (sys (upd_sys (position_update f) m)) = f (position (sys m))"
    "sys (plan_sync_position m) = sys m"
  by (simp_all add: upd_sys_def plan_sync_position_def Let_def)

section \<open>A cycle that succeeds\<close>

text \<open>A homing machine with nothing planned and nothing to execute.\<close>

definition at_rest :: "settings_t \<Rightarrow> machine \<Rightarrow> bool" where
  "at_rest c m \<longleftrightarrow> cfg m = c \<and> state (sys m) = STATE_HOMING \<and> \<not> abort (sys m) \<and> position (sys m) = [0, 0, 0] \<and>
     sys_rt_exec_state m = 0 \<and> block_buffer_head m = block_buffer_tail m \<and> pl_block m = None \<and>
     segment_buffer_head m = segment_buffer_tail m \<and> exec_segment (st m) = None \<and> \<not> busy m"

text \<open>Settings for an axis Z whose travel setting has the wrong sign: the search distance comes out as zero, so that
  the cycle waits for the switch and for the end of each pull-off without a motion to plan.\<close>

definition z_homing_settings :: settings_t where
  "z_homing_settings = zero_settings\<lparr>max_travel := [Fin 0, Fin 0, Fin 4], steps_per_mm := [Fin 1, Fin 1, Fin 1],
     homing_seek_rate := Fin 6000, homing_feed_rate := Fin 3000, homing_dir_mask := HOMING_CYCLE_0\<rparr>"

abbreviation (input) resting :: "interrupt list list \<Rightarrow> machine \<Rightarrow> bool" where
  "resting es m \<equiv> at_rest z_homing_settings m \<and> future m = es"

lemma await_cons: "future m = e # es \<Longrightarrow> await m = Some (fold interrupt_step e (m\<lparr>future := es\<rparr>))"
  by (simp add: await_def)

lemma prep_at_rest: "at_rest c m \<Longrightarrow> st_prep_buffer m = Some m"
  by (subst st_prep_buffer_def, subst prep_loop.simps) (auto simp: at_rest_def load_block_def plan_get_current_block_def)

lemma z_axes: "active_axes HOMING_CYCLE_0 = [Z_AXIS]" by code_simp

lemma z_homing_fields: "steps_per_mm z_homing_settings = [Fin 1, Fin 1, Fin 1]"
  "flags z_homing_settings = 0" "dir_invert_mask z_homing_settings = 0"
  "homing_dir_mask z_homing_settings = HOMING_CYCLE_0" "homing_debounce_delay z_homing_settings = 0"
  by (simp_all add: z_homing_settings_def zero_settings_def)

lemma plan_at_rest:
  assumes "at_rest z_homing_settings m" "pl_position m = [0, 0, 0]" "z \<in> {Fin 0, NegZero}"
  shows "\<exists>n. plan_buffer_line [Fin 0, Fin 0, z] rate False m = Some n \<and> resting (future m) n"
proof -
  have l: "line_steps z_homing_settings [Fin 0, Fin 0, z] = [0, 0, 0]" using assms(3) by (elim insertE emptyE; hypsubst; code_simp)
  have e: "line_event_count (block_steps z_homing_settings (map (\<lambda>idx. 0) [0..<N_AXIS])) = 0" by code_simp
  show ?thesis
    using assms by (auto simp del: insert_iff simp: plan_buffer_line_def Let_def at_rest_def l e upd_block_def)
qed

lemma prepare_at_rest:
  assumes "at_rest z_homing_settings m"
  shows "\<exists>n. homing_prepare approach HOMING_CYCLE_0 (Fin 0) m =
    ([Fin 0, Fin 0, if approach then NegZero else Fin 0], n) \<and> resting (future m) n"
proof -
  have p: "system_convert_array_steps_to_mpos z_homing_settings [0, 0, 0] = [Fin 0, Fin 0, Fin 0]" by code_simp
  have t: "homing_target z_homing_settings a (Fin 0) Z_AXIS [Fin 0, Fin 0, Fin 0] = [Fin 0, Fin 0, if a then NegZero else Fin 0]" for a
    by (simp add: homing_target_def z_homing_fields N_AXIS_def HOMING_CYCLE_0_def bit_istrue_def bit_of_def)
  show ?thesis
    using assms t by (cases approach)
      (simp_all add: homing_prepare_def Let_def at_rest_def z_axes p zero_axis_position_def upd_sys_def N_AXIS_def)
qed

lemma sync_at_rest: "at_rest z_homing_settings m \<Longrightarrow>
    resting (future m) (plan_sync_position m) \<and> pl_position (plan_sync_position m) = [0, 0, 0]"
proof -
  assume "at_rest z_homing_settings m"
  moreover have "axis_steps z_homing_settings [0, 0, 0] = [0, 0, 0]" by code_simp
  ultimately show ?thesis by (simp add: at_rest_def plan_sync_position_def axis_steps_def Let_def)
qed

lemma wake_at_rest: "at_rest c m \<Longrightarrow>
    at_rest c (st_wake_up m) \<and> main_timer_irq (st_wake_up m) \<and> future (st_wake_up m) = future m"
  by (simp add: at_rest_def st_wake_up_def Let_def in_state_def bit_istrue_def put_steppers_disable_def upd_st_def)

lemma watch_approach:
  assumes "at_rest z_homing_settings m" "future m = [LimitPins 0xC0] # es"
  shows "\<exists>n. homing_watch True HOMING_CYCLE_0 (homing_axislock HOMING_CYCLE_0) m = Some (True, n) \<and> resting es n"
proof -
  let ?m = "m\<lparr>future := es, limit_pins := 0xC0\<rparr>"
  have l: "limits_get_state ?m = limits_get_state ((zero_machine fresh_flash)\<lparr>limit_pins := 0xC0\<rparr>)"
    using assms(1) by (simp add: limits_get_state_def at_rest_def z_homing_fields zero_machine_def zero_settings_def)
  have ls: "limits_get_state ((zero_machine fresh_flash)\<lparr>limit_pins := 0xC0\<rparr>) = 4"
    unfolding limits_get_state_def by (simp add: zero_machine_def zero_settings_def bit_isfalse_def) code_simp
  have lock: "fold (unlock_axis 4) [0..<N_AXIS] (homing_axislock HOMING_CYCLE_0) = 0" by code_simp
  have e: "limits_get_state (enable_debounce_timer n) = limits_get_state n" for n
    by (simp add: limits_get_state_def enable_debounce_timer_def)
  let ?n = "upd_sys (homing_axis_lock_update (\<lambda>_. 0)) (enable_debounce_timer ?m)"
  have w: "watch_limits (homing_axislock HOMING_CYCLE_0) ?m = (0, ?n)"
    unfolding watch_limits_def l e by (simp add: ls Let_def e l lock)
  have r: "at_rest z_homing_settings ?n"
    using assms by (simp add: at_rest_def upd_sys_def enable_debounce_timer_def)
  have n: "sys_rt_exec_state (enable_debounce_timer ?m) = 0" "future ?n = es"
    using r assms(2) by (simp_all add: at_rest_def upd_sys_def enable_debounce_timer_def)
  show ?thesis
    by (subst homing_watch.simps, unfold await_cons [OF assms(2)])
      (use r n(2) in \<open>simp add: w prep_at_rest [OF r] n(1) bit_istrue_def\<close>)
qed

lemma switch_open: "flags (cfg m) = 0 \<Longrightarrow> limit_pins m = 0xC1 \<Longrightarrow> limits_get_state m = 0"
  by (simp add: limits_get_state_def bit_isfalse_def N_AXIS_def upt_rec)

lemma tick_at_rest:
  assumes "at_rest c m" "main_timer_irq m"
  shows "\<exists>n. interrupt_step StepTick m = n\<lparr>sys_rt_exec_state := EXEC_CYCLE_STOP\<rparr> \<and>
    at_rest c n \<and> future n = future m \<and> limit_pins n = limit_pins m"
proof -
  let ?n = "interrupt_step StepTick m"
  have "sys_rt_exec_state ?n = EXEC_CYCLE_STOP" "at_rest c (?n\<lparr>sys_rt_exec_state := 0\<rparr>)"
    "future ?n = future m" "limit_pins ?n = limit_pins m"
    using assms by (simp_all add: at_rest_def MAIN_TIMER_ISR_def Let_def load_segment_def raise_exec_def bit_true_def st_go_idle_def
      SET_STEP_BITS_def SET_DIRECTION_BITS_def put_steppers_disable_def)
  then show ?thesis by (intro exI [of _ "?n\<lparr>sys_rt_exec_state := 0\<rparr>"]) simp
qed

lemma watch_pull_off:
  assumes "at_rest z_homing_settings m" "future m = [LimitPins 0xC1, StepTick] # es" "main_timer_irq m"
  shows "\<exists>n. homing_watch False HOMING_CYCLE_0 lock m = Some (True, n) \<and> resting es n"
proof -
  let ?m = "m\<lparr>future := es, limit_pins := 0xC1\<rparr>"
  have "at_rest z_homing_settings ?m" "main_timer_irq ?m" using assms by (simp_all add: at_rest_def)
  from tick_at_rest [OF this] obtain n where n: "interrupt_step StepTick ?m = n\<lparr>sys_rt_exec_state := EXEC_CYCLE_STOP\<rparr>"
    "at_rest z_homing_settings n" "future n = es" "limit_pins n = 0xC1" by auto
  let ?n = "n\<lparr>sys_rt_exec_state := EXEC_CYCLE_STOP\<rparr>"
  have p: "st_prep_buffer ?n = Some ?n"
    using n(2) by (subst st_prep_buffer_def, subst prep_loop.simps) (auto simp: at_rest_def load_block_def plan_get_current_block_def)
  have l: "limits_get_state ?n = 0"
    by (rule switch_open) (use n in \<open>simp_all add: at_rest_def z_homing_fields\<close>)
  have x: "bit_istrue EXEC_CYCLE_STOP (EXEC_SAFETY_DOOR OR EXEC_RESET OR EXEC_CYCLE_STOP)"
    "\<not> bit_istrue EXEC_CYCLE_STOP (EXEC_SAFETY_DOOR OR EXEC_RESET)"
    "bit_false EXEC_CYCLE_STOP EXEC_CYCLE_STOP = 0"
    by code_simp+
  have "n = n\<lparr>sys_rt_exec_state := 0\<rparr>" using n(2) by (simp add: at_rest_def)
  then show ?thesis
    using n(2,3) by (subst homing_watch.simps, unfold await_cons [OF assms(2)])
      (simp add: n(1) p l x Let_def clear_exec_def del: interrupt_step.simps(1))
qed

text \<open>What happens in a round: the switch closes on an approach; on a pull-off it opens and the step
  interrupt finds no segment left.\<close>

definition round_events :: "bool \<Rightarrow> interrupt list" where
  "round_events approach = (if approach then [LimitPins 0xC0] else [LimitPins 0xC1, StepTick])"

lemma watch_round:
  assumes "at_rest z_homing_settings m" "future m = round_events approach # es" "main_timer_irq m"
  shows "\<exists>n. homing_watch approach HOMING_CYCLE_0 (homing_axislock HOMING_CYCLE_0) m = Some (True, n) \<and> resting es n"
  using assms watch_approach watch_pull_off by (cases approach) (simp_all add: round_events_def)

lemma reset_at_rest: "at_rest c m \<Longrightarrow> at_rest c (plan_reset (st_reset m)) \<and> future (plan_reset (st_reset m)) = future m"
  by (simp add: at_rest_def plan_reset_def st_reset_def st_go_idle_def Let_def put_steppers_disable_def SET_STEP_BITS_def
    SET_DIRECTION_BITS_def zero_stepper_def regenerate_masks_def split: prod.split)

lemma round_at_rest:
  assumes "at_rest z_homing_settings m" "future m = round_events approach # es"
  shows "\<exists>rate' n. homing_rounds (Suc k) HOMING_CYCLE_0 approach (Fin 0) rate m =
      homing_rounds k HOMING_CYCLE_0 (\<not> approach) (Fin 0) rate' n \<and> resting es n"
proof -
  obtain z a where a: "homing_prepare approach HOMING_CYCLE_0 (Fin 0) m = ([Fin 0, Fin 0, z], a)" "z \<in> {Fin 0, NegZero}"
    "at_rest z_homing_settings a" "future a = future m" using prepare_at_rest [OF assms(1), of approach] by (cases approach) auto
  note s = sync_at_rest [OF a(3)]
  define rate' where "rate' = to_f32 (f64_mul rate (f64_sqrt (f64_of_int (int (length (active_axes HOMING_CYCLE_0))))))"
  obtain b where b: "plan_buffer_line [Fin 0, Fin 0, z] rate' False (plan_sync_position a) = Some b"
    "at_rest z_homing_settings b" "future b = future m"
    using plan_at_rest [OF _ _ a(2), of "plan_sync_position a" rate'] s a(4) by auto
  note w = wake_at_rest [OF b(2)]
  obtain n where n: "homing_watch approach HOMING_CYCLE_0 (homing_axislock HOMING_CYCLE_0) (st_wake_up b) = Some (True, n)"
    "at_rest z_homing_settings n" "future n = es" using watch_round [of "st_wake_up b" approach es] w b(3) assms(2) by auto
  have c: "cfg (plan_reset (st_reset n)) = z_homing_settings" using reset_at_rest [OF n(2)] by (simp add: at_rest_def)
  have t: "to_f32 (f64_mul (homing_pulloff z_homing_settings) HOMING_AXIS_LOCATE_SCALAR) = Fin 0"
    "to_f32 (f64_mul (Fin 0) HOMING_AXIS_LOCATE_SCALAR) = Fin 0" "homing_pulloff z_homing_settings = Fin 0" by code_simp+
  have d: "delay_ms (homing_debounce_delay z_homing_settings) x = x" for x by (simp add: delay_ms_def z_homing_fields)
  have c': "cfg n = z_homing_settings" using n(2) by (simp add: at_rest_def)
  show ?thesis
    using reset_at_rest [OF n(2)] n(3) by (simp add: a(1) b(1) prep_at_rest [OF b(2)] n(1) c c' d t Let_def flip: rate'_def) auto
qed

lemma z_homing_travel: "homing_search_travel z_homing_settings HOMING_CYCLE_0 = Fin 0" by code_simp

fun homing_events :: "nat \<Rightarrow> bool \<Rightarrow> interrupt list list" where
  "homing_events 0 approach = []"
| "homing_events (Suc k) approach = round_events approach # homing_events k (\<not> approach)"

lemma rounds_at_rest:
  "at_rest z_homing_settings m \<Longrightarrow> future m = homing_events k approach \<Longrightarrow>
    \<exists>n. homing_rounds k HOMING_CYCLE_0 approach (Fin 0) rate m = Some (True, n) \<and> at_rest z_homing_settings n"
proof (induction k arbitrary: approach rate m)
  case (Suc k)
  have e: "future m = round_events approach # homing_events k (\<not> approach)" using Suc.prems(2) by simp
  obtain rate' n where "homing_rounds (Suc k) HOMING_CYCLE_0 approach (Fin 0) rate m =
      homing_rounds k HOMING_CYCLE_0 (\<not> approach) (Fin 0) rate' n"
    "at_rest z_homing_settings n" "future n = homing_events k (\<not> approach)" using round_at_rest [OF Suc.prems(1) e] by blast
  then show ?case using Suc.IH by (simp del: homing_rounds.simps)
qed simp

text \<open>The machine at power-up with these settings, about to home its axis Z; in each round the switch closes
  for the approach, and opens before the step interrupt finds the pull-off complete.\<close>

definition z_homing_machine :: machine where
  "z_homing_machine = upd_env (settings_update (\<lambda>_. z_homing_settings)) (set_state STATE_HOMING ((zero_machine fresh_flash)
     \<lparr>future := homing_events (2 * N_HOMING_LOCATE_CYCLE + 2) True\<rparr>))"

lemma z_homing_at_rest: "at_rest z_homing_settings z_homing_machine"
  by (simp add: at_rest_def z_homing_machine_def upd_env_def upd_sys_def zero_machine_def zero_system_def zero_stepper_def)

lemma z_homing_returns: "\<exists>r. limits_go_home HOMING_CYCLE_0 z_homing_machine = Some r \<and> \<not> abort (sys r)"
proof -
  have f: "future z_homing_machine = homing_events (2 * N_HOMING_LOCATE_CYCLE + 2) True"
    by (simp add: z_homing_machine_def upd_env_def upd_sys_def)
  have z: "cfg z_homing_machine = z_homing_settings" "\<not> abort (sys z_homing_machine)"
    using z_homing_at_rest by (simp_all add: at_rest_def)
  obtain n where n: "homing_rounds (2 * N_HOMING_LOCATE_CYCLE + 2) HOMING_CYCLE_0 True (Fin 0) (homing_seek_rate z_homing_settings)
      z_homing_machine = Some (True, n)" "at_rest z_homing_settings n"
    using rounds_at_rest [OF z_homing_at_rest f] by blast
  have "sys (plan_sync_position x) = sys x" for x :: machine by (simp add: plan_sync_position_def Let_def)
  then show ?thesis
    using z n by (simp add: limits_go_home_def z_homing_travel at_rest_def upd_sys_def)
qed

text \<open>C15: Whatever the switches and the other interrupts do, homing comes back either aborted or with the
  position set: seen as axis steps each axis of the cycle stands at its pull-off position, although on
  CoreXY both of the axes X and Y are driven by both motors, and the planner starts from there.\<close>

theorem homing_sets_position:
  assumes "machine_ok m" and "\<forall>i\<in>set (active_axes cycle_mask). half_range (set_axis_position (cfg m) i)"
  shows "pred_option (\<lambda>r. abort (sys r) \<or> pl_position r = axis_steps (cfg m) (position (sys r)) \<and>
      (\<forall>i\<in>set (active_axes cycle_mask). pl_position r ! i = set_axis_position (cfg m) i))
    (limits_go_home cycle_mask m)"
proof (cases "abort (sys m)")
  case False
  let ?rounds = "homing_rounds (2 * N_HOMING_LOCATE_CYCLE + 2) cycle_mask True (homing_search_travel (cfg m) cycle_mask)
    (homing_seek_rate (cfg m)) m"
  let ?done = "\<lambda>n. plan_sync_position (upd_sys (position_update (fold (homed_position (cfg n)) (active_axes cycle_mask))) n)"
  define homed where "homed r \<longleftrightarrow> pl_position r = axis_steps (cfg m) (position (sys r)) \<and>
      (\<forall>i\<in>set (active_axes cycle_mask). pl_position r ! i = set_axis_position (cfg m) i)" for r :: machine
  have home: "limits_go_home cycle_mask m = ?rounds \<bind> (\<lambda>(done, n). if \<not> done then Some n else Some (?done n))"
    using False by (simp add: limits_go_home_def)
  have ok: "pred_option (\<lambda>r. ok_with (cfg m) (snd r)) ?rounds"
    by (rule homing.P_homing_rounds) (simp add: ok_with_def assms(1))
  have both: "pred_option (\<lambda>r. ok_with (cfg m) (snd r) \<and> (\<not> fst r \<longrightarrow> abort (sys (snd r)))) ?rounds"
    by (rule pred_optionI) (use pred_optionD [OF ok] pred_optionD [OF uncut_rounds] in blast)
  have set: "homed (?done n)" if "ok_with (cfg m) n" for n
  proof -
    have n: "length (position (sys n)) = N_AXIS" "cfg n = cfg m" using that by (simp_all add: ok_with_def ok_defs)
    have "\<forall>i\<in>set (active_axes cycle_mask). pl_position (?done n) ! i = set_axis_position (cfg n) i"
      using homed_axes_updates [OF n(1) _ refl, of cycle_mask] assms(2) n(2)
      by (auto simp: active_axes_def)
    then show ?thesis using n(2) by (simp add: homed_def pl_position_sync position_updated)
  qed
  show ?thesis
    unfolding homed_def [symmetric] home by (rule pred_bind [OF both]) (use set in auto)
qed (simp add: limits_go_home_def)

theorem homing_sets_position_witness:
  "\<exists>r. limits_go_home HOMING_CYCLE_0 z_homing_machine = Some r \<and> \<not> abort (sys r) \<and>
     pl_position r = axis_steps z_homing_settings (position (sys r)) \<and> pl_position r ! Z_AXIS = 4"
proof -
  obtain r where r: "limits_go_home HOMING_CYCLE_0 z_homing_machine = Some r" "\<not> abort (sys r)"
    using z_homing_returns by blast
  have ok: "machine_ok z_homing_machine"
    unfolding z_homing_machine_def by (intro mach.P_env mach.P_set_state machine_ok_zero) simp
  have c: "cfg z_homing_machine = z_homing_settings" by (simp add: z_homing_machine_def upd_env_def)
  have v: "set_axis_position z_homing_settings 2 = 4" by code_simp
  have "half_range 4" by simp
  with homing_sets_position [OF ok, of HOMING_CYCLE_0] have "pl_position r = axis_steps z_homing_settings (position (sys r)) \<and>
      (\<forall>i\<in>set [Z_AXIS]. pl_position r ! i = set_axis_position z_homing_settings i)"
    unfolding z_axes c using r v by auto
  with r v show ?thesis by auto
qed

end
