(* ===== verification/CheckMode.thy ===== *)
theory CheckMode
  imports GcodeExec StepInvariant GcodeParse
begin

text \<open>
  The g-code check mode (\<open>$C\<close>): lines are read, checked and executed on the parser state, but
  nothing is moved, switched or waited for.
\<close>

text \<open>A machine that differs from \<open>m\<close> in the parser state and the flash only.\<close>

definition parser_only :: "machine \<Rightarrow> machine \<Rightarrow> bool" where
  "parser_only m r = (\<exists>g f. r = put_nvm f (m\<lparr>gc_state := g\<rparr>))"

lemma parser_only_refl: "parser_only m m"
  unfolding parser_only_def put_nvm_def upd_env_def by (intro exI [of _ "gc_state m"] exI [of _ "nvm (env m)"]) simp

lemma parser_only_gc: "parser_only m n \<Longrightarrow> parser_only m (upd_gc f n)"
proof -
  have "upd_gc f (put_nvm x (m\<lparr>gc_state := g\<rparr>)) = put_nvm x (m\<lparr>gc_state := f g\<rparr>)" for x g
    by (cases m) (simp add: put_nvm_def upd_env_def upd_gc_def)
  then show "parser_only m n \<Longrightarrow> parser_only m (upd_gc f n)" unfolding parser_only_def by blast
qed

lemma parser_only_nvm: "parser_only m n \<Longrightarrow> parser_only m (put_nvm f n)"
proof -
  have "put_nvm f (put_nvm x n) = put_nvm f n" for x n by (simp add: put_nvm_def upd_env_def)
  then show "parser_only m n \<Longrightarrow> parser_only m (put_nvm f n)" unfolding parser_only_def by metis
qed

lemma parser_only_fields: "parser_only m n \<Longrightarrow> sys n = sys m \<and> flags (cfg n) = flags (cfg m)"
  by (auto simp: parser_only_def put_nvm_def upd_env_def)

section \<open>What is skipped in check mode\<close>

abbreviation dry_run :: "machine \<Rightarrow> bool" where
  "dry_run m \<equiv> state (sys m) = STATE_CHECK_MODE \<and> bit_isfalse (flags (cfg m)) BITFLAG_SOFT_LIMIT_ENABLE"

text \<open>A computation that comes back, with a result as required.\<close>

definition returns :: "('a \<Rightarrow> bool) \<Rightarrow> 'a option \<Rightarrow> bool" where
  "returns P x = (\<exists>r. x = Some r \<and> P r)"

lemma returns_Some [simp]: "returns P (Some r) = P r"
  by (simp add: returns_def)

lemma returns_bind: "returns Q x \<Longrightarrow> (\<And>r. Q r \<Longrightarrow> returns P (f r)) \<Longrightarrow> returns P (x \<bind> f)"
  by (auto simp: returns_def)

lemma returns_if: "returns P x \<Longrightarrow> returns P y \<Longrightarrow> returns P (if b then x else y)"
  by simp

lemma returnsI: "P r \<Longrightarrow> returns P (Some r)" "Q m \<Longrightarrow> returns (\<lambda>r. Q (snd r)) (Some (t, m))"
  by simp_all

text \<open>Coordinate data is always written: the copy loops stay inside the sector.\<close>

lemma copy_words_total: "stop + 4 \<le> FLASH_SECTOR_SIZE \<Longrightarrow> \<exists>g. copy_words start stop i f = Some g"
proof (induction start stop i f rule: copy_words.induct)
  case (1 start stop i f)
  show ?case
  proof (cases "start + 4 * i < stop")
    case True
    then show ?thesis using 1 by (subst copy_words.simps) (simp add: flash_addresses)
  qed (subst copy_words.simps, simp)
qed

lemma settings_write_coord_returns: "returns (\<lambda>_. True) (settings_write_coord_data cs v f)"
proof -
  have "unat cs < 2 ^ LENGTH(8)" by (rule unsigned_less)
  then have first: "EFLASH_ADDR_PARAMETERS_OFFSET + unat cs * (4 * (N_AXIS + 1)) + 4 \<le> FLASH_SECTOR_SIZE"
    by (simp add: flash_addresses N_AXIS_def)
  have second: "EFLASH_ERASE_AND_RESTORE_OFFSET + 4 \<le> FLASH_SECTOR_SIZE" by (simp add: flash_addresses)
  show ?thesis
    using copy_words_total [OF first, of 0 0] copy_words_total [OF second]
    by (simp add: settings_write_coord_data_def copy_from_main_to_copy_def Let_def returns_def) (metis bind.bind_lunit)
qed

named_theorems check_mode

lemma dry_run_fields: "dry_run m \<Longrightarrow> parser_only m n \<Longrightarrow> dry_run n"
  by (simp add: parser_only_fields)

lemma mc_line_check [check_mode]: "dry_run m \<Longrightarrow> mc_line target feed iv m = Some m"
  by (simp add: mc_line_def bit_isfalse_iff)

lemma spindle_run_check [check_mode]: "dry_run m \<Longrightarrow> spindle_run mode rpm m = Some m"
  by (simp add: spindle_run_def)

lemma coolant_run_check [check_mode]: "dry_run m \<Longrightarrow> coolant_run mode m = Some m"
  by (simp add: coolant_run_def)

lemma mc_dwell_check [check_mode]: "dry_run m \<Longrightarrow> mc_dwell t m = Some m"
  by (simp add: mc_dwell_def)

lemma mc_probe_check [check_mode]: "dry_run m \<Longrightarrow> mc_probe_cycle target feed iv away quiet m = Some (target, m)"
  by (simp add: mc_probe_cycle_def)

lemma rapid_check [check_mode]: "dry_run m \<Longrightarrow> rapid_to target m = Some m"
  by (simp add: rapid_to_def check_mode)

lemma arc_segments_check:
  "dry_run m \<Longrightarrow> parser_only m n \<Longrightarrow> returns (\<lambda>r. parser_only m (snd r)) (arc_segments lm a feed iv k i v n)"
proof (induction k arbitrary: i v n)
  case (Suc k)
  let ?n = "upd_gc (gc_position_update (arc_point a (rotate_arc_vector lm a i v))) n"
  have n: "parser_only m ?n" by (rule parser_only_gc [OF Suc.prems(2)])
  note c = dry_run_fields [OF Suc.prems(1) n]
  show ?case
    unfolding arc_segments.simps Let_def mc_line_check [OF c] bind.bind_lunit
    by (intro returns_if returnsI n Suc.IH Suc.prems(1))
qed simp

lemma mc_arc_check:
  assumes "dry_run m" "parser_only m n"
  shows "returns (parser_only m) (mc_arc lm target offset radius feed iv axes cw n)"
proof -
  have line: "returns (parser_only m) (mc_line t f i (snd r))" if "parser_only m (snd r)" for t f i and r :: "bool \<times> machine"
    using that mc_line_check [OF dry_run_fields [OF assms(1) that]] by simp
  show ?thesis
    unfolding mc_arc_def Let_def case_prod_beta
    by (intro returns_bind [where Q = "\<lambda>r. parser_only m (snd r)"] returns_if returnsI arc_segments_check assms line) simp_all
qed

section \<open>A line in check mode\<close>

lemma exec_settings_check:
  assumes "dry_run m" "parser_only m n"
  shows "returns (parser_only m) (exec_settings l n)"
proof -
  have c: "dry_run k" if "parser_only m k" for k by (rule dry_run_fields [OF assms(1) that])
  have speed: "returns (parser_only m) (exec_spindle_speed l k)" if "parser_only m k" for k
    using that c [OF that] by (simp add: exec_spindle_speed_def Let_def check_mode parser_only_gc)
  have spindle: "returns (parser_only m) (exec_spindle l k)" if "parser_only m k" for k
    using that c [OF that] by (simp add: exec_spindle_def Let_def check_mode parser_only_gc)
  have coolant: "returns (parser_only m) (exec_coolant l k)" if "parser_only m k" for k
    using that c [OF that] by (simp add: exec_coolant_def Let_def check_mode parser_only_gc)
  have dwell: "returns (parser_only m) (mc_dwell t k)" if "parser_only m k" for t k
    using that mc_dwell_check [OF c [OF that]] by simp
  have modes: "parser_only m (exec_modes l k)" if "parser_only m k" for k
    using that by (simp add: exec_modes_def exec_tool_length_def exec_coord_select_def Let_def parser_only_gc)
  show ?thesis
    unfolding exec_settings_def Let_def
    by (intro returns_bind [where Q = "parser_only m"] speed spindle coolant dwell modes returns_if returnsI parser_only_gc assms)
qed

lemma exec_non_modal_check:
  assumes "dry_run m" "parser_only m n"
  shows "returns (parser_only m) (exec_non_modal l n)"
proof -
  have rapid: "returns (parser_only m) (rapid_to t k)" if "parser_only m k" for t k
    using that rapid_check [OF dry_run_fields [OF assms(1) that]] by simp
  show ?thesis
    unfolding exec_non_modal_def Let_def
    by (intro returns_if returnsI returns_bind [where Q = "parser_only m"] rapid parser_only_gc assms
        returns_bind [where Q = "\<lambda>_. True" and x = "settings_write_coord_data i d f" for i d f])
      (simp_all add: settings_write_coord_returns parser_only_gc parser_only_nvm assms rapid)
qed

lemma run_motion_check:
  assumes "dry_run m" "parser_only m n"
  shows "returns (\<lambda>r. parser_only m (snd r)) (run_motion lm l n)"
proof -
  note c = dry_run_fields [OF assms]
  have keep: "returns (\<lambda>r. parser_only m (snd r)) (map_option (Pair t) x)" if "returns (parser_only m) x" for t :: "fl vec" and x
    using that by (auto simp: returns_def)
  show ?thesis
    unfolding run_motion_def Let_def rapid_check [OF c] mc_line_check [OF c] mc_probe_check [OF c]
    by (intro returns_if keep mc_arc_check returnsI assms)
qed

lemma exec_motion_check:
  "dry_run m \<Longrightarrow> parser_only m n \<Longrightarrow> returns (parser_only m) (exec_motion lm l n)"
  unfolding exec_motion_def Let_def case_prod_beta
  by (intro returns_if returnsI returns_bind [where Q = "\<lambda>r. parser_only m (snd r)"] run_motion_check parser_only_gc)

text \<open>C19: In check mode, with soft limits off, a line without program flow words changes the parser state
  and the stored coordinate data at most.  Planner, steppers, spindle, coolant, position, flags and
  everything sent to the host stay as they are, and no interrupt is waited for: the line comes back whatever
  the environment does.\<close>

theorem check_mode_moves_nothing:
  assumes "state (sys m) = STATE_CHECK_MODE" and "bit_isfalse (flags (cfg m)) BITFLAG_SOFT_LIMIT_ENABLE"
    and "gc_read_block line (gc_state m) (nvm (env m)) = Some (status, l)"
    and "status = STATUS_OK \<longrightarrow> program_flow (bmodal l) = 0"
  shows "\<exists>r g f. gc_execute_line lm line m = Some r \<and> snd r = put_nvm f (m\<lparr>gc_state := g\<rparr>)"
proof -
  have n: "parser_only m (put_nvm (gc_nvm l) m)" by (intro parser_only_nvm parser_only_refl)
  have c: "dry_run m" using assms(1,2) by simp
  have flow: "returns (\<lambda>r. parser_only m (snd r)) (exec_program_flow l k)" if "parser_only m k" "status = STATUS_OK" for k
    using that assms(4) by (simp add: exec_program_flow_def Let_def parser_only_gc)
  have "returns (\<lambda>r. parser_only m (snd r)) (gc_execute_line lm line m)"
  proof (cases "status = STATUS_OK")
    case True
    then show ?thesis
      unfolding gc_execute_line_def assms(3) bind.bind_lunit Let_def prod.case gc_execute_block_def
      by (simp, intro returns_bind [where Q = "parser_only m"] exec_settings_check exec_non_modal_check exec_motion_check c n flow)
        simp_all
  qed (simp add: gc_execute_line_def assms(3) n)
  then show ?thesis by (auto simp: parser_only_def returns_def)
qed

definition checking_machine :: machine where
  "checking_machine = set_state STATE_CHECK_MODE (zero_machine \<lparr>mem = (\<lambda>_. 0), flog = []\<rparr>)"

text \<open>The line \<open>M8\<close>, which turns the coolant on in any other mode.\<close>

theorem check_mode_moves_nothing_witness:
  "\<exists>r g f. gc_execute_line \<lparr>m_sin = id, m_cos = id, m_atan2 = (\<lambda>x y. x)\<rparr> (bytes ''M8'') checking_machine = Some r \<and>
     snd r = put_nvm f (checking_machine\<lparr>gc_state := g\<rparr>)"
proof -
  have gs: "gc_state checking_machine = zero_parser_state" "nvm (env checking_machine) = \<lparr>mem = (\<lambda>_. 0), flog = []\<rparr>"
    by (simp_all add: checking_machine_def zero_machine_def upd_sys_def)
  let ?l = "gc_locals_init zero_parser_state \<lparr>mem = (\<lambda>_. 0), flog = []\<rparr>"
  have p: "gc_parse (bytes ''M8'') 0 l = Some (gc_word 77 (Fin 8) l)" for l
    by (rule gc_parse_one_word [where cc' = 2]) code_simp+
  have "map_option (\<lambda>(status, l). (status, program_flow (bmodal l)))
      (case gc_word 77 (Fin 8) ?l of Inl e \<Rightarrow> Some (e, ?l) | Inr l \<Rightarrow> gc_check_block zero_parser_state l) = Some (STATUS_OK, 0)"
    by code_simp
  then have "map_option (\<lambda>(status, l). (status, program_flow (bmodal l)))
      (gc_read_block (bytes ''M8'') zero_parser_state \<lparr>mem = (\<lambda>_. 0), flog = []\<rparr>) = Some (STATUS_OK, 0)"
    by (simp add: gc_read_block_def p Let_def)
  then obtain l where "gc_read_block (bytes ''M8'') zero_parser_state \<lparr>mem = (\<lambda>_. 0), flog = []\<rparr> = Some (STATUS_OK, l)" "program_flow (bmodal l) = 0"
    by (auto simp: map_option_eq_Some)
  then show ?thesis
    by (intro check_mode_moves_nothing) (simp_all add: gs, simp_all add: checking_machine_def upd_sys_def zero_machine_def zero_settings_def bit_isfalse_def)
qed

end
