(* ===== verification/LineInput.thy ===== *)
theory LineInput
  imports Command StepInvariant
begin

text \<open>
  From bytes to lines.  What \<open>protocol_main_loop\<close> does with the characters of the receive buffer,
  compared with a function on lists: comments, white space and block deletes go, letters are
  raised to upper case, and the rest is the line that is executed.
\<close>

section \<open>The line as a list\<close>

definition upper :: "u8 \<Rightarrow> u8" where
  "upper c = (if c \<ge> 97 \<and> c \<le> 122 then c - 97 + 65 else c)"

abbreviation skipped :: "u8 \<Rightarrow> bool" where
  "skipped c \<equiv> c \<le> 32 \<or> c = 47"

function strip_line :: "u8 list \<Rightarrow> u8 list" where
  "strip_line [] = []"
| "strip_line (c # cs) =
     (if c = 40 then strip_line (tl (dropWhile (\<lambda>d. d \<noteq> 41) cs))
      else if c = 59 then []
      else if skipped c then strip_line cs
      else upper c # strip_line cs)"
  by pat_completeness auto
termination
  by (relation "measure length") (auto simp: less_Suc_eq_le intro: le_trans [OF diff_le_self length_dropWhile_le])

lemma upper_significant: "\<not> skipped c \<Longrightarrow> upper c \<noteq> 0"
  by (auto simp: upper_def)

lemma strip_line_nonzero: "0 \<notin> set (strip_line cs)"
  by (induction cs rule: strip_line.induct) (auto simp: upper_significant dest: upper_significant)

section \<open>The filter on a list of characters\<close>

definition filter_chars :: "u8 list \<Rightarrow> line_state \<times> machine \<Rightarrow> line_state \<times> machine" where
  "filter_chars cs = fold (\<lambda>c (ls, m). filter_char c ls m) cs"

lemma filter_chars_simps [simp]:
  "filter_chars [] x = x"
  "filter_chars (c # cs) (ls, m) = filter_chars cs (filter_char c ls m)"
  by (simp_all add: filter_chars_def)

lemma filter_in_semicolon: "comment ls = COMMENT_TYPE_SEMICOLON \<Longrightarrow> filter_chars cs (ls, m) = (ls, m)"
  by (induction cs) (simp_all add: filter_char_def Let_def)

lemma filter_in_parentheses:
  "comment ls = COMMENT_TYPE_PARENTHESES \<Longrightarrow>
   filter_chars cs (ls, m) = (if 41 \<in> set cs then filter_chars (tl (dropWhile (\<lambda>d. d \<noteq> 41) cs)) (ls\<lparr>comment := COMMENT_NONE\<rparr>, m)
     else (ls, m))"
  by (induction cs) (auto simp: filter_char_def Let_def)

definition line_at :: "u8 list \<Rightarrow> line_state \<Rightarrow> machine \<Rightarrow> bool" where
  "line_at l ls m = (length (line_buf m) = LINE_BUFFER_SIZE \<and> unat (line_char_counter ls) = length l \<and>
     take (length l) (line_buf m) = l)"

lemma filter_strip:
  assumes "comment ls = COMMENT_NONE" "line_at l ls m" "length l + length (strip_line cs) < LINE_BUFFER_SIZE"
  shows "\<exists>ls' b. filter_chars cs (ls, m) = (ls', put_line b m) \<and> line_at (l @ strip_line cs) ls' (put_line b m)"
  using assms
proof (induction cs arbitrary: ls l m rule: strip_line.induct)
  case 1
  have "put_line (line_buf m) m = m" by (simp add: put_line_def)
  then show ?case using 1 by (intro exI [of _ ls] exI [of _ "line_buf m"]) simp
next
  case step: (2 c cs)
  have id: "put_line (line_buf m) m = m" by (simp add: put_line_def)
  have keep: "\<exists>ls' b. ls\<lparr>comment := x\<rparr> = ls' \<and> m = put_line b m \<and> line_at l ls' (put_line b m)" for x
    using step(5) id by (intro exI [of _ "ls\<lparr>comment := x\<rparr>"] exI [of _ "line_buf m"]) (simp add: line_at_def)
  consider "c = 40" | "c = 59" | "skipped c" | "c \<noteq> 40" "c \<noteq> 59" "\<not> skipped c" by blast
  then show ?case
  proof cases
    case 1
    have paren: "filter_char c ls m = (ls\<lparr>comment := COMMENT_TYPE_PARENTHESES\<rparr>, m)"
      using 1 step(4) by (simp add: filter_char_def Let_def)
    show ?thesis
    proof (cases "41 \<in> set cs")
      case True
      then show ?thesis
        using step(1) [OF 1, of "ls\<lparr>comment := COMMENT_NONE\<rparr>" l m] step(4-6) 1 paren
        by (simp add: filter_in_parentheses line_at_def)
    next
      case False
      then have d: "dropWhile (\<lambda>d. d \<noteq> 41) cs = []" by (auto simp: dropWhile_eq_Nil_conv)
      have "strip_line (c # cs) = []" by (simp only: strip_line.simps 1 d if_True list.sel simp_thms)
      then show ?thesis
        using False keep [of COMMENT_TYPE_PARENTHESES] paren by (simp add: filter_in_parentheses del: strip_line.simps(2))
    qed
  next
    case 2
    have "filter_char c ls m = (ls\<lparr>comment := COMMENT_TYPE_SEMICOLON\<rparr>, m)"
      using 2 step(4) by (simp add: filter_char_def Let_def)
    then show ?thesis
      using 2 keep [of COMMENT_TYPE_SEMICOLON] by (simp add: filter_in_semicolon)
  next
    case 3
    then have "filter_char c ls m = (ls, m)" using step(4) by (auto simp: filter_char_def Let_def)
    then show ?thesis
      using 3 step(2) [OF _ _ 3 step(4-5)] step(6) by auto
  next
    case 4
    have n: "unat (line_char_counter ls) = length l" "length l < 79" using step(5,6) 4 by (simp_all add: line_at_def LINE_BUFFER_SIZE_def)
    then have "\<not> line_char_counter ls \<ge> of_nat LINE_BUFFER_SIZE - 1"
      by (simp add: word_le_nat_alt LINE_BUFFER_SIZE_def)
    then have f: "filter_char c ls m = (ls\<lparr>line_char_counter := line_char_counter ls + 1\<rparr>,
        put_line ((line_buf m)[length l := upper c]) m)"
      using 4 step(4) n(1) by (simp add: filter_char_def Let_def upper_def)
    have "unat (line_char_counter ls + 1) = length l + 1" using n by (simp add: unat_word_ariths)
    then have "line_at (l @ [upper c]) (ls\<lparr>line_char_counter := line_char_counter ls + 1\<rparr>) (put_line ((line_buf m)[length l := upper c]) m)"
      using step(5) n by (simp add: line_at_def put_line_def take_Suc_conv_app_nth LINE_BUFFER_SIZE_def take_update_cancel)
    from step(3) [OF _ _ _ _ this] show ?thesis
      using 4 step(4,6) f by (auto simp: put_line_def)
  qed
qed

section \<open>Reading from the serial port\<close>

abbreviation plain_char :: "u8 \<Rightarrow> bool" where
  "plain_char c \<equiv> c \<noteq> 10 \<and> c \<noteq> 13 \<and> c \<noteq> SERIAL_NO_DATA"

definition put_ser :: "serial \<Rightarrow> machine \<Rightarrow> machine" where
  "put_ser s m = m\<lparr>ser := s\<rparr>"

lemma filter_char_ser: "filter_char c ls (put_ser s m) = map_prod id (put_ser s) (filter_char c ls m)"
  by (simp add: filter_char_def Let_def put_ser_def put_line_def emit_def)

lemma filter_chars_ser: "filter_chars cs (ls, put_ser s m) = map_prod id (put_ser s) (filter_chars cs (ls, m))"
proof (induction cs arbitrary: ls m)
  case (Cons c cs)
  then show ?case by (cases "filter_char c ls m") (simp add: filter_char_ser)
qed simp

lemma filter_chars_keep_ser: "ser (snd (filter_chars cs (ls, m))) = ser m"
proof (induction cs arbitrary: ls m)
  case (Cons c cs)
  have "ser (snd (filter_char c ls m)) = ser m" by (simp add: filter_char_def Let_def put_line_def emit_def)
  then show ?case using Cons by (cases "filter_char c ls m") simp
qed simp

lemma process_serial_char:
  assumes "rx_inv (ser m)" "rx_contents (ser m) = c # rest" "c \<noteq> SERIAL_NO_DATA"
  shows "\<exists>s. rx_inv s \<and> rx_contents s = rest \<and>
    process_serial lm bd ls m = process_char lm bd c ls (put_ser s m) \<bind> (\<lambda>(ls, m). process_serial lm bd ls m)"
proof -
  have r: "rx_inv (snd (serial_read (ser m)))" "fst (serial_read (ser m)) = c" "rx_contents (snd (serial_read (ser m))) = rest"
    using serial_read_step [OF assms(1)] assms(2) by simp_all
  then show ?thesis
    using assms(3) by (intro exI [of _ "snd (serial_read (ser m))"]) (subst process_serial.simps, simp add: case_prod_beta put_ser_def Let_def)
qed

lemma put_ser_twice [simp]: "put_ser s (put_ser s' m) = put_ser s m" "ser (put_ser s m) = s"
  by (simp_all add: put_ser_def)

lemma process_serial_chars:
  assumes "rx_inv (ser m)" "rx_contents (ser m) = cs @ rest" "\<forall>c\<in>set cs. plain_char c"
  shows "\<exists>s. rx_inv s \<and> rx_contents s = rest \<and>
    process_serial lm bd ls m = (case filter_chars cs (ls, put_ser s m) of (ls, m) \<Rightarrow> process_serial lm bd ls m)"
  using assms
proof (induction cs arbitrary: ls m)
  case Nil
  have "put_ser (ser m) m = m" by (simp add: put_ser_def)
  with Nil show ?case by (intro exI [of _ "ser m"]) simp
next
  case (Cons c cs)
  from process_serial_char [OF Cons.prems(1), of c "cs @ rest" lm bd ls] Cons.prems
  obtain s where s: "rx_inv s" "rx_contents s = cs @ rest"
    and p: "process_serial lm bd ls m = process_char lm bd c ls (put_ser s m) \<bind> (\<lambda>(ls, m). process_serial lm bd ls m)" by auto
  obtain ls1 m1 where f: "filter_char c ls m = (ls1, m1)" by fastforce
  then have "process_serial lm bd ls m = process_serial lm bd ls1 (put_ser s m1)"
    using p Cons.prems(3) by (simp add: process_char_def filter_char_ser)
  moreover obtain s' where "rx_inv s'" "rx_contents s' = rest"
      "process_serial lm bd ls1 (put_ser s m1) = (case filter_chars cs (ls1, put_ser s' m1) of (ls, m) \<Rightarrow> process_serial lm bd ls m)"
    using Cons.IH [of "put_ser s m1" ls1] s Cons.prems(3) by auto
  ultimately show ?case
    using f by (intro exI [of _ s']) (simp add: filter_char_ser)
qed

lemma cstring_line:
  assumes "line_at l ls (put_line b m)" "length l < LINE_BUFFER_SIZE" "0 \<notin> set l"
  shows "cstring (b[unat (line_char_counter ls) := 0]) = l"
proof -
  have b: "unat (line_char_counter ls) = length l" "take (length l) b = l" "length l < length b"
    using assms by (simp_all add: line_at_def put_line_def)
  then have "b[length l := 0] = l @ 0 # drop (Suc (length l)) b"
    by (simp add: upd_conv_take_nth_drop)
  moreover have "takeWhile (\<lambda>c. c \<noteq> 0) (l @ 0 # r) = l @ takeWhile (\<lambda>c. c \<noteq> 0) (0 # r)" for r
    by (rule takeWhile_append2) (use assms(3) in auto)
  ultimately show ?thesis unfolding cstring_def b(1) by simp
qed

text \<open>C14: A line of received characters, ended by a line feed or carriage return, reaches the executor as
  exactly its significant characters in upper case, without comments, spaces, control characters and
  block deletes, as a C string in the line buffer, and the filter is left as new for the next line;
  the line has to have at most 79 significant characters.\<close>

theorem line_received:
  assumes "rx_inv (ser m)" and "rx_contents (ser m) = cs @ e # rest" and "e = 10 \<or> e = 13"
    and "\<forall>c\<in>set cs. plain_char c" and "length (line_buf m) = LINE_BUFFER_SIZE"
    and "length (strip_line cs) < LINE_BUFFER_SIZE"
  shows "\<exists>l s. cstring l = strip_line cs \<and> length l = LINE_BUFFER_SIZE \<and> rx_inv s \<and> rx_contents s = rest \<and>
    process_serial lm bd new_line m = protocol_execute_line lm bd (m\<lparr>ser := s, line_buf := l\<rparr>) \<bind> process_serial lm bd new_line"
proof -
  obtain s1 where s1: "rx_inv s1" "rx_contents s1 = e # rest"
    and p1: "process_serial lm bd new_line m = (case filter_chars cs (new_line, put_ser s1 m) of (ls, m) \<Rightarrow> process_serial lm bd ls m)"
    using process_serial_chars [OF assms(1,2,4)] by blast
  have new: "comment new_line = COMMENT_NONE" "line_at [] new_line (put_ser s1 m)"
    using assms(5) by (simp_all add: new_line_def line_at_def put_ser_def)
  from filter_strip [OF new, of cs] assms(6) obtain ls b where
    f: "filter_chars cs (new_line, put_ser s1 m) = (ls, put_line b (put_ser s1 m))" "line_at (strip_line cs) ls (put_line b (put_ser s1 m))"
    by auto
  let ?m = "put_line b (put_ser s1 m)" and ?l = "b[unat (line_char_counter ls) := 0]"
  have "e \<noteq> SERIAL_NO_DATA" using assms(3) by (auto simp: SERIAL_NO_DATA_def)
  with process_serial_char [of ?m e rest lm bd ls] s1 obtain s where s: "rx_inv s" "rx_contents s = rest"
    and p: "process_serial lm bd ls ?m = process_char lm bd e ls (put_ser s ?m) \<bind> (\<lambda>(ls, m). process_serial lm bd ls m)"
    by (auto simp: put_line_def put_ser_def)
  have m: "put_line ?l (put_ser s ?m) = m\<lparr>ser := s, line_buf := ?l\<rparr>" "line_buf (put_ser s ?m) = b"
    by (simp_all add: put_line_def put_ser_def)
  have "process_serial lm bd ls ?m = protocol_execute_line lm bd (m\<lparr>ser := s, line_buf := ?l\<rparr>) \<bind> process_serial lm bd new_line"
    using assms(3) unfolding p process_char_def m by (cases "protocol_execute_line lm bd (m\<lparr>ser := s, line_buf := ?l\<rparr>)") auto
  moreover have "cstring ?l = strip_line cs" by (rule cstring_line [OF f(2) assms(6) strip_line_nonzero])
  moreover have "length ?l = LINE_BUFFER_SIZE" using f(2) by (simp add: line_at_def put_line_def)
  ultimately show ?thesis
    using s p1 by (intro exI [of _ ?l] exI [of _ s]) (simp add: f(1))
qed

section \<open>Lines that are too long\<close>

lemma filter_no_comment:
  "\<forall>c\<in>set cs. c \<noteq> 40 \<and> c \<noteq> 59 \<Longrightarrow> comment ls = COMMENT_NONE \<Longrightarrow> comment (fst (filter_chars cs (ls, m))) = COMMENT_NONE"
proof (induction cs arbitrary: ls m)
  case (Cons c cs)
  have "comment (fst (filter_char c ls m)) = COMMENT_NONE"
    using Cons.prems by (simp add: filter_char_def Let_def new_line_def)
  then show ?case using Cons by (cases "filter_char c ls m") simp
qed simp

text \<open>C21: The 80th significant character of a line is refused with the overflow message and the line so far
  is dropped, but the rest of the same line is taken as a line of its own: the filter goes on as at the
  start of a line with the characters that follow.\<close>

theorem overlong_line_restarts:
  assumes "rx_inv (ser m)" and "rx_contents (ser m) = cs @ c # rest"
    and "\<forall>c\<in>set (cs @ [c]). plain_char c \<and> c \<noteq> 40 \<and> c \<noteq> 59" and "\<not> skipped c"
    and "length (line_buf m) = LINE_BUFFER_SIZE" and "length (strip_line cs) = LINE_BUFFER_SIZE - 1"
  shows "\<exists>b s. rx_inv s \<and> rx_contents s = rest \<and> process_serial lm bd new_line m =
    process_serial lm bd new_line (emit (report_status_message STATUS_OVERFLOW) (m\<lparr>ser := s, line_buf := b\<rparr>))"
proof -
  have plain: "\<forall>c\<in>set cs. plain_char c" using assms(3) by simp
  obtain s1 where s1: "rx_inv s1" "rx_contents s1 = c # rest"
    and p1: "process_serial lm bd new_line m = (case filter_chars cs (new_line, put_ser s1 m) of (ls, m) \<Rightarrow> process_serial lm bd ls m)"
    using process_serial_chars [OF assms(1,2) plain] by blast
  have new: "comment new_line = COMMENT_NONE" "line_at [] new_line (put_ser s1 m)"
    using assms(5) by (simp_all add: new_line_def line_at_def put_ser_def)
  from filter_strip [OF new, of cs] assms(6) obtain ls b where
    f: "filter_chars cs (new_line, put_ser s1 m) = (ls, put_line b (put_ser s1 m))" "line_at (strip_line cs) ls (put_line b (put_ser s1 m))"
    by (auto simp: LINE_BUFFER_SIZE_def)
  have none: "comment ls = COMMENT_NONE"
    using filter_no_comment [of cs new_line "put_ser s1 m"] f(1) new(1) assms(3) by simp
  have n: "unat (line_char_counter ls) = 79" using f(2) assms(6) by (simp add: line_at_def LINE_BUFFER_SIZE_def)
  let ?m = "put_line b (put_ser s1 m)"
  from process_serial_char [of ?m c rest lm bd ls] s1 assms(3) obtain s where s: "rx_inv s" "rx_contents s = rest"
    and p: "process_serial lm bd ls ?m = process_char lm bd c ls (put_ser s ?m) \<bind> (\<lambda>(ls, m). process_serial lm bd ls m)"
    by (auto simp: put_line_def put_ser_def)
  have "of_nat LINE_BUFFER_SIZE - 1 \<le> line_char_counter ls"
    using n by (simp add: word_le_nat_alt LINE_BUFFER_SIZE_def)
  then have "filter_char c ls (put_ser s ?m) = (new_line, emit (report_status_message STATUS_OVERFLOW) (put_ser s ?m))"
    using none assms(3,4) by (auto simp: filter_char_def Let_def)
  moreover have "put_ser s ?m = m\<lparr>ser := s, line_buf := b\<rparr>" by (simp add: put_line_def put_ser_def)
  ultimately show ?thesis
    using s p p1 assms(3) by (intro exI [of _ b] exI [of _ s]) (simp add: f(1) process_char_def)
qed

section \<open>The theorems at work\<close>

definition receiving :: "u8 list \<Rightarrow> machine" where
  "receiving cs = put_ser (fold serial_dma_store cs serial_zero) (zero_machine fresh_flash)"

lemma stored_contents:
  "rx_inv s \<Longrightarrow> length (rx_contents s) + length cs < RX_BUFFER_SIZE \<Longrightarrow>
   rx_inv (fold serial_dma_store cs s) \<and> rx_contents (fold serial_dma_store cs s) = rx_contents s @ cs"
  by (induction cs arbitrary: s) (auto simp: serial_dma_store_inv serial_dma_store_contents)

lemma receiving_fields:
  assumes "length cs < RX_BUFFER_SIZE"
  shows "rx_inv (ser (receiving cs))" "rx_contents (ser (receiving cs)) = cs" "length (line_buf (receiving cs)) = LINE_BUFFER_SIZE"
proof -
  have z: "rx_inv serial_zero" "rx_contents serial_zero = []"
    by (simp_all add: rx_inv_def rx_contents_def serial_zero_def RX_BUFFER_SIZE_def)
  show "rx_inv (ser (receiving cs))" "rx_contents (ser (receiving cs)) = cs"
    using stored_contents [OF z(1), of cs] assms z(2) by (simp_all add: receiving_def)
  show "length (line_buf (receiving cs)) = LINE_BUFFER_SIZE"
    by (simp add: receiving_def put_ser_def zero_machine_def)
qed

text \<open>The line \<open>g1 (a)x-2;c\<close>, received as a whole.\<close>

theorem line_received_witness:
  "\<exists>l s. cstring l = bytes ''G1X-2'' \<and> length l = LINE_BUFFER_SIZE \<and> rx_inv s \<and> rx_contents s = [33] \<and>
    process_serial \<lparr>m_sin = id, m_cos = id, m_atan2 = (\<lambda>x y. x)\<rparr> [] new_line (receiving (bytes ''g1 (a)x-2;c'' @ [10, 33])) =
      protocol_execute_line \<lparr>m_sin = id, m_cos = id, m_atan2 = (\<lambda>x y. x)\<rparr> [] ((receiving (bytes ''g1 (a)x-2;c'' @ [10, 33]))\<lparr>ser := s, line_buf := l\<rparr>) \<bind> process_serial \<lparr>m_sin = id, m_cos = id, m_atan2 = (\<lambda>x y. x)\<rparr> [] new_line"
proof -
  have strip: "strip_line (bytes ''g1 (a)x-2;c'') = bytes ''G1X-2''" by code_simp
  note r = receiving_fields [of "bytes ''g1 (a)x-2;c'' @ [10, 33]"]
  show ?thesis
    unfolding strip [symmetric]
    by (rule line_received [where e = 10]) (use r in \<open>simp_all add: strip bytes_def RX_BUFFER_SIZE_def LINE_BUFFER_SIZE_def SERIAL_NO_DATA_def\<close>)
qed

theorem overlong_line_restarts_witness:
  "\<exists>b s. rx_inv s \<and> rx_contents s = bytes ''G0X9'' \<and> process_serial \<lparr>m_sin = id, m_cos = id, m_atan2 = (\<lambda>x y. x)\<rparr> [] new_line (receiving (replicate 80 65 @ bytes ''G0X9'')) =
    process_serial \<lparr>m_sin = id, m_cos = id, m_atan2 = (\<lambda>x y. x)\<rparr> [] new_line (emit (report_status_message STATUS_OVERFLOW)
      ((receiving (replicate 80 65 @ bytes ''G0X9''))\<lparr>ser := s, line_buf := b\<rparr>))"
proof -
  have split: "replicate 80 65 = replicate 79 (65 :: u8) @ [65]" by (simp add: replicate_append_same flip: replicate_Suc)
  have strip: "strip_line (replicate n 65) = replicate n 65" for n by (induction n) (simp_all add: upper_def)
  have r: "rx_inv (ser (receiving (replicate 80 65 @ bytes ''G0X9'')))"
    "rx_contents (ser (receiving (replicate 80 65 @ bytes ''G0X9''))) = replicate 79 65 @ 65 # bytes ''G0X9''"
    "length (line_buf (receiving (replicate 80 65 @ bytes ''G0X9''))) = LINE_BUFFER_SIZE"
    using receiving_fields [of "replicate 80 65 @ bytes ''G0X9''"] split by (simp_all add: bytes_def RX_BUFFER_SIZE_def)
  show ?thesis
    by (rule overlong_line_restarts [OF r(1,2) _ _ r(3)]) (auto simp: strip LINE_BUFFER_SIZE_def SERIAL_NO_DATA_def)
qed

end
