(* ===== verification/SegmentSteps.thy ===== *)
theory SegmentSteps
  imports StepInvariant
begin

text \<open>
  The segments \<open>st_prep_buffer\<close> cuts from a block: the step counts of the segments of one block add
  up to the step count of the block, at whatever smoothing levels, so that the step interrupt traces
  exactly the block the planner queued.
\<close>

section \<open>Whole steps\<close>

definition ticks :: "segment_t \<Rightarrow> nat" where
  "ticks g = unat (n_step g) * 2 ^ (MAX_AMASS_LEVEL - unat (amass_level g))"

lemma fl_val_ceil: "fl_val (fl_ceil x) = of_int \<lceil>fl_val x\<rceil>"
  by (cases x) (auto simp: fl_ceil_def)

lemma is_finite_ceil: "is_finite (fl_ceil x) = is_finite x"
  by (cases x) (auto simp: fl_ceil_def)

lemma f32_sub_int:
  assumes "is_finite x" "is_finite y" "fl_val x = of_int a" "fl_val y = of_int b" "b \<le> a" "a - b < 2 ^ 24"
  shows "fl_to_u32 (f32_sub x y) = word_of_int (a - b)"
proof -
  have r: "fl_to_u32 (fl_round binary32 z (of_int n)) = word_of_int n" if n: "0 \<le> n" "n < 2 ^ 24" for n z
  proof (cases "n = 0")
    case False
    have "fl_round binary32 z (of_int n) = fl_round binary32 False (of_int n)"
      using False by (simp add: fl_round_def)
    also have "\<dots> = Fin (of_int n)"
      using n by (intro fl_round_int) (simp_all add: binary32_def)
    finally show ?thesis using n by (simp add: fl_to_u32_def rat_trunc_def clamp_def)
  qed (simp add: fl_round_def fl_to_u32_def rat_trunc_def clamp_def)
  have "f32_sub x y = fl_round binary32 (x = NegZero \<and> fl_neg y = NegZero) (fl_val x + fl_val (fl_neg y))"
    using assms(1,2) by (cases x; cases y) (auto simp: fl_sub_def fl_add_def split: if_splits)
  moreover have "fl_val x + fl_val (fl_neg y) = of_int (a - b)"
    using assms(2-4) by (cases y) auto
  ultimately show ?thesis using r [of "a - b"] assms(5,6) by simp
qed

lemma amass_level_le: "unat (amass_level_of c) \<le> MAX_AMASS_LEVEL"
  by (simp add: amass_level_of_def)

lemma ticks_rate:
  assumes "unat (n_step g) < 2 ^ 13"
  shows "ticks (set_segment_rate c g) = 8 * unat (n_step g)" "unat (amass_level (set_segment_rate c g)) \<le> MAX_AMASS_LEVEL"
proof -
  let ?l = "unat (amass_level_of c)"
  have l: "?l \<le> 3" using amass_level_le [of c] by simp
  have "unat (n_step g) * 2 ^ ?l < 2 ^ 16"
  proof -
    have "(2 :: nat) ^ ?l \<le> 2 ^ 3" using l by (intro power_increasing) simp_all
    then have "unat (n_step g) * 2 ^ ?l \<le> unat (n_step g) * 2 ^ 3" by (rule mult_le_mono2)
    also have "\<dots> < 2 ^ 16" using assms by simp
    finally show ?thesis .
  qed
  then have "unat (push_bit ?l (n_step g)) = unat (n_step g) * 2 ^ ?l"
    by (simp only: unsigned_push_bit_eq) (simp add: push_bit_eq_mult take_bit_nat_eq_self)
  moreover have "2 ^ ?l * 2 ^ (3 - ?l) = (8 :: nat)" using l by (simp flip: power_add)
  ultimately show "ticks (set_segment_rate c g) = 8 * unat (n_step g)"
    by (simp add: ticks_def set_segment_rate_def Let_def)
  show "unat (amass_level (set_segment_rate c g)) \<le> MAX_AMASS_LEVEL"
    using amass_level_le by (simp add: set_segment_rate_def Let_def)
qed

section \<open>One segment\<close>

abbreviation steps_fields :: "st_prep_t \<Rightarrow> fl \<times> fl \<times> u8" where
  "steps_fields p \<equiv> (steps_remaining p, step_per_mm p, prep_block_index p)"

lemma ramp_step_keeps: "steps_fields (fst (ramp_step b pl)) = steps_fields (fst pl)"
  by (cases pl) (simp add: ramp_step_def accel_ramp_def cruise_ramp_def decel_ramp_def Let_def)

lemma segment_ramps_keep: "segment_ramps b mm pl = Some r \<Longrightarrow> steps_fields (fst r) = steps_fields (fst pl)"
proof (induction rule: segment_ramps.raw_induct [rotated, consumes 1, case_names step])
  case (step f b mm pl r)
  then show ?case
    using ramp_step_keeps [of b pl] by (cases "ramp_step b pl") (auto simp: Let_def split: if_splits)
qed

text \<open>The ramps of the next segment of block \<open>pb\<close>, and the whole steps left before and after it.\<close>

definition next_ramps :: "u8 \<Rightarrow> 'a step_state_scheme \<Rightarrow> (st_prep_t \<times> seg_locals) option" where
  "next_ramps pb s =
     (let b = block_at s pb; mm = f32_sub (millimeters b) (req_mm_increment (prep s)); dtm = to_f32 DT_SEGMENT in
      segment_ramps b (if fl_lt mm (Fin 0) then Fin 0 else mm)
        (prep s, \<lparr>dt_max = dtm, seg_dt = Fin 0, time_var = dtm, mm_remaining = millimeters b\<rparr>))"

definition next_stepsr :: "st_prep_t \<times> seg_locals \<Rightarrow> fl" where
  "next_stepsr = (\<lambda>(p, l). f32_mul (step_per_mm p) (mm_remaining l))"

definition steps_before :: "'a step_state_scheme \<Rightarrow> int" where
  "steps_before s = \<lceil>fl_val (steps_remaining (prep s))\<rceil>"

text \<open>The rounding of the segment makes sense: finite numbers, going down by fewer than \<open>2\<^sup>1\<^sup>3\<close> steps to
  \<open>n\<close> steps left.\<close>

definition cuts_to :: "u8 \<Rightarrow> 'a step_state_scheme \<Rightarrow> int \<Rightarrow> bool" where
  "cuts_to pb s n = (\<exists>r. next_ramps pb s = Some r \<and> is_finite (steps_remaining (prep s)) \<and> is_finite (next_stepsr r) \<and>
     \<lceil>fl_val (next_stepsr r)\<rceil> = n \<and> n \<le> steps_before s \<and> steps_before s - n < 2 ^ 13)"

definition new_segment :: "'a step_state_scheme \<Rightarrow> 'a step_state_scheme \<Rightarrow> segment_t" where
  "new_segment s t = segment_buffer t ! unat (segment_buffer_head s)"

lemma upd_segment_head:
  "unat (segment_buffer_head s) < length (segment_buffer s) \<Longrightarrow>
   segment_buffer (upd_segment f s) ! unat (segment_buffer_head s) = f (segment_buffer s ! unat (segment_buffer_head s)) \<and>
   segment_buffer_head (upd_segment f s) = segment_buffer_head s \<and> length (segment_buffer (upd_segment f s)) = length (segment_buffer s) \<and>
   prep (upd_segment f s) = prep s \<and> block_at (upd_segment f s) = block_at s \<and> pl_block (upd_segment f s) = pl_block s"
  by (simp add: upd_segment_def Let_def block_at_def fun_eq_iff)

text \<open>What \<open>prep_segment\<close> does when the loop goes on.\<close>

definition cut_state :: "u8 \<Rightarrow> st_prep_t \<times> seg_locals \<Rightarrow> 'a step_state_scheme \<Rightarrow> 'a step_state_scheme" where
  "cut_state pb r s =
     (let stepsr = next_stepsr r; last_n = fl_ceil (steps_remaining (fst r)); n_steps = fl_ceil stepsr;
          s = upd_segment (\<lambda>g. g\<lparr>seg_block_index := prep_block_index (prep s)\<rparr>) s;
          s = upd_segment (\<lambda>g. g\<lparr>n_step := fl_to_u16 (f32_sub last_n n_steps)\<rparr>) (upd_prep (\<lambda>_. fst r) s);
          inv_rate = f32_div (f32_add (seg_dt (snd r)) (dt_remainder (fst r))) (f32_sub last_n stepsr);
          s = upd_prep (\<lambda>p. p\<lparr>dt_remainder := f32_mul (f32_sub n_steps stepsr) inv_rate\<rparr>) s
      in upd_segment (set_segment_rate (cycles_of_rate inv_rate)) s)"

lemma prep_segment_next:
  fixes s :: "'a step_state_scheme"
  assumes "prep_segment pb s = Some (True, t)"
  obtains r h nx where "next_ramps pb s = Some r"
    "t = upd_prep (\<lambda>p. p\<lparr>steps_remaining := next_stepsr r\<rparr>)
           (upd_block pb (millimeters_update (\<lambda>_. mm_remaining (snd r))) ((cut_state pb r s)\<lparr>segment_buffer_head := h, segment_next_head := nx\<rparr>))
     \<or> t = plan_discard_current_block ((cut_state pb r s)\<lparr>segment_buffer_head := h, segment_next_head := nx, pl_block := None\<rparr>)"
proof -
  have p: "prep (upd_segment f s) = prep s" for f by (simp add: upd_segment_def Let_def)
  define nx where "nx = (\<lambda>u :: 'a step_state_scheme. if segment_next_head u + 1 = SEGMENT_BUFFER_SIZE then 0 else segment_next_head u + 1)"
  have nx: "(if segment_next_head u + 1 = SEGMENT_BUFFER_SIZE then 0 else segment_next_head u + 1) = nx u" for u
    by (simp add: nx_def)
  note w = assms [unfolded prep_segment_def Let_def p nx, folded next_ramps_def [unfolded Let_def]]
  obtain p l where r: "next_ramps pb s = Some (p, l)"
    using w by (cases "next_ramps pb s") auto
  show ?thesis
    by (rule that [OF r, of "nx (cut_state pb (p, l) s)" "segment_next_head (cut_state pb (p, l) s)"])
      (use w r in \<open>auto simp: cut_state_def next_stepsr_def Let_def bind_eq_Some_conv split: if_splits\<close>)
qed

lemma cut_state_fields:
  assumes "unat (segment_buffer_head s) < length (segment_buffer s)"
  obtains c g d where "segment_buffer (cut_state pb r s) ! unat (segment_buffer_head s) =
      set_segment_rate c (g\<lparr>seg_block_index := prep_block_index (prep s),
        n_step := fl_to_u16 (f32_sub (fl_ceil (steps_remaining (fst r))) (fl_ceil (next_stepsr r)))\<rparr>)"
    "prep (cut_state pb r s) = (fst r)\<lparr>dt_remainder := d\<rparr>"
proof -
  have up: "segment_buffer (upd_prep f u) = segment_buffer u" "segment_buffer_head (upd_prep f u) = segment_buffer_head u"
    "prep (upd_prep f u) = f (prep u)" for f and u :: "'a step_state_scheme"
    by (simp_all add: upd_prep_def)
  have ps: "prep (upd_segment f u) = prep u" for f and u :: "'a step_state_scheme" by (simp add: upd_segment_def Let_def)
  define k where "k = fl_to_u16 (f32_sub (fl_ceil (steps_remaining (fst r))) (fl_ceil (next_stepsr r)))"
  define s1 where "s1 = upd_segment (\<lambda>g. g\<lparr>seg_block_index := prep_block_index (prep s)\<rparr>) s"
  define s2 where "s2 = upd_segment (\<lambda>g. g\<lparr>n_step := k\<rparr>) (upd_prep (\<lambda>_. fst r) s1)"
  define i where "i = f32_div (f32_add (seg_dt (snd r)) (dt_remainder (fst r)))
      (f32_sub (fl_ceil (steps_remaining (fst r))) (next_stepsr r))"
  define s3 where "s3 = upd_prep (\<lambda>p. p\<lparr>dt_remainder := f32_mul (f32_sub (fl_ceil (next_stepsr r)) (next_stepsr r)) i\<rparr>) s2"
  have c: "cut_state pb r s = upd_segment (set_segment_rate (cycles_of_rate i)) s3"
    by (simp only: cut_state_def Let_def s3_def s2_def s1_def i_def k_def)
  note h1 = upd_segment_head [OF assms, of "\<lambda>g. g\<lparr>seg_block_index := prep_block_index (prep s)\<rparr>", folded s1_def]
  have h2: "segment_buffer s2 ! unat (segment_buffer_head s) = (segment_buffer s ! unat (segment_buffer_head s))
        \<lparr>seg_block_index := prep_block_index (prep s), n_step := k\<rparr>"
      "segment_buffer_head s2 = segment_buffer_head s" "length (segment_buffer s2) = length (segment_buffer s)"
    using upd_segment_head [of "upd_prep (\<lambda>_. fst r) s1" "\<lambda>g. g\<lparr>n_step := k\<rparr>", folded s2_def] h1 assms by (simp_all add: up)
  have "segment_buffer (cut_state pb r s) ! unat (segment_buffer_head s) = set_segment_rate (cycles_of_rate i)
      ((segment_buffer s ! unat (segment_buffer_head s))\<lparr>seg_block_index := prep_block_index (prep s), n_step := k\<rparr>)"
    using upd_segment_head [of s3 "set_segment_rate (cycles_of_rate i)", folded c] h2 assms by (simp add: s3_def up)
  moreover have "prep (cut_state pb r s) = (fst r)\<lparr>dt_remainder := f32_mul (f32_sub (fl_ceil (next_stepsr r)) (next_stepsr r)) i\<rparr>"
    by (simp add: c s3_def s2_def up ps)
  ultimately show ?thesis unfolding k_def by (rule that)
qed

lemma u16_of_int: "fl_to_u32 x = word_of_int k \<Longrightarrow> 0 \<le> k \<Longrightarrow> k < 2 ^ 13 \<Longrightarrow> unat (fl_to_u16 x) = nat k"
  by (simp add: fl_to_u16_def unsigned_ucast_eq unsigned_of_int take_bit_int_eq_self take_bit_nat_eq_self nat_less_iff)

lemma set_rate_index: "seg_block_index (set_segment_rate c g) = seg_block_index g"
  by (simp add: set_segment_rate_def Let_def)

lemma prep_segment_cut:
  assumes "prep_segment pb s = Some (True, t)" "cuts_to pb s n" "unat (segment_buffer_head s) < length (segment_buffer s)"
  shows "ticks (new_segment s t) = 8 * nat (steps_before s - n)" "seg_block_index (new_segment s t) = prep_block_index (prep s)"
    "unat (amass_level (new_segment s t)) \<le> MAX_AMASS_LEVEL"
    "pl_block t \<noteq> None \<Longrightarrow> steps_before t = n \<and> prep_block_index (prep t) = prep_block_index (prep s)"
proof -
  obtain r h nx where r: "next_ramps pb s = Some r"
    and t: "t = upd_prep (\<lambda>p. p\<lparr>steps_remaining := next_stepsr r\<rparr>)
           (upd_block pb (millimeters_update (\<lambda>_. mm_remaining (snd r))) ((cut_state pb r s)\<lparr>segment_buffer_head := h, segment_next_head := nx\<rparr>))
     \<or> t = plan_discard_current_block ((cut_state pb r s)\<lparr>segment_buffer_head := h, segment_next_head := nx, pl_block := None\<rparr>)"
    using prep_segment_next [OF assms(1)] by metis
  have fin: "is_finite (steps_remaining (prep s))" "is_finite (next_stepsr r)"
    and n: "\<lceil>fl_val (next_stepsr r)\<rceil> = n" "n \<le> steps_before s" "steps_before s - n < 2 ^ 13"
    using assms(2) r by (auto simp: cuts_to_def)
  have keep: "steps_fields (fst r) = steps_fields (prep s)"
    using segment_ramps_keep [OF r [unfolded next_ramps_def Let_def]] by simp
  obtain c g d where g: "segment_buffer (cut_state pb r s) ! unat (segment_buffer_head s) =
      set_segment_rate c (g\<lparr>seg_block_index := prep_block_index (prep s),
        n_step := fl_to_u16 (f32_sub (fl_ceil (steps_remaining (fst r))) (fl_ceil (next_stepsr r)))\<rparr>)"
    and p: "prep (cut_state pb r s) = (fst r)\<lparr>dt_remainder := d\<rparr>"
    by (rule cut_state_fields [OF assms(3)])
  have "segment_buffer t = segment_buffer (cut_state pb r s)"
    using t by (auto simp: upd_prep_def upd_block_def plan_discard_current_block_def Let_def)
  then have new: "new_segment s t = set_segment_rate c (g\<lparr>seg_block_index := prep_block_index (prep s),
        n_step := fl_to_u16 (f32_sub (fl_ceil (steps_remaining (fst r))) (fl_ceil (next_stepsr r)))\<rparr>)"
    by (simp add: new_segment_def g)
  have "fl_to_u32 (f32_sub (fl_ceil (steps_remaining (fst r))) (fl_ceil (next_stepsr r))) = word_of_int (steps_before s - n)"
    by (rule f32_sub_int) (use fin n keep in \<open>simp_all add: is_finite_ceil fl_val_ceil steps_before_def\<close>)
  then have "unat (fl_to_u16 (f32_sub (fl_ceil (steps_remaining (fst r))) (fl_ceil (next_stepsr r)))) = nat (steps_before s - n)"
    using n(2,3) by (intro u16_of_int) simp_all
  then show "ticks (new_segment s t) = 8 * nat (steps_before s - n)" "unat (amass_level (new_segment s t)) \<le> MAX_AMASS_LEVEL"
    using n(2,3) ticks_rate [of "g\<lparr>seg_block_index := prep_block_index (prep s),
        n_step := fl_to_u16 (f32_sub (fl_ceil (steps_remaining (fst r))) (fl_ceil (next_stepsr r)))\<rparr>" c] by (simp_all add: new)
  show "seg_block_index (new_segment s t) = prep_block_index (prep s)" by (simp add: new set_rate_index)
  show "steps_before t = n \<and> prep_block_index (prep t) = prep_block_index (prep s)" if "pl_block t \<noteq> None"
    using t that p keep n(1)
    by (auto simp: steps_before_def upd_prep_def upd_block_def plan_discard_current_block_def Let_def)
qed

section \<open>All segments of a block\<close>

text \<open>The main program comes back to a block with its counters as it left them; a replanned block only gets
  a new velocity profile.\<close>

definition resumes :: "'a step_state_scheme \<Rightarrow> 'a step_state_scheme \<Rightarrow> bool" where
  "resumes t u = (steps_remaining (prep u) = steps_remaining (prep t) \<and> prep_block_index (prep u) = prep_block_index (prep t))"

inductive cuts :: "u8 \<Rightarrow> 'a step_state_scheme \<Rightarrow> segment_t list \<Rightarrow> bool" where
  cut_last: "prep_segment pb s = Some (True, t) \<Longrightarrow> unat (segment_buffer_head s) < length (segment_buffer s) \<Longrightarrow>
    cuts_to pb s 0 \<Longrightarrow> pl_block t = None \<Longrightarrow> cuts pb s [new_segment s t]"
| cut_more: "prep_segment pb s = Some (True, t) \<Longrightarrow> unat (segment_buffer_head s) < length (segment_buffer s) \<Longrightarrow>
    cuts_to pb s n \<Longrightarrow> 0 \<le> n \<Longrightarrow> pl_block t \<noteq> None \<Longrightarrow> resumes t u \<Longrightarrow> cuts pb u gs \<Longrightarrow> cuts pb s (new_segment s t # gs)"

lemma cuts_total:
  "cuts pb s gs \<Longrightarrow> (\<Sum>g\<leftarrow>gs. ticks g) = 8 * nat (steps_before s) \<and> 0 \<le> steps_before s \<and>
     (\<forall>g\<in>set gs. seg_block_index g = prep_block_index (prep s) \<and> unat (amass_level g) \<le> MAX_AMASS_LEVEL)"
proof (induction rule: cuts.induct)
  case (cut_last pb s t)
  then show ?case using prep_segment_cut [OF cut_last(1,3,2)] by (auto simp: cuts_to_def)
next
  case (cut_more pb s t n u gs)
  note c = prep_segment_cut [OF cut_more(1,3,2)]
  have u: "steps_before u = n" "prep_block_index (prep u) = prep_block_index (prep s)"
    using c(4) [OF cut_more(5)] cut_more(6) by (simp_all add: resumes_def steps_before_def)
  have "n \<le> steps_before s" using cut_more(3) by (auto simp: cuts_to_def)
  then have "8 * nat (steps_before s - n) + 8 * nat n = 8 * nat (steps_before s)" using cut_more(4) by linarith
  then show ?case using c(1-3) cut_more(4,8) u \<open>n \<le> steps_before s\<close> by auto
qed

lemma cuts_nonempty: "cuts pb s gs \<Longrightarrow> gs \<noteq> []"
  by (auto elim: cuts.cases)

text \<open>Loading a new block.\<close>

lemma some_if: "Some (if c then x else y) = Some t \<Longrightarrow> t = x \<or> t = y"
  by (auto split: if_splits)

lemma profile_fields: "steps_fields (hold_profile b p) = steps_fields p" "steps_fields (normal_profile b e p) = steps_fields p"
  by (simp_all add: hold_profile_def normal_profile_def Let_def)

lemma loaded_fields:
  "(\<exists>b. t = upd_prep (hold_profile b) (upd_prep (\<lambda>p. p\<lparr>mm_complete := x\<rparr>) u)) \<or>
   (\<exists>b e. t = upd_prep (normal_profile b e) (upd_prep (\<lambda>p. p\<lparr>mm_complete := x\<rparr>) u)) \<Longrightarrow>
   steps_fields (prep t) = steps_fields (prep u) \<and> st_block_buffer t = st_block_buffer u"
  by (auto simp: upd_prep_def profile_fields [unfolded prod.inject])

lemma ceil_val: "x = Fin (of_int k) \<Longrightarrow> \<lceil>fl_val x\<rceil> = k"
  by simp

lemma u32_small:
  assumes "unat (w :: u32) < 2 ^ 24"
  shows "\<bar>uint w\<bar> < 2 ^ 24"
proof -
  have "int (unat w) < int (2 ^ 24)" using assms by (simp only: of_nat_less_iff)
  then show ?thesis by simp
qed

lemma load_block_new:
  assumes "load_block s = Some t" "plan_get_current_block s = Some pb" "\<not> flag_partial_block (prep s)"
    and "unat (step_event_count (block_at s pb)) < 2 ^ 24" "length (st_block_buffer s) = 5" "prep_block_index (prep s) < 5"
  shows "steps_before t = int (unat (step_event_count (block_at s pb)))"
    and "st_block_buffer t ! unat (prep_block_index (prep t)) = st_block_of (block_at s pb)"
proof -
  let ?s = "s\<lparr>pl_block := Some pb\<rparr>"
  have b: "block_at ?s pb = block_at s pb" by (simp add: block_at_def)
  have i: "unat (if prep_block_index (prep s) + 1 = 5 then 0 else prep_block_index (prep s) + 1) < 5"
    using assms(6) by (auto simp: word_less_nat_alt word_unat_eq_iff unat_word_ariths)
  have n: "steps_remaining (prep (load_new_block pb ?s)) = f32_of_u32 (step_event_count (block_at s pb))"
    "st_block_buffer (load_new_block pb ?s) ! unat (prep_block_index (prep (load_new_block pb ?s))) = st_block_of (block_at s pb)"
    using i assms(5) by (simp_all add: load_new_block_def Let_def upd_prep_def upd_block_def b)
  let ?u = "upd_prep (\<lambda>p. p\<lparr>mm_complete := Fin 0\<rparr>) (load_new_block pb ?s)"
  have nf: "\<not> flag_partial_block (prep ?s)" using assms(3) by simp
  have "(\<exists>b. t = upd_prep (hold_profile b) ?u) \<or> (\<exists>b e. t = upd_prep (normal_profile b e) ?u)"
    using some_if [OF assms(1) [unfolded load_block_def assms(2) option.case Let_def if_not_P [OF nf]]] by blast
  note f = loaded_fields [OF this]
  then have t: "steps_remaining (prep t) = steps_remaining (prep (load_new_block pb ?s))"
    "prep_block_index (prep t) = prep_block_index (prep (load_new_block pb ?s))"
    "st_block_buffer t = st_block_buffer (load_new_block pb ?s)"
    by (simp_all only: prod.inject)
  show "st_block_buffer t ! unat (prep_block_index (prep t)) = st_block_of (block_at s pb)"
    unfolding t(2,3) by (rule n(2))
  have "f32_of_u32 (step_event_count (block_at s pb)) = Fin (of_int (uint (step_event_count (block_at s pb))))"
    unfolding f32_of_u32_def by (rule f32_of_int_exact [OF u32_small [OF assms(4)]])
  from ceil_val [OF this] show "steps_before t = int (unat (step_event_count (block_at s pb)))"
    unfolding steps_before_def t(1) n(1) by simp
qed


text \<open>Once the segments of a block loaded from the planner are the next
  ones in the segment ring, as many step interrupts as they have ticks move every motor by exactly the
  steps the planner computed for the block, in its direction.\<close>

lemma planned_block_moves_motors:
  fixes m :: "'b step_state_scheme"
  assumes load: "load_block s = Some t" "plan_get_current_block s = Some pb" "\<not> flag_partial_block (prep s)"
      "length (st_block_buffer s) = 5" "prep_block_index (prep s) < 5"
    and b: "b = block_at s pb" "unat (step_event_count b) < 2 ^ 24" "0 < step_event_count b"
      "length (steps b) = N_AXIS" "\<forall>i<N_AXIS. steps b ! i \<le> step_event_count b"
    and cut: "cuts pb t gs" "\<forall>g\<in>set gs. n_step g \<noteq> 0"
    and ring: "seg_ring m" "segments m = gs @ rest" "st_block_buffer m ! unat (prep_block_index (prep t)) = st_block_of b"
    and idle: "\<not> busy m" "exec_segment (st m) = None" "exec_block_index (st m) \<noteq> prep_block_index (prep t)"
      "length (counters (st m)) = N_AXIS" "length (position (sys m)) = N_AXIS"
  shows "\<forall>i<N_AXIS. position (sys ((MAIN_TIMER_ISR ^^ (\<Sum>g\<leftarrow>gs. unat (n_step g))) m)) ! i =
    position (sys m) ! i + (if bit_istrue (direction_bits b) (get_direction_pin_mask i) then - (steps b ! i) else steps b ! i)"
proof -
  note new = load_block_new [OF load(1-3) _ load(4,5)] and all = cuts_total [OF cut(1)]
  have "(\<Sum>g\<leftarrow>gs. unat (n_step g) * 2 ^ (MAX_AMASS_LEVEL - unat (amass_level g))) = 2 ^ MAX_AMASS_LEVEL * unat (step_event_count b)"
    using new(1) all b(1,2) by (simp add: ticks_def)
  moreover have "\<forall>g\<in>set gs. seg_block_index g = prep_block_index (prep t) \<and> n_step g \<noteq> 0 \<and> unat (amass_level g) \<le> MAX_AMASS_LEVEL"
    using all cut(2) by blast
  moreover have "unat (step_event_count b) < 2 ^ 28" using b(2) by simp
  ultimately show ?thesis
    by (intro block_traced [OF idle(4,5,1-3) ring(1,2) cuts_nonempty [OF cut(1)] _ ring(3) b(4,5,3)])
qed

section \<open>A block of one segment\<close>

text \<open>A block of two steps along Y, that is two steps of motor A and two back of motor B, the only one in the planner.\<close>

definition ring_block :: plan_block_t where
  "ring_block = zero_block\<lparr>direction_bits := get_direction_pin_mask Y_AXIS, steps := [2, 2, 0], step_event_count := 2,
     millimeters := Fin 2, block_acceleration := Fin (2 ^ 30), nominal_speed_sqr := Fin (2 ^ 40)\<rparr>"

definition ring_machine :: machine where
  "ring_machine = (zero_machine \<lparr>mem = (\<lambda>_. 0), flog = []\<rparr>)
     \<lparr>block_buffer := ring_block # replicate 17 zero_block, block_buffer_head := 1, next_buffer_head := 2,
      segment_next_head := 1\<rparr>"

definition ring_prep :: st_prep_t where
  "ring_prep = \<lparr>prep_block_index = 1, flag_partial_block = False, steps_remaining = Fin 2, step_per_mm = Fin 1,
     req_mm_increment = Fin (5 / 4), dt_remainder = Fin 0, ramp_type = RAMP_ACCEL, mm_complete = Fin 0,
     current_speed = Fin 0, maximum_speed = Fin (11863283 / 256), exit_speed = Fin 0,
     accelerate_until = Fin 1, decelerate_after = Fin 1\<rparr>"

definition ring_ramped :: "st_prep_t \<times> seg_locals" where
  "ring_ramped = (ring_prep\<lparr>ramp_type := RAMP_DECEL, current_speed := Fin (11863283 / 256)\<rparr>,
     \<lparr>dt_max = Fin (5726623 / 34359738368), seg_dt = Fin (11863283 / 137438953472),
      time_var = Fin (11043209 / 137438953472), mm_remaining = Fin 0\<rparr>)"

definition ring_loaded :: machine where
  "ring_loaded = ring_machine\<lparr>pl_block := Some 0, st_prep_block := Some 1,
     st_block_buffer := (replicate 5 zero_st_block)[1 := st_block_of ring_block], prep := ring_prep\<rparr>"

lemma ring_normal_profile:
  "normal_profile ring_block (Fin 0) (zero_prep\<lparr>prep_block_index := 1, steps_remaining := Fin 2, step_per_mm := Fin 1,
     req_mm_increment := Fin (5 / 4), dt_remainder := Fin 0, current_speed := Fin 0, mm_complete := Fin 0\<rparr>) = ring_prep"
  by code_simp

lemma ring_load: "load_block ring_machine = Some ring_loaded"
proof -
  have o: "f32_div (Fin 2) (Fin 2) = Fin 1" "to_f32 (f64_div REQ_MM_INCREMENT_SCALAR (Fin 1)) = Fin (5 / 4)"
    "f32_sqrt (Fin 0) = Fin 0" "f32_of_u32 2 = Fin 2" by code_simp+
  have b: "millimeters ring_block = Fin 2" "step_event_count ring_block = 2" "entry_speed_sqr ring_block = Fin 0"
    by (simp_all add: ring_block_def zero_block_def)
  show ?thesis
    unfolding load_block_def load_new_block_def plan_get_current_block_def Let_def ring_loaded_def ring_normal_profile [symmetric]
    by (simp add: ring_machine_def zero_machine_def block_at_def upd_prep_def o b in_state_def zero_system_def zero_prep_def
      plan_get_exec_block_exit_speed_def plan_next_block_index_def)
qed
lemma ring_accel:
  "accel_ramp ring_block (ring_prep, \<lparr>dt_max = Fin (5726623 / 34359738368), seg_dt = Fin 0,
      time_var = Fin (5726623 / 34359738368), mm_remaining = Fin 2\<rparr>) =
    (ring_prep\<lparr>ramp_type := RAMP_DECEL, current_speed := Fin (11863283 / 256)\<rparr>,
     \<lparr>dt_max = Fin (5726623 / 34359738368), seg_dt = Fin 0, time_var = Fin (11863283 / 274877906944), mm_remaining = Fin 1\<rparr>)"
proof -
  have o: "f32_mul (Fin (2 ^ 30)) (Fin (5726623 / 34359738368)) = Fin (5726623 / 32)"
    "to_f32 (f64_sub (Fin 2) (f64_mul (Fin (5726623 / 34359738368)) (f64_add (Fin 0) (f64_mul (f64_lit (1 / 2)) (Fin (5726623 / 32)))))) =
       Fin (- (6770173 / 524288))"
    "fl_lt (Fin (- (6770173 / 524288))) (Fin 1)" "fl_eq (Fin 1) (Fin 1)"
    "to_f32 (f64_div (f64_mul (f64_lit 2) (f32_sub (Fin 2) (Fin 1))) (f32_add (Fin 0) (Fin (11863283 / 256)))) =
       Fin (11863283 / 274877906944)" by code_simp+
  have b: "millimeters ring_block = Fin 2" "block_acceleration ring_block = Fin (2 ^ 30)"
    by (simp_all add: ring_block_def)
  show ?thesis
    by (simp only: accel_ramp_def prod.case Let_def b ring_prep_def st_prep_t.simps seg_locals.simps o if_True)
qed

lemma ring_decel:
  "decel_ramp ring_block (ring_prep\<lparr>ramp_type := RAMP_DECEL, current_speed := Fin (11863283 / 256)\<rparr>,
     \<lparr>dt_max = Fin (5726623 / 34359738368), seg_dt = Fin (11863283 / 274877906944),
      time_var = Fin (8487425 / 68719476736), mm_remaining = Fin 1\<rparr>) =
    (ring_prep\<lparr>ramp_type := RAMP_DECEL, current_speed := Fin (11863283 / 256)\<rparr>,
     \<lparr>dt_max = Fin (5726623 / 34359738368), seg_dt = Fin (11863283 / 274877906944),
      time_var = Fin (11863283 / 274877906944), mm_remaining = Fin 0\<rparr>)"
proof -
  have o: "f32_mul (Fin (2 ^ 30)) (Fin (8487425 / 68719476736)) = Fin (8487425 / 64)"
    "fl_gt (Fin (11863283 / 256)) (Fin (8487425 / 64)) = False"
    "to_f32 (f64_div (f64_mul (f64_lit 2) (f32_sub (Fin 1) (Fin 0))) (f32_add (Fin (11863283 / 256)) (Fin 0))) =
       Fin (11863283 / 274877906944)" by code_simp+
  have b: "millimeters ring_block = Fin 2" "block_acceleration ring_block = Fin (2 ^ 30)"
    by (simp_all add: ring_block_def)
  show ?thesis
    by (simp only: decel_ramp_def prod.case Let_def b ring_prep_def st_prep_t.simps seg_locals.simps o if_False simp_thms)
qed

lemma ring_ramps: "next_ramps 0 ring_loaded = Some ring_ramped"
proof -
  have o: "to_f32 DT_SEGMENT = Fin (5726623 / 34359738368)"
    "f32_add (Fin 0) (Fin (11863283 / 274877906944)) = Fin (11863283 / 274877906944)"
    "f32_sub (Fin (5726623 / 34359738368)) (Fin (11863283 / 274877906944)) = Fin (8487425 / 68719476736)"
    "f32_add (Fin (11863283 / 274877906944)) (Fin (11863283 / 274877906944)) = Fin (11863283 / 137438953472)"
    "f32_sub (Fin (5726623 / 34359738368)) (Fin (11863283 / 137438953472)) = Fin (11043209 / 137438953472)"
    "fl_lt (Fin (11863283 / 274877906944)) (Fin (5726623 / 34359738368)) = True"
    "fl_lt (Fin (11863283 / 137438953472)) (Fin (5726623 / 34359738368)) = True"
    "fl_gt (Fin 1) (Fin 0) = True" "fl_gt (Fin 0) (Fin 0) = False" by code_simp+
  have b: "block_at ring_loaded 0 = ring_block" "prep ring_loaded = ring_prep" "millimeters ring_block = Fin 2"
    by (simp_all add: ring_loaded_def ring_machine_def block_at_def ring_block_def)
  have r: "ramp_step ring_block (ring_prep, l) = accel_ramp ring_block (ring_prep, l)"
    "ramp_step ring_block (ring_prep\<lparr>ramp_type := RAMP_DECEL, current_speed := x\<rparr>, l) =
       decel_ramp ring_block (ring_prep\<lparr>ramp_type := RAMP_DECEL, current_speed := x\<rparr>, l)" for l x
    by (simp_all add: ramp_step_def ring_prep_def)
  have c: "mm_complete ring_prep = Fin 0" by (simp add: ring_prep_def)
  have two: "segment_ramps ring_block mm (ring_prep\<lparr>ramp_type := RAMP_DECEL, current_speed := Fin (11863283 / 256)\<rparr>,
     \<lparr>dt_max = Fin (5726623 / 34359738368), seg_dt = Fin (11863283 / 274877906944),
      time_var = Fin (8487425 / 68719476736), mm_remaining = Fin 1\<rparr>) = Some ring_ramped" for mm
    by (simp add: segment_ramps.simps r ring_decel o c ring_ramped_def)
  show ?thesis
    by (simp add: next_ramps_def b o segment_ramps.simps [of _ _ "(ring_prep, _)"] r ring_accel c two)
qed

definition ring_segment :: segment_t where
  "ring_segment = \<lparr>n_step = 16, seg_block_index = 1, cycles_per_tick = 5179, amass_level = 3\<rparr>"

definition ring_cut :: machine where
  "ring_cut = ring_loaded\<lparr>prep := fst ring_ramped, segment_buffer := (segment_buffer ring_loaded)[0 := ring_segment],
     segment_buffer_head := 1, segment_next_head := 2, pl_block := None, block_buffer_planned := 1,
     block_buffer_tail := 1\<rparr>"

lemma ring_prep_segment: "prep_segment 0 ring_loaded = Some (True, ring_cut)"
proof -
  have o: "f32_mul (Fin 1) (Fin 0) = Fin 0" "fl_ceil (Fin 0) = Fin 0" "fl_ceil (Fin 2) = Fin 2" "f32_sub (Fin 2) (Fin 0) = Fin 2"
    "fl_to_u16 (Fin 2) = 2" "f32_add (Fin (11863283 / 137438953472)) (Fin 0) = Fin (11863283 / 137438953472)"
    "f32_div (Fin (11863283 / 137438953472)) (Fin 2) = Fin (11863283 / 274877906944)"
    "f32_sub (Fin 0) (Fin 0) = Fin 0" "f32_mul (Fin 0) (Fin (11863283 / 274877906944)) = Fin 0" "fl_gt (Fin 0) (Fin 0) = False"
    "cycles_of_rate (Fin (11863283 / 274877906944)) = 41433" by code_simp+
  have r: "set_segment_rate 41433 \<lparr>n_step = 2, seg_block_index = 1, cycles_per_tick = 0, amass_level = 0\<rparr> = ring_segment"
    by code_simp
  have f: "prep ring_loaded = ring_prep" "segment_buffer ring_loaded = replicate 6 \<lparr>n_step = 0, seg_block_index = 0, cycles_per_tick = 0, amass_level = 0\<rparr>"
    "segment_buffer_head ring_loaded = 0" "segment_next_head ring_loaded = 1" "prep_block_index ring_prep = 1"
    "block_buffer_head ring_loaded = 1" "block_buffer_tail ring_loaded = 0" "block_buffer_planned ring_loaded = 0"
    by (simp_all add: ring_loaded_def ring_machine_def zero_machine_def ring_prep_def)
  have p: "prep (upd_segment f s) = prep s" for f and s :: machine by (simp add: upd_segment_def Let_def)
  show ?thesis
    unfolding prep_segment_def Let_def p ring_ramps [unfolded next_ramps_def Let_def]
    by (simp add: ring_ramped_def o r f ring_prep_def upd_segment_def upd_prep_def plan_discard_current_block_def
      plan_next_block_index_def ring_cut_def)
qed
lemma ring_cuts: "cuts 0 ring_loaded [ring_segment]"
proof -
  have b: "segment_buffer_head ring_loaded = 0" "length (segment_buffer ring_loaded) = 6" "steps_remaining (prep ring_loaded) = Fin 2"
    by (simp_all add: ring_loaded_def ring_machine_def zero_machine_def ring_prep_def)
  have "next_stepsr ring_ramped = Fin 0"
    by (simp add: next_stepsr_def ring_ramped_def ring_prep_def) code_simp
  then have to: "cuts_to 0 ring_loaded 0"
    using ring_ramps b by (simp add: cuts_to_def steps_before_def)
  have "new_segment ring_loaded ring_cut = ring_segment"
    using b by (simp add: new_segment_def ring_cut_def)
  with cut_last [OF ring_prep_segment _ to] b show ?thesis by (simp add: ring_cut_def)
qed

lemma ring_facts:
  "plan_get_current_block ring_machine = Some 0" "\<not> flag_partial_block (prep ring_machine)" "block_at ring_machine 0 = ring_block"
  "length (st_block_buffer ring_machine) = 5" "prep_block_index (prep ring_machine) < 5"
  "step_event_count ring_block = 2" "length (steps ring_block) = N_AXIS" "\<forall>i<N_AXIS. steps ring_block ! i \<le> step_event_count ring_block"
  by (auto simp: ring_machine_def zero_machine_def plan_get_current_block_def block_at_def zero_prep_def ring_block_def
    N_AXIS_def less_Suc_eq numeral_3_eq_3)


end
