(* ===== verification/LineTarget.thy ===== *)
theory LineTarget
  imports SegmentSteps
begin

text \<open>
  From a target to the motors: the block \<open>plan_buffer_line\<close> writes for a target makes the two
  motors of the CoreXY drive and the Z motor take exactly the steps from the planner position to
  the target, although its step counts and directions are computed in floating point.
\<close>

section \<open>Whole numbers in floating point\<close>

definition int_val :: "fl \<Rightarrow> int \<Rightarrow> bool" where
  "int_val x n = (is_finite x \<and> fl_val x = of_int n)"

lemma int_val_round:
  assumes "\<bar>n\<bar> < 2 ^ 24"
  shows "int_val (fl_round binary32 z (of_int n)) n"
proof (cases "n = 0")
  case False
  have "fl_round binary32 z (of_int n) = fl_round binary32 False (of_int n)"
    using False by (simp add: fl_round_def)
  also have "\<dots> = Fin (of_int n)" using assms by (intro fl_round_int) (simp_all add: binary32_def)
  finally show ?thesis by (simp add: int_val_def)
qed (simp add: int_val_def fl_round_def)

lemma int_val_of_int: "\<bar>n\<bar> < 2 ^ 24 \<Longrightarrow> int_val (f32_of_int n) n"
  unfolding f32_of_int_def by (rule int_val_round)

lemma int_val_add: "int_val x a \<Longrightarrow> int_val y b \<Longrightarrow> \<bar>a + b\<bar> < 2 ^ 24 \<Longrightarrow> int_val (f32_add x y) (a + b)"
  using int_val_round [of "a + b"] by (cases x; cases y) (simp_all add: fl_add_def int_val_def)

lemma int_val_neg: "int_val x a \<Longrightarrow> int_val (fl_neg x) (- a)"
  by (cases x) (auto simp: int_val_def)

lemma int_val_sub: "int_val x a \<Longrightarrow> int_val y b \<Longrightarrow> \<bar>a - b\<bar> < 2 ^ 24 \<Longrightarrow> int_val (f32_sub x y) (a - b)"
  using int_val_add [of x a "fl_neg y" "- b"] by (simp add: fl_sub_def int_val_neg)

lemma int_val_mul: "int_val x a \<Longrightarrow> int_val y b \<Longrightarrow> \<bar>a * b\<bar> < 2 ^ 24 \<Longrightarrow> int_val (f32_mul x y) (a * b)"
  using int_val_round [of "a * b"] by (cases x; cases y) (simp_all add: fl_mul_def int_val_def Let_def)

lemma int_val_to_i32: "int_val x n \<Longrightarrow> \<bar>n\<bar> < 2 ^ 24 \<Longrightarrow> fl_to_i32 x = word_of_int n"
  by (cases x) (auto simp: int_val_def fl_to_i32_def rat_trunc_def clamp_def)

text \<open>Rounding keeps the sign of all but the tiniest numbers.\<close>

lemma fl_round_sign:
  assumes "pow2 (emin F - (int (prec F) - 1)) \<le> \<bar>q\<bar>" "0 < prec F"
  shows "fl_lt (fl_round F z q) (Fin 0) \<longleftrightarrow> q < 0"
proof -
  have q: "q \<noteq> 0" using assms(1) by (metis abs_zero pow2_pos leD)
  have "pow2 (ilog2 \<bar>q\<bar>) \<le> \<bar>q\<bar>" using ilog2_bounds [of "\<bar>q\<bar>"] q by simp
  moreover have "pow2 (ilog2 \<bar>q\<bar> - (int (prec F) - 1)) \<le> pow2 (ilog2 \<bar>q\<bar>)" using assms(2) by simp
  ultimately have "pow2 (ulp_exp F q) \<le> \<bar>q\<bar>"
    using assms(1) unfolding ulp_exp_def max_def by (auto intro: order_trans simp del: pow2_le_iff)
  define u where "u = pow2 (ulp_exp F q)"
  have u: "0 < u" "u \<le> \<bar>q\<bar>" using \<open>pow2 (ulp_exp F q) \<le> \<bar>q\<bar>\<close> by (simp_all add: u_def)
  define r where "r = round_even (q / u)"
  have "r \<le> - 1" if "q < 0"
    using round_even_mono [of "q / u" "of_int (- 1)"] u that unfolding round_even_int r_def
    by (simp add: divide_le_eq)
  moreover have "1 \<le> r" if "\<not> q < 0"
    using round_even_mono [of "of_int 1" "q / u"] u that unfolding round_even_int r_def
    by (simp add: le_divide_eq)
  moreover have "(of_int r * u < 0) = (r < 0)" "(of_int r * u = 0) = (r = 0)"
    using u(1) by (simp_all add: mult_less_0_iff)
  moreover have "fl_round F z q = (if pow2 (emax F + 1) \<le> \<bar>of_int r * u\<bar> then Inf (q < 0)
      else if of_int r * u = 0 \<and> q < 0 then NegZero else Fin (of_int r * u))"
    using q by (simp only: fl_round_def Let_def u_def r_def if_False)
  ultimately show ?thesis by (cases "q < 0") auto
qed

lemma f32_div_sign:
  assumes "int_val x n" "b = Fin q" "0 < q" "q < 2 ^ 128"
  shows "fl_lt (f32_div x b) (Fin 0) \<longleftrightarrow> n < 0"
proof (cases "n = 0")
  case True
  then show ?thesis using assms by (cases x) (auto simp: int_val_def fl_div_def Let_def fl_round_def)
next
  case False
  then have x: "x = Fin (of_int n)" using assms(1) by (cases x) (auto simp: int_val_def)
  have "pow2 (- 149) \<le> pow2 (- 128)" by simp
  also have "\<dots> = 1 / 2 ^ 128" by (simp add: pow2_def Fract_of_int_quotient)
  also have "\<dots> \<le> 1 / q" using assms(3,4) by (simp add: frac_le)
  also have "\<dots> \<le> \<bar>of_int n\<bar> / q" using False assms(3) by (intro divide_right_mono) (simp_all flip: of_int_abs)
  finally have "pow2 (emin binary32 - (int (prec binary32) - 1)) \<le> \<bar>of_int n / q\<bar>"
    using assms(3) by (simp add: binary32_def)
  from fl_round_sign [OF this] show ?thesis
    using assms(2,3) by (simp add: fl_div_def Let_def x binary32_def divide_less_0_iff)
qed

section \<open>The steps and directions of a line\<close>

definition motor_steps :: "settings_t \<Rightarrow> i32 vec \<Rightarrow> i32 vec" where
  "motor_steps c p = corexy_motor_steps c (p ! X_AXIS) (p ! Y_AXIS) @ [word_of_int (dir_sign c Z_AXIS) * p ! Z_AXIS]"

definition short_move :: "i32 vec \<Rightarrow> bool" where
  "short_move d = (\<bar>sint (d ! X_AXIS)\<bar> + \<bar>sint (d ! Y_AXIS)\<bar> < 2 ^ 24 \<and> \<bar>sint (d ! Z_AXIS)\<bar> < 2 ^ 24)"

definition signed_steps :: "plan_block_t \<Rightarrow> nat \<Rightarrow> i32" where
  "signed_steps b i = (if bit_istrue (direction_bits b) (get_direction_pin_mask i) then - (steps b ! i) else steps b ! i)"

definition motor_delta :: "settings_t \<Rightarrow> i32 vec \<Rightarrow> nat \<Rightarrow> int" where
  "motor_delta c d i =
     (let x = dir_sign c X_AXIS * sint (d ! X_AXIS); y = dir_sign c Y_AXIS * sint (d ! Y_AXIS)
      in if i = A_MOTOR then x + y else if i = B_MOTOR then x - y else dir_sign c Z_AXIS * sint (d ! Z_AXIS))"

lemma axis_cases [consumes 1, case_names X Y Z]:
  assumes "i < N_AXIS"
  obtains "i = X_AXIS" | "i = Y_AXIS" | "i = Z_AXIS"
  using assms by (force simp: N_AXIS_def)

lemma dir_sign_abs: "\<bar>dir_sign c i * n\<bar> = \<bar>n\<bar>"
  using dir_sign_cases [of c i] by auto

lemma motor_delta_small: "short_move d \<Longrightarrow> \<bar>motor_delta c d i\<bar> < 2 ^ 24"
proof -
  assume d: "short_move d"
  have "\<bar>motor_delta c d i\<bar> \<le> \<bar>dir_sign c X_AXIS * sint (d ! X_AXIS)\<bar> + \<bar>dir_sign c Y_AXIS * sint (d ! Y_AXIS)\<bar> \<or>
    \<bar>motor_delta c d i\<bar> \<le> \<bar>dir_sign c Z_AXIS * sint (d ! Z_AXIS)\<bar>"
    by (auto simp: motor_delta_def Let_def)
  then show ?thesis using d unfolding dir_sign_abs short_move_def by linarith
qed

lemma int_val_dir: "int_val (f32_of_int (dir_sign c i)) (dir_sign c i)"
  using dir_sign_cases [of c i] by (intro int_val_of_int) auto

lemma int_val_axis: "\<bar>sint w\<bar> < 2 ^ 24 \<Longrightarrow> int_val (f32_mul (f32_of_int (dir_sign c i)) (f32_of_i32 w)) (dir_sign c i * sint w)"
  by (intro int_val_mul int_val_dir) (simp_all add: f32_of_i32_def int_val_of_int dir_sign_abs)

lemma sint_uminus_small: "\<bar>sint (w :: i32)\<bar> < 2 ^ 24 \<Longrightarrow> sint (- w) = - sint w"
  by (simp add: sint_word_ariths signed_take_bit_int_eq_self)

lemma short_axes:
  assumes "short_move d"
  shows "\<bar>sint (d ! X_AXIS)\<bar> < 2 ^ 24" "\<bar>sint (d ! Y_AXIS)\<bar> < 2 ^ 24" "\<bar>sint (d ! Z_AXIS)\<bar> < 2 ^ 24"
  using assms unfolding short_move_def by linarith+

lemma signed_delta_val:
  assumes "short_move d" "i < N_AXIS"
  shows "int_val (signed_delta c d i) (motor_delta c d i)"
proof -
  note s = short_axes [OF assms(1)] and small = motor_delta_small [OF assms(1), of c i]
  from assms(2) show ?thesis
  proof (cases rule: axis_cases)
    case X
    then show ?thesis using s small by (simp add: signed_delta_def motor_delta_def Let_def int_val_add int_val_axis)
  next
    case Y
    have y: "int_val (f32_mul (f32_of_int (dir_sign c Y_AXIS)) (f32_of_i32 (- (d ! Y_AXIS)))) (dir_sign c Y_AXIS * - sint (d ! Y_AXIS))"
      using int_val_axis [of "- (d ! Y_AXIS)" c Y_AXIS] s(2) by (simp add: sint_uminus_small)
    show ?thesis
      using Y small int_val_add [OF int_val_axis [OF s(1), of c X_AXIS] y]
      by (simp add: signed_delta_def motor_delta_def Let_def)
  qed (use s(3) in \<open>simp add: signed_delta_def motor_delta_def Let_def int_val_axis\<close>)
qed

lemma i32_labs_int: "\<bar>n\<bar> < 2 ^ 24 \<Longrightarrow> i32_labs (word_of_int n) = word_of_int \<bar>n\<bar>"
proof -
  assume n: "\<bar>n\<bar> < 2 ^ 24"
  then have "sint (word_of_int n :: i32) = n"
    by (simp add: signed_of_int signed_take_bit_int_eq_self)
  then show ?thesis by (simp add: i32_labs_def)
qed

lemma block_steps_val:
  assumes "short_move d" "i < N_AXIS"
  shows "block_steps c d ! i = word_of_int \<bar>motor_delta c d i\<bar>"
proof -
  note s = short_axes [OF assms(1)] and small = motor_delta_small [OF assms(1), of c]
  note x = int_val_axis [OF s(1), of c X_AXIS] and y = int_val_axis [OF s(2), of c Y_AXIS]
  have "fl_to_i32 (f32_add (f32_mul (f32_of_int (dir_sign c X_AXIS)) (f32_of_i32 (d ! X_AXIS)))
      (f32_mul (f32_of_int (dir_sign c Y_AXIS)) (f32_of_i32 (d ! Y_AXIS)))) = word_of_int (motor_delta c d A_MOTOR)"
    using int_val_to_i32 [OF int_val_add [OF x y]] small [of A_MOTOR] by (simp add: motor_delta_def Let_def)
  moreover have "fl_to_i32 (f32_sub (f32_mul (f32_of_int (dir_sign c X_AXIS)) (f32_of_i32 (d ! X_AXIS)))
      (f32_mul (f32_of_int (dir_sign c Y_AXIS)) (f32_of_i32 (d ! Y_AXIS)))) = word_of_int (motor_delta c d B_MOTOR)"
    using int_val_to_i32 [OF int_val_sub [OF x y]] small [of B_MOTOR] by (simp add: motor_delta_def Let_def)
  moreover have "i32_labs (d ! Z_AXIS) = word_of_int \<bar>motor_delta c d Z_AXIS\<bar>"
    using i32_labs_int [OF s(3)] by (simp add: motor_delta_def dir_sign_abs)
  ultimately have b: "block_steps c d = map (\<lambda>i. word_of_int \<bar>motor_delta c d i\<bar>) [A_MOTOR, B_MOTOR, Z_AXIS]"
    unfolding block_steps_def Let_def list.map by (simp only: i32_labs_int small)
  from assms(2) show ?thesis unfolding b by (cases rule: axis_cases) simp_all
qed

lemma direction_bits_iff:
  "i < N_AXIS \<Longrightarrow> bit_istrue (line_direction_bits v) (get_direction_pin_mask i) \<longleftrightarrow> fl_lt (v ! i) (Fin 0)"
proof -
  have up: "[0..<N_AXIS] = [X_AXIS, Y_AXIS, Z_AXIS]" by (simp add: N_AXIS_def upt_rec)
  assume "i < N_AXIS"
  then show ?thesis
    unfolding line_direction_bits_def up get_direction_pin_mask_def
    by (cases rule: axis_cases) (simp_all add: bit_istrue_bit_of bit_or_iff bit_bit_of)
qed

text \<open>Axes that have a step size a \<open>float\<close> can hold.\<close>

definition scaled_axes :: "settings_t \<Rightarrow> bool" where
  "scaled_axes c = (\<forall>i<N_AXIS. \<exists>q. steps_per_mm c ! i = Fin q \<and> 0 < q \<and> q < 2 ^ 128)"

lemma signed_steps_delta:
  assumes d: "short_move d" and c: "scaled_axes c" and i: "i < N_AXIS"
    and b: "direction_bits b = line_direction_bits (map (delta_mm_signed c d) [0..<N_AXIS])" "steps b = block_steps c d"
  shows "signed_steps b i = word_of_int (motor_delta c d i)"
proof -
  obtain q where q: "steps_per_mm c ! i = Fin q" "0 < q" "q < 2 ^ 128" using c i by (auto simp: scaled_axes_def)
  have "bit_istrue (direction_bits b) (get_direction_pin_mask i) \<longleftrightarrow> motor_delta c d i < 0"
    using direction_bits_iff [OF i] i f32_div_sign [OF signed_delta_val [OF d i, of c] q]
    by (simp add: b(1) delta_mm_signed_def)
  then show ?thesis by (simp add: signed_steps_def b(2) block_steps_val [OF d i])
qed

lemma event_count_max:
  assumes "length ns = N_AXIS"
  shows "i < N_AXIS \<Longrightarrow> ns ! i \<le> line_event_count ns" "\<exists>i<N_AXIS. line_event_count ns = ns ! i"
proof -
  obtain a b z where ns: "ns = [a, b, z]"
    using assms by (auto simp: N_AXIS_def length_Suc_conv numeral_3_eq_3)
  show "ns ! i \<le> line_event_count ns" if "i < N_AXIS"
    using that by (auto simp: ns line_event_count_def N_AXIS_def less_Suc_eq numeral_3_eq_3)
  have "line_event_count ns = ns ! X_AXIS \<or> line_event_count ns = ns ! Y_AXIS \<or> line_event_count ns = ns ! Z_AXIS"
    by (auto simp: ns line_event_count_def)
  moreover have "X_AXIS < N_AXIS" "Y_AXIS < N_AXIS" "Z_AXIS < N_AXIS" by (simp_all add: N_AXIS_def)
  ultimately show "\<exists>i<N_AXIS. line_event_count ns = ns ! i" by blast
qed

lemma motor_delta_word:
  assumes "d = map (\<lambda>i. t ! i - p ! i) [0..<N_AXIS]" "i < N_AXIS"
  shows "word_of_int (motor_delta c d i) = motor_steps c t ! i - motor_steps c p ! i"
proof -
  from assms(2) show ?thesis
    using assms(1) by (cases rule: axis_cases) (simp_all add: motor_delta_def motor_steps_def corexy_motor_steps_def Let_def N_AXIS_def algebra_simps
        flip: numeral_2_eq_2)
qed

section \<open>The block of a line\<close>

definition planning :: "(u16 \<times> u32 vec \<times> u32) list \<Rightarrow> i32 vec \<Rightarrow> 'a plan_state_scheme \<Rightarrow> bool" where
  "planning ps q s = (map block_path (block_buffer s) = ps \<and> pl_position s = q \<and>
     block_buffer_tail s < BLOCK_BUFFER_SIZE \<and> block_buffer_head s < BLOCK_BUFFER_SIZE \<and> block_buffer_planned s < BLOCK_BUFFER_SIZE)"

lemma map_update_same: "g (f (xs ! i)) = g (xs ! i) \<Longrightarrow> map g (xs[i := f (xs ! i)]) = map g xs"
  by (cases "i < length xs") (simp_all add: map_update list_update_same_conv list_update_beyond)

interpretation planning: planner_invariant "planning ps q" for ps q
  by unfold_locales (auto simp: planning_def upd_block_def block_at_def map_update_same)

text \<open>Displacements in axis steps.\<close>

definition line_delta :: "settings_t \<Rightarrow> fl vec \<Rightarrow> i32 vec \<Rightarrow> i32 vec" where
  "line_delta c target p = map (\<lambda>i. line_steps c target ! i - p ! i) [0..<N_AXIS]"

lemma plan_buffer_line_path:
  assumes "plan_buffer_line target feed iv s = Some t"
    and "block_buffer_tail s < BLOCK_BUFFER_SIZE" "block_buffer_planned s < BLOCK_BUFFER_SIZE" "next_buffer_head s < BLOCK_BUFFER_SIZE"
    and "block_buffer_head s < BLOCK_BUFFER_SIZE" "length (block_buffer s) = unat BLOCK_BUFFER_SIZE"
    and d: "d = line_delta (cfg s) target (pl_position s)"
  shows "block_path (block_at t (block_buffer_head s)) =
      (line_direction_bits (map (delta_mm_signed (cfg s) d) [0..<N_AXIS]), block_steps (cfg s) d, line_event_count (block_steps (cfg s) d))"
    "pl_position t = (if line_event_count (block_steps (cfg s) d) = 0 then pl_position s else line_steps (cfg s) target)"
proof -
  let ?h = "block_buffer_head s" and ?c = "cfg s" and ?n = "line_event_count (block_steps (cfg s) d)"
  let ?f = "\<lambda>b. b\<lparr>direction_bits := line_direction_bits (map (delta_mm_signed ?c d) [0..<N_AXIS]), steps := block_steps ?c d,
      step_event_count := ?n, block_acceleration := SOME_LARGE_VALUE, millimeters := line_millimeters (map (delta_mm ?c d) [0..<N_AXIS])\<rparr>"
  let ?ps = "map block_path (block_buffer (upd_block ?h ?f s))"
  have h: "unat ?h < length (block_buffer s)" using assms(5,6) by (simp add: word_less_nat_alt)
  have ps: "block_path (block_at u ?h) = block_path (?f (block_at s ?h))" if "map block_path (block_buffer u) = ?ps" for u :: "'a plan_state_scheme"
  proof -
    have "length (block_buffer u) = length (block_buffer s)" using arg_cong [OF that, of length] by (simp add: upd_block_def)
    moreover have "map block_path (block_buffer u) ! unat ?h = ?ps ! unat ?h" by (simp only: that)
    ultimately show ?thesis using h by (simp add: block_at_def upd_block_def)
  qed
  have start: "planning ?ps (pl_position s) (upd_block ?h ?f s)"
    using assms(2-5) by (simp add: planning_def upd_block_def)
  have move: "planning ps p ((u\<lparr>previous_unit_vec := v, previous_nominal_speed_sqr := x, pl_position := p,
      block_buffer_head := next_buffer_head u\<rparr>)\<lparr>next_buffer_head := k\<rparr>)"
    if "planning ps q u" "next_buffer_head u < BLOCK_BUFFER_SIZE" for ps p q v x k and u :: "'a plan_state_scheme"
    using that by (simp add: planning_def)
  have eq: "map (\<lambda>idx. line_steps ?c target ! idx - pl_position s ! idx) [0..<N_AXIS] = d" by (simp add: d line_delta_def)
  have "planning ?ps (if ?n = 0 then pl_position s else line_steps ?c target) t"
  proof (cases "?n = 0")
    case True
    then show ?thesis using assms(1) start by (simp add: plan_buffer_line_def Let_def eq)
  next
    case False
    define s1 where "s1 = upd_block ?h ?f s"
    have "next_buffer_head s1 = next_buffer_head s" by (simp add: s1_def upd_block_def)
    then show ?thesis
      unfolding if_not_P [OF False] s1_def [symmetric] using start [folded s1_def] assms(4)
      by - (rule pred_optionD [OF _ assms(1)], unfold plan_buffer_line_def Let_def eq if_not_P [OF False], fold s1_def,
        intro planning.P_recalculate move [OF planning.P_upd_block [OF planning.P_if]] planning.P_upd_block;
        (assumption | simp add: upd_block_def))
  qed
  then show "block_path (block_at t ?h) = (line_direction_bits (map (delta_mm_signed ?c d) [0..<N_AXIS]), block_steps ?c d, ?n)"
    "pl_position t = (if ?n = 0 then pl_position s else line_steps ?c target)"
    using ps [of t] by (simp_all add: planning_def block_path_def)
qed

lemma line_block:
  assumes plan: "plan_buffer_line target feed iv s = Some t"
    and ring: "block_buffer_tail s < BLOCK_BUFFER_SIZE" "block_buffer_planned s < BLOCK_BUFFER_SIZE" "next_buffer_head s < BLOCK_BUFFER_SIZE"
      "block_buffer_head s < BLOCK_BUFFER_SIZE" "length (block_buffer s) = unat BLOCK_BUFFER_SIZE"
    and pos: "length (pl_position s) = N_AXIS"
    and line: "scaled_axes (cfg s)" "short_move (line_delta (cfg s) target (pl_position s))"
    and b: "block_path b = block_path (block_at t (block_buffer_head s))"
  shows "length (steps b) = N_AXIS" "unat (step_event_count b) < 2 ^ 24" "pl_position t = line_steps (cfg s) target"
    "i < N_AXIS \<Longrightarrow> steps b ! i \<le> step_event_count b"
    "i < N_AXIS \<Longrightarrow> motor_steps (cfg s) (pl_position s) ! i + signed_steps b i = motor_steps (cfg s) (line_steps (cfg s) target) ! i"
proof -
  let ?d = "line_delta (cfg s) target (pl_position s)" and ?c = "cfg s"
  note path = plan_buffer_line_path [OF plan ring refl]
  have f: "direction_bits b = line_direction_bits (map (delta_mm_signed ?c ?d) [0..<N_AXIS])" "steps b = block_steps ?c ?d"
    "step_event_count b = line_event_count (block_steps ?c ?d)"
    using b path(1) by (simp_all add: block_path_def)
  show len: "length (steps b) = N_AXIS" by (simp add: f(2) block_steps_def Let_def N_AXIS_def)
  note ev = event_count_max [OF len, folded f(2,3)]
  have val: "unat (steps b ! i) = nat \<bar>motor_delta ?c ?d i\<bar>" if "i < N_AXIS" for i
    using motor_delta_small [OF line(2), of ?c i]
    by (simp add: f(2) block_steps_val [OF line(2) that] unsigned_of_int take_bit_int_eq_self)
  have small: "unat (steps b ! i) < 2 ^ 24" if "i < N_AXIS" for i
    using motor_delta_small [OF line(2), of ?c i] by (simp add: val [OF that])
  from ev(2) small show "unat (step_event_count b) < 2 ^ 24" by (metis f(2,3))
  show "i < N_AXIS \<Longrightarrow> steps b ! i \<le> step_event_count b" using ev(1) by (simp add: f(2,3))
  have step: "signed_steps b i = word_of_int (motor_delta ?c ?d i)" if "i < N_AXIS" for i
    by (rule signed_steps_delta [OF line(2,1) that f(1,2)])
  show "i < N_AXIS \<Longrightarrow> motor_steps ?c (pl_position s) ! i + signed_steps b i = motor_steps ?c (line_steps ?c target) ! i"
    by (simp add: step motor_delta_word [OF line_delta_def])
  show "pl_position t = line_steps ?c target"
  proof (cases "line_event_count (block_steps ?c ?d) = 0")
    case True
    have "motor_delta ?c ?d i = 0" if "i < N_AXIS" for i
      using ev(1) [OF that] True val [OF that] by (simp add: f)
    from this [of A_MOTOR] this [of B_MOTOR] this [of Z_AXIS]
    have "dir_sign ?c i * sint (?d ! i) = 0" if "i < N_AXIS" for i
      by (cases rule: axis_cases [OF that]) (auto simp: motor_delta_def Let_def N_AXIS_def)
    then have "sint (?d ! i) = 0" if "i < N_AXIS" for i
      using that by (metis abs_eq_0 dir_sign_abs)
    then have "line_steps ?c target ! i = pl_position s ! i" if "i < N_AXIS" for i
      using that by (simp add: line_delta_def signed_eq_0_iff)
    then have "line_steps ?c target = pl_position s"
      by (intro nth_equalityI) (simp_all add: pos, simp_all add: line_steps_def)
    then show ?thesis using path(2) by simp
  qed (use path(2) in simp)
qed

section \<open>From the target to the motors\<close>

text \<open>C4: The block planned for a target has exactly the motor steps from the planner position to the target.
  Added with their signs to the motor steps of the old position they give those of the target, for both
  motors of the CoreXY drive and for Z and with any inverted directions, although the steps are computed
  in single precision; the planner position moves to the target.  The line has to be shorter than
  \<open>2\<^sup>2\<^sup>4\<close> motor steps, up to which single precision counts exactly.\<close>

theorem planned_line_steps:
  assumes "plan_buffer_line target feed iv s = Some t"
    and "block_buffer_tail s < BLOCK_BUFFER_SIZE" and "block_buffer_planned s < BLOCK_BUFFER_SIZE" and "next_buffer_head s < BLOCK_BUFFER_SIZE"
    and "block_buffer_head s < BLOCK_BUFFER_SIZE" and "length (block_buffer s) = unat BLOCK_BUFFER_SIZE" and "length (pl_position s) = N_AXIS"
    and "scaled_axes (cfg s)" and "short_move (line_delta (cfg s) target (pl_position s))"
    and "b = block_at t (block_buffer_head s)"
  shows "pl_position t = line_steps (cfg s) target \<and> length (steps b) = N_AXIS \<and>
    (\<forall>i<N_AXIS. steps b ! i \<le> step_event_count b \<and>
       motor_steps (cfg s) (pl_position s) ! i + signed_steps b i = motor_steps (cfg s) (pl_position t) ! i)"
proof -
  have "block_path b = block_path (block_at t (block_buffer_head s))" using assms(10) by simp
  note block = line_block [OF assms(1-9) this]
  show ?thesis using block(1,4,5) unfolding block(3) by blast
qed


text \<open>The synchronisation after a reset or a probe drops the direction factor of Z.\<close>

lemma sync_negates_inverted_z:
  assumes "position (sys s) = motor_steps (cfg s) p" "bit_istrue (dir_invert_mask (cfg s)) (bit_of Z_AXIS)"
  shows "pl_position (plan_sync_position s) ! Z_AXIS = - (p ! Z_AXIS)"
  using assms by (simp add: plan_sync_position_def Let_def motor_steps_def corexy_motor_steps_def dir_sign_def flip: numeral_2_eq_2)

section \<open>A line of two steps along Y\<close>

definition line_settings :: settings_t where
  "line_settings = zero_settings\<lparr>settings_t.steps_per_mm := [Fin 1, Fin 1, Fin 1]\<rparr>"

definition line_machine :: machine where
  "line_machine = (zero_machine \<lparr>mem = (\<lambda>_. 0), flog = []\<rparr>)
     \<lparr>env := (env (zero_machine \<lparr>mem = (\<lambda>_. 0), flog = []\<rparr>))\<lparr>settings := line_settings\<rparr>, next_buffer_head := 1\<rparr>"

lemma line_planned: "\<exists>t. plan_buffer_line [Fin 0, Fin 2, Fin 0] feed iv line_machine = Some t"
  by (simp add: plan_buffer_line_def Let_def planner_recalculate_def line_machine_def zero_machine_def upd_block_def plan_prev_block_index_def)

lemma line_machine_fields:
  "block_buffer_tail line_machine < BLOCK_BUFFER_SIZE" "block_buffer_planned line_machine < BLOCK_BUFFER_SIZE"
  "next_buffer_head line_machine < BLOCK_BUFFER_SIZE" "block_buffer_head line_machine < BLOCK_BUFFER_SIZE"
  "length (block_buffer line_machine) = unat BLOCK_BUFFER_SIZE" "length (pl_position line_machine) = N_AXIS"
  "block_buffer_head line_machine = 0" "cfg line_machine = line_settings" "pl_position line_machine = [0, 0, 0]"
  by (simp_all add: line_machine_def zero_machine_def N_AXIS_def)

lemma line_delta_eval: "line_delta line_settings [Fin 0, Fin 2, Fin 0] [0, 0, 0] = [0, 2, 0]"
  by code_simp

lemma line_machine_line:
  "scaled_axes (cfg line_machine)"
  "short_move (line_delta (cfg line_machine) [Fin 0, Fin 2, Fin 0] (pl_position line_machine))"
proof -
  show "scaled_axes (cfg line_machine)"
    by (auto simp: line_machine_fields scaled_axes_def line_settings_def N_AXIS_def less_Suc_eq numeral_3_eq_3)
  show "short_move (line_delta (cfg line_machine) [Fin 0, Fin 2, Fin 0] (pl_position line_machine))"
    by (simp add: line_machine_fields line_delta_eval short_move_def)
qed

theorem planned_line_steps_witness:
  "\<exists>t. plan_buffer_line [Fin 0, Fin 2, Fin 0] (Fin 1) False line_machine = Some t \<and> pl_position t = [0, 2, 0]"
proof -
  obtain t where t: "plan_buffer_line [Fin 0, Fin 2, Fin 0] (Fin 1) False line_machine = Some t" using line_planned by blast
  have "line_steps line_settings [Fin 0, Fin 2, Fin 0] = [0, 2, 0]" by code_simp
  with planned_line_steps [OF t line_machine_fields(1-6) line_machine_line refl] t show ?thesis
    by (simp add: line_machine_fields)
qed

end
