(* ===== verification/Delay.thy ===== *)
theory Delay
  imports Float32
begin

text \<open>
  The delays of \<open>nuts_bolts.c\<close>.  They poll the SysTick counter, which runs down once every
  millisecond and raises no interrupt: the loop counts a tick when a reading falls below a threshold
  and then waits for a reading above it before it counts the next.  The readings of the counter are
  a list, one for each round of the loop; a delay for which they run out goes on waiting.
\<close>

definition F_CPU :: u32 where "F_CPU = 48000000"
definition delay_threshold :: u32 where "delay_threshold = 10"

text \<open>Setting up the counter; \<open>None\<close> when the number of ticks does not fit into its 24 bits.\<close>

definition SysTick_Config_polling :: "u32 \<Rightarrow> u32 option" where
  "SysTick_Config_polling n_ticks = (if n_ticks AND NOT 0x00FFFFFF \<noteq> 0 then None else Some n_ticks)"

definition systick_reload :: u32 where
  "systick_reload = F_CPU div 8 div 1000"

text \<open>One round of the loop: the tick counter, and whether the next low reading counts.\<close>

definition poll_tick :: "u32 \<Rightarrow> u32 \<times> bool \<Rightarrow> u32 \<times> bool" where
  "poll_tick value = (\<lambda>(ticks, uncounted).
     if uncounted \<and> value < delay_threshold then (ticks + 1, False)
     else if value \<ge> delay_threshold then (ticks, True) else (ticks, uncounted))"

fun delay_wait :: "(u32 \<Rightarrow> bool) \<Rightarrow> u32 list \<Rightarrow> u32 \<times> bool \<Rightarrow> (u32 \<times> u32 list) option" where
  "delay_wait going [] st = (if going (fst st) then None else Some (fst st, []))"
| "delay_wait going (v # vs) st =
     (if going (fst st) then delay_wait going vs (poll_tick v st) else Some (fst st, v # vs))"

text \<open>Waiting until the counter reaches \<open>stop\<close>, also past the wrap-around of the counter.\<close>

definition before :: "u32 \<Rightarrow> u32 \<Rightarrow> u32 \<Rightarrow> bool" where
  "before start stop ticks =
     (if start < stop then ticks \<ge> start \<and> ticks < stop else ticks \<ge> start \<or> ticks < stop)"

definition wait_until :: "u32 \<Rightarrow> u32 list \<Rightarrow> u32 \<Rightarrow> (u32 \<times> u32 list) option" where
  "wait_until stop readings start = delay_wait (before start stop) readings (start, True)"

definition delay_ms_ticks :: "u16 \<Rightarrow> u32 list \<Rightarrow> u32 \<Rightarrow> (u32 \<times> u32 list) option" where
  "delay_ms_ticks ms readings start =
     (if ms = 0 then Some (start, readings) else wait_until (start + ucast ms) readings start)"

definition delay_ms_double :: "fl \<Rightarrow> u32 list \<Rightarrow> u32 \<Rightarrow> (u32 \<times> u32 list) option" where
  "delay_ms_double ms readings start =
     (if fl_eq ms (Fin 0) then Some (start, readings)
      else wait_until (fl_to_u32 (f64_add (f64_of_int (uint start)) ms)) readings start)"

text \<open>\<open>delay_1_ms\<close> leaves the counting to the SysTick interrupt; \<open>ns\<close> are the interrupts between its rounds.\<close>

definition sys_tick_handler :: "u32 \<Rightarrow> u32" where
  "sys_tick_handler ticks = ticks + 1"

fun spin_wait :: "(u32 \<Rightarrow> bool) \<Rightarrow> nat list \<Rightarrow> u32 \<Rightarrow> u32 option" where
  "spin_wait going [] ticks = (if going ticks then None else Some ticks)"
| "spin_wait going (n # ns) ticks =
     (if going ticks then spin_wait going ns ((sys_tick_handler ^^ n) ticks) else Some ticks)"

definition delay_1_ms :: "nat list \<Rightarrow> u32 \<Rightarrow> u32 option" where
  "delay_1_ms ns start = spin_wait (before start (start + 1)) ns start"

section \<open>Counting\<close>

lemma systick_fits: "SysTick_Config_polling systick_reload = Some 6000"
  by code_simp

text \<open>The times the readings fall below the threshold, the reading before the first taken as high.\<close>

fun falls :: "bool \<Rightarrow> u32 list \<Rightarrow> nat" where
  "falls high [] = 0"
| "falls high (v # vs) = (if high \<and> v < delay_threshold then 1 else 0) + falls (v \<ge> delay_threshold) vs"

lemma delay_wait_counts:
  assumes "\<And>k. k \<le> n \<Longrightarrow> going (a + of_nat k) \<longleftrightarrow> k < n"
  shows "j \<le> n \<Longrightarrow> (case delay_wait going vs (a + of_nat j, u) of
      None \<Rightarrow> j + falls u vs < n
    | Some (t, rest) \<Rightarrow> t = a + of_nat n \<and> (\<exists>used. vs = used @ rest \<and> j + falls u used = n))"
proof (induction vs arbitrary: j u)
  case Nil
  then show ?case using assms [of j] by auto
next
  case (Cons v vs)
  show ?case
  proof (cases "j < n")
    case True
    then have go: "going (a + of_nat j)" using assms [of j] by simp
    let ?c = "u \<and> v < delay_threshold"
    define j' where "j' = (if ?c then Suc j else j)"
    have step: "poll_tick v (a + of_nat j, u) = (a + of_nat j', v \<ge> delay_threshold)"
      by (auto simp: poll_tick_def j'_def not_le)
    have "j' \<le> n" using True by (simp add: j'_def)
    from Cons.IH [OF this, of "v \<ge> delay_threshold"] show ?thesis
      by (auto simp: go step j'_def split: option.splits intro: exI [of _ "v # _"])
  next
    case False
    then have "j = n" "\<not> going (a + of_nat j)" using Cons.prems assms [of j] by simp_all
    then show ?thesis by simp
  qed
qed

lemma wait_going:
  fixes a :: u32
  assumes n: "0 < n" "n < 2 ^ 32" and k: "k \<le> n"
  shows "before a (a + of_nat n) (a + of_nat k) \<longleftrightarrow> k < n"
proof -
  define A where "A = unat a"
  have A: "A < 2 ^ 32" unfolding A_def by (rule order_less_le_trans [OF unsigned_less]) simp
  have mod: "unat (a + of_nat j) = (A + j) mod 2 ^ 32" for j
    by (simp add: A_def unat_word_ariths unat_of_nat mod_simps)
  have sum: "unat (a + of_nat j) = (if A + j < 2 ^ 32 then A + j else A + j - 2 ^ 32)" if "j < 2 ^ 32" for j
  proof (cases "A + j < 2 ^ 32")
    case False
    then have "(A + j) mod 2 ^ 32 = (A + j - 2 ^ 32) mod 2 ^ 32" by (simp add: le_mod_geq)
    also have "\<dots> = A + j - 2 ^ 32" using that A by (intro mod_less) linarith
    finally show ?thesis using False by (simp only: mod if_False)
  qed (simp add: mod)
  have k': "k < 2 ^ 32" using n(2) k by simp
  show ?thesis
    unfolding before_def word_less_nat_alt word_le_nat_alt sum [OF n(2)] sum [OF k'] A_def [symmetric]
  proof (cases "A + n < 2 ^ 32")
    case True
    then have "A + k < 2 ^ 32" using k by linarith
    then show "(if A < (if A + n < 2 ^ 32 then A + n else A + n - 2 ^ 32)
       then A \<le> (if A + k < 2 ^ 32 then A + k else A + k - 2 ^ 32) \<and>
         (if A + k < 2 ^ 32 then A + k else A + k - 2 ^ 32) < (if A + n < 2 ^ 32 then A + n else A + n - 2 ^ 32)
       else A \<le> (if A + k < 2 ^ 32 then A + k else A + k - 2 ^ 32) \<or>
         (if A + k < 2 ^ 32 then A + k else A + k - 2 ^ 32) < (if A + n < 2 ^ 32 then A + n else A + n - 2 ^ 32)) = (k < n)"
      using True n(1) by (simp only: if_True) simp
  qed (use n(2) k' A in auto)
qed

lemma wait_until_counts:
  assumes "0 < n" "n < 2 ^ 32"
  shows "case wait_until (start + of_nat n) readings start of
      None \<Rightarrow> falls True readings < n
    | Some (t, rest) \<Rightarrow> t = start + of_nat n \<and> (\<exists>used. readings = used @ rest \<and> falls True used = n)"
  using delay_wait_counts [OF wait_going [OF assms] le0, where a = start and vs = readings and u = True, unfolded semiring_1_class.of_nat_0 add_0_right add_0_left]
  unfolding wait_until_def by simp

text \<open>C38: A delay of so many milliseconds returns exactly when the counter has run down as many times,
  having advanced the tick counter by as many, also when the tick counter wraps around meanwhile.\<close>

theorem delay_counts_ticks:
  "case delay_ms_ticks ms readings start of
      None \<Rightarrow> falls True readings < unat ms
    | Some (t, rest) \<Rightarrow> t = start + ucast ms \<and> (\<exists>used. readings = used @ rest \<and> falls True used = unat ms)"
proof (cases "ms = 0")
  case False
  then have "0 < unat ms" by (simp add: unat_gt_0)
  moreover have "unat ms < 2 ^ 32" by (rule order_less_le_trans [OF unsigned_less]) simp
  moreover have eq: "(of_nat (unat ms) :: u32) = ucast ms" by simp
  ultimately show ?thesis
    using wait_until_counts [of "unat ms", where start = start and readings = readings] False
    unfolding eq delay_ms_ticks_def by simp
qed (auto simp: delay_ms_ticks_def intro: exI [of _ "[]"])

text \<open>The delay with a \<open>double\<close> argument does the same as long as the tick counter does not wrap around; past
  that its end saturates.\<close>

lemma f64_sum:
  assumes "0 \<le> a" "0 \<le> b" "a + b < 2 ^ 32"
  shows "fl_to_u32 (f64_add (f64_of_int a) (f64_of_int b)) = word_of_int (a + b)" "fl_eq (f64_of_int b) (Fin 0) \<longleftrightarrow> b = 0"
proof -
  have r: "fl_round binary64 False (of_int n) = Fin (of_int n)" if "0 \<le> n" "n < 2 ^ 32" for n
    using that by (intro fl_round_int) (simp_all add: binary64_def)
  have ab: "a < 2 ^ 32" "b < 2 ^ 32" "0 \<le> a + b" using assms by linarith+
  have "f64_add (f64_of_int a) (f64_of_int b) = Fin (of_int (a + b))"
    using r [OF ab(3) assms(3)] by (simp add: f64_of_int_def r [OF assms(1) ab(1)] r [OF assms(2) ab(2)] fl_add_def)
  then show "fl_to_u32 (f64_add (f64_of_int a) (f64_of_int b)) = word_of_int (a + b)"
    using assms ab by (simp add: fl_to_u32_def rat_trunc_def clamp_def del: of_int_add)
  show "fl_eq (f64_of_int b) (Fin 0) \<longleftrightarrow> b = 0" by (simp add: f64_of_int_def r [OF assms(2) ab(2)] fl_eq_def)
qed

lemma delay_double_same:
  fixes ms :: u16 and start :: u32
  assumes "uint start + uint ms < 2 ^ 32"
  shows "delay_ms_double (f64_of_int (uint ms)) readings start = delay_ms_ticks ms readings start"
proof -
  have "word_of_int (uint start + uint ms) = start + ucast ms" by (simp add: unsigned_ucast_eq)
  then show ?thesis
    using f64_sum [OF _ _ assms] by (simp add: delay_ms_double_def delay_ms_ticks_def uint_0_iff)
qed

text \<open>Nothing enables the SysTick interrupt, so that \<open>delay_1_ms\<close>, which no part of the firmware calls, would
  never return.\<close>

lemma delay_1_ms_hangs: "set ns \<subseteq> {0} \<Longrightarrow> delay_1_ms ns start = None"
proof -
  have "before start (start + 1) start"
    using wait_going [of 1 0 start] by simp
  then show "set ns \<subseteq> {0} \<Longrightarrow> delay_1_ms ns start = None"
    unfolding delay_1_ms_def by (induction ns) auto
qed

end
