(* ===== verification/AlarmLock.thy ===== *)
theory AlarmLock
  imports Invariant
begin

text \<open>
  The alarm lock.  After an alarm, and at power-up with homing enabled, the machine is in
  \<open>STATE_ALARM\<close>: whatever g-code the host sends, nothing is planned and no motor moves, until a system command
  (a line that starts with \<open>$\<close>) ends the lock.
\<close>

abbreviation DOLLAR :: u8 where "DOLLAR \<equiv> 36"

text \<open>What a motion would change.\<close>

definition motion_data :: "machine \<Rightarrow> plan_block_t list \<times> u8 \<times> u8 \<times> i32 vec \<times> i32 vec" where
  "motion_data m = (block_buffer m, block_buffer_head m, block_buffer_tail m, pl_position m, position (sys m))"

text \<open>The lock, with the motors at rest, nothing to do for the executor and no \<open>$\<close> received or to come.\<close>

definition no_dollar :: "machine \<Rightarrow> bool" where
  "no_dollar m = (DOLLAR \<notin> set (line_buf m) \<and> rx_inv (ser m) \<and> DOLLAR \<notin> set (serial_rx_buffer (ser m)) \<and>
     (\<forall>es\<in>set (future m). RxByte DOLLAR \<notin> set es))"

definition locked :: "machine \<Rightarrow> bool" where
  "locked m = (state (sys m) = STATE_ALARM \<and> suspend (sys m) = 0 \<and> sys_rt_exec_alarm m = 0 \<and>
     \<not> main_timer_irq m \<and> \<not> bit_istrue (sys_rt_exec_state m) EXEC_CYCLE_STOP)"

definition locked_still :: "machine \<Rightarrow> machine \<Rightarrow> bool" where
  "locked_still m0 m = (locked m \<and> no_dollar m \<and> motion_data m = motion_data m0)"

section \<open>Interrupts\<close>

lemmas exec_flag_bits = EXEC_STATUS_REPORT_def EXEC_CYCLE_START_def EXEC_CYCLE_STOP_def EXEC_FEED_HOLD_def EXEC_RESET_def
  EXEC_SAFETY_DOOR_def EXEC_MOTION_CANCEL_def

lemma raise_keeps_stop:
  "\<not> bit_istrue x EXEC_CYCLE_STOP \<Longrightarrow> b \<in> {EXEC_STATUS_REPORT, EXEC_CYCLE_START, EXEC_FEED_HOLD, EXEC_RESET, EXEC_SAFETY_DOOR} \<Longrightarrow>
   \<not> bit_istrue (bit_true x b) EXEC_CYCLE_STOP"
  by (auto simp: exec_flag_bits bit_true_def bit_or_iff bit_istrue_bit_of bit_bit_of)

lemmas locked_defs = locked_still_def locked_def no_dollar_def motion_data_def

lemma locked_raise:
  "locked_still m0 m \<Longrightarrow> b \<in> {EXEC_STATUS_REPORT, EXEC_CYCLE_START, EXEC_FEED_HOLD, EXEC_RESET, EXEC_SAFETY_DOOR} \<Longrightarrow>
   locked_still m0 (raise_exec b m)"
  using raise_keeps_stop [of "sys_rt_exec_state m" b] by (simp add: locked_defs raise_exec_def)

lemma locked_inactive: "locked_still m0 m \<Longrightarrow> \<not> in_state (STATE_CYCLE OR STATE_HOMING) m" "locked_still m0 m \<Longrightarrow> \<not> in_state ACTIVE_STATES m"
  "locked_still m0 m \<Longrightarrow> \<not> hold_allowed m" "locked_still m0 m \<Longrightarrow> \<not> in_state (STATE_HOLD OR STATE_MOTION_CANCEL) m"
  by (simp_all add: locked_defs in_state_def bit_istrue_def hold_allowed_def)

lemma locked_mc_reset: "locked_still m0 m \<Longrightarrow> locked_still m0 (mc_reset m)"
proof -
  assume "locked_still m0 m"
  then have l: "locked_still m0 (coolant_stop (spindle_stop (raise_exec EXEC_RESET m)))"
    using locked_raise [of m0 m EXEC_RESET] by (simp add: locked_defs coolant_stop_def spindle_stop_def)
  then have "suspend (sys (coolant_stop (spindle_stop (raise_exec EXEC_RESET m)))) \<noteq> SUSPEND_ENABLE_HOLD"
    by (simp add: locked_defs)
  with l locked_inactive(1) [OF l] \<open>locked_still m0 m\<close> show ?thesis by (simp add: mc_reset_def Let_def)
qed

lemma locked_receive: "locked_still m0 m \<Longrightarrow> c \<noteq> DOLLAR \<Longrightarrow> locked_still m0 (receive_byte c m)"
proof -
  assume m: "locked_still m0 m" and c: "c \<noteq> DOLLAR"
  have "DOLLAR \<notin> set ((serial_rx_buffer (ser m))[unat (serial_rx_buffer_head (ser m)) := c])"
    using m c set_update_subset_insert [of "serial_rx_buffer (ser m)" _ c] by (auto simp: locked_defs)
  then have "locked_still m0 (m\<lparr>ser := serial_dma_store c (ser m)\<rparr>)"
    using m serial_dma_store_inv [of "ser m" c] by (simp add: locked_defs serial_dma_store_def Let_def)
  then show ?thesis
    using m locked_mc_reset [OF m] locked_raise [OF m]
    by (auto simp: receive_byte_def SERIAL_DMA_ISR_def raise_exec_def split: option.split rt_command.split)
qed

lemma locked_interrupt: "locked_still m0 m \<Longrightarrow> RxByte DOLLAR \<noteq> e \<Longrightarrow> locked_still m0 (interrupt_step e m)"
proof (cases e)
  case DebounceTimeout
  assume "locked_still m0 m"
  then show ?thesis by (simp add: DebounceTimeout SW_DEBOUNCE_TIMER_ISR_def Let_def locked_defs)
qed (simp_all add: locked_receive RESET_CONTROL_ISR_def locked_mc_reset FEED_HOLD_CONTROL_ISR_def SAFETY_DOOR_CONTROL_ISR_def
      CYCLE_START_CONTROL_ISR_def locked_raise,
     simp_all add: locked_defs limit_pin_isr_def enable_debounce_timer_def PULSE_TIMER_ISR_def SET_STEP_BITS_def Let_def)

lemma locked_interrupts: "locked_still m0 m \<Longrightarrow> RxByte DOLLAR \<notin> set es \<Longrightarrow> locked_still m0 (fold interrupt_step es m)"
  by (induction es arbitrary: m) (simp_all add: locked_interrupt)

lemma locked_await: "locked_still m0 m \<Longrightarrow> pred_option (locked_still m0) (await m)"
proof (cases "future m")
  case (Cons es rest)
  assume "locked_still m0 m"
  then have "locked_still m0 (m\<lparr>future := rest\<rparr>)" "RxByte DOLLAR \<notin> set es" by (simp_all add: locked_defs Cons)
  then show ?thesis by (simp add: await_def Cons locked_interrupts)
qed (simp add: await_def)

lemma locked_poll: "locked_still m0 m \<Longrightarrow> locked_still m0 (poll m)"
  using locked_await [of m0 m] by (cases "await m") (simp_all add: poll_def)

section \<open>The executor\<close>

lemma locked_emit: "locked_still m0 m \<Longrightarrow> locked_still m0 (emit bs m)"
  by (simp add: locked_defs emit_def)

lemma locked_clear: "locked_still m0 m \<Longrightarrow> locked_still m0 (clear_exec b m)"
  using bit_istrue_false_imp [of "sys_rt_exec_state m" b EXEC_CYCLE_STOP] by (auto simp: locked_defs clear_exec_def)

section \<open>Lines\<close>

lemma locked_put_line: "locked_still m0 m \<Longrightarrow> c \<noteq> DOLLAR \<Longrightarrow> locked_still m0 (put_line ((line_buf m)[i := c]) m)"
  using set_update_subset_insert [of "line_buf m" i c] by (auto simp: locked_defs put_line_def)

lemma locked_filter: "locked_still m0 m \<Longrightarrow> c \<noteq> DOLLAR \<Longrightarrow> locked_still m0 (snd (filter_char c ls m))"
proof -
  assume m: "locked_still m0 m" and c: "c \<noteq> DOLLAR"
  have up: "c - 97 + 65 \<noteq> DOLLAR" if "c \<ge> 97"
    using that uint_sub_lem by (auto simp: word_le_nat_alt)
  show ?thesis
    using m c up locked_put_line locked_emit by (auto simp: filter_char_def Let_def)
qed

lemma locked_read: "locked_still m0 m \<Longrightarrow> locked_still m0 (m\<lparr>ser := snd (serial_read (ser m))\<rparr>) \<and> fst (serial_read (ser m)) \<noteq> DOLLAR"
proof -
  assume m: "locked_still m0 m"
  then have "serial_rx_buffer (ser m) ! unat (serial_rx_buffer_tail (ser m)) \<noteq> DOLLAR"
    by (auto simp: locked_defs rx_inv_def in_set_conv_nth)
  then show ?thesis
    using m rx_inv_read [of "ser m"] by (auto simp: locked_defs serial_read_def Let_def SERIAL_NO_DATA_def)
qed

section \<open>The loops return\<close>

text \<open>No status report is asked for: a report can overrun the buffer of the number printer.\<close>

definition no_query :: "machine \<Rightarrow> bool" where
  "no_query m = (\<not> bit_istrue (sys_rt_exec_state m) EXEC_STATUS_REPORT \<and> (\<forall>es\<in>set (future m). RxByte 63 \<notin> set es))"

text \<open>The characters waiting and the interrupts to come.\<close>

definition pending :: "machine \<Rightarrow> nat" where
  "pending m = length (rx_contents (ser m)) + (\<Sum>es\<leftarrow>future m. length es)"

definition input_goes_on :: "machine \<Rightarrow> machine \<Rightarrow> bool" where
  "input_goes_on m n = (no_query n \<and> pending n \<le> pending m \<and> length (future n) \<le> length (future m))"

lemma input_goes_on_trans: "input_goes_on m n \<Longrightarrow> input_goes_on n k \<Longrightarrow> input_goes_on m k"
  by (auto simp: input_goes_on_def)

lemma raise_keeps_query:
  "\<not> bit_istrue x EXEC_STATUS_REPORT \<Longrightarrow> b \<in> {EXEC_CYCLE_START, EXEC_FEED_HOLD, EXEC_RESET, EXEC_SAFETY_DOOR} \<Longrightarrow>
   \<not> bit_istrue (bit_true x b) EXEC_STATUS_REPORT"
  by (auto simp: exec_flag_bits bit_true_def bit_or_iff bit_istrue_bit_of bit_bit_of)

lemma clear_keeps_query: "\<not> bit_istrue x EXEC_STATUS_REPORT \<Longrightarrow> \<not> bit_istrue (bit_false x b) EXEC_STATUS_REPORT"
  using bit_istrue_false_imp by blast

definition io_step :: "machine \<Rightarrow> machine \<Rightarrow> bool" where
  "io_step m n = (future n = future m \<and> (rx_inv (ser m) \<longrightarrow> rx_inv (ser n)) \<and>
     (rx_inv (ser m) \<longrightarrow> length (rx_contents (ser n)) \<le> Suc (length (rx_contents (ser m)))) \<and>
     (\<not> bit_istrue (sys_rt_exec_state m) EXEC_STATUS_REPORT \<longrightarrow> \<not> bit_istrue (sys_rt_exec_state n) EXEC_STATUS_REPORT))"

lemma io_step_raise: "b \<in> {EXEC_CYCLE_START, EXEC_FEED_HOLD, EXEC_RESET, EXEC_SAFETY_DOOR} \<Longrightarrow> io_step m (raise_exec b m)"
  using raise_keeps_query [of "sys_rt_exec_state m" b] by (simp add: io_step_def raise_exec_def)

lemma io_step_store: "rx_inv s \<Longrightarrow> length (rx_contents (serial_dma_store c s)) \<le> Suc (length (rx_contents s))"
proof (cases "length (rx_contents s) < RX_BUFFER_SIZE - 1")
  case False
  assume s: "rx_inv s"
  moreover have "length (rx_contents s) < RX_BUFFER_SIZE" using rx_length [OF s] ring_count_less s by (metis rx_inv_def)
  ultimately show ?thesis using False by (simp add: serial_dma_store_full)
qed (simp add: serial_dma_store_contents)

lemma io_step_same:
  "ser n = ser m \<Longrightarrow> future n = future m \<Longrightarrow> sys_rt_exec_state n = sys_rt_exec_state m \<Longrightarrow> io_step m n"
  by (simp add: io_step_def)

lemma io_step_mc_reset: "locked_still m0 m \<Longrightarrow> io_step m (mc_reset m)"
proof -
  assume m: "locked_still m0 m"
  then have l: "locked_still m0 (coolant_stop (spindle_stop (raise_exec EXEC_RESET m)))"
    using locked_raise [of m0 m EXEC_RESET] by (simp add: locked_defs coolant_stop_def spindle_stop_def)
  then have "suspend (sys (coolant_stop (spindle_stop (raise_exec EXEC_RESET m)))) \<noteq> SUSPEND_ENABLE_HOLD"
    by (simp add: locked_defs)
  with l locked_inactive(1) [OF l] have "mc_reset m = (if bit_isfalse (sys_rt_exec_state m) EXEC_RESET then coolant_stop (spindle_stop (raise_exec EXEC_RESET m)) else m)"
    by (simp add: mc_reset_def Let_def)
  moreover have "io_step m (coolant_stop (spindle_stop (raise_exec EXEC_RESET m)))"
    using io_step_raise [of EXEC_RESET m] by (simp add: io_step_def coolant_stop_def spindle_stop_def)
  ultimately show ?thesis by (simp add: io_step_same)
qed

lemma io_step_interrupt: "locked_still m0 m \<Longrightarrow> RxByte 63 \<noteq> e \<Longrightarrow> io_step m (interrupt_step e m)"
proof (cases e)
  case (RxByte c)
  assume m: "locked_still m0 m" and "RxByte 63 \<noteq> e"
  then have "realtime_command c \<noteq> Some CMD_STATUS_REPORT"
    by (auto simp: RxByte realtime_command_def split: if_splits)
  moreover have "io_step m (m\<lparr>ser := serial_dma_store c (ser m)\<rparr>)"
    using io_step_store serial_dma_store_inv by (simp add: io_step_def)
  ultimately show ?thesis
    using io_step_mc_reset [OF m] io_step_raise [of EXEC_CYCLE_START m] io_step_raise [of EXEC_FEED_HOLD m] io_step_raise [of EXEC_SAFETY_DOOR m]
    by (auto simp: RxByte receive_byte_def SERIAL_DMA_ISR_def raise_exec_def split: option.split rt_command.split)
next
  case DebounceTimeout
  assume "locked_still m0 m"
  then show ?thesis by (simp add: DebounceTimeout SW_DEBOUNCE_TIMER_ISR_def Let_def locked_defs io_step_same)
next
  case StepTick
  assume "locked_still m0 m"
  then show ?thesis by (simp add: StepTick locked_defs io_step_same)
qed (simp_all add: RESET_CONTROL_ISR_def io_step_mc_reset FEED_HOLD_CONTROL_ISR_def SAFETY_DOOR_CONTROL_ISR_def
      CYCLE_START_CONTROL_ISR_def io_step_raise io_step_same limit_pin_isr_def enable_debounce_timer_def PULSE_TIMER_ISR_def
      SET_STEP_BITS_def Let_def)

lemma io_interrupts:
  "locked_still m0 m \<Longrightarrow> RxByte DOLLAR \<notin> set es \<Longrightarrow> RxByte 63 \<notin> set es \<Longrightarrow> \<not> bit_istrue (sys_rt_exec_state m) EXEC_STATUS_REPORT \<Longrightarrow>
   \<not> bit_istrue (sys_rt_exec_state (fold interrupt_step es m)) EXEC_STATUS_REPORT \<and> future (fold interrupt_step es m) = future m \<and>
   length (rx_contents (ser (fold interrupt_step es m))) \<le> length (rx_contents (ser m)) + length es"
proof (induction es arbitrary: m)
  case (Cons e es)
  have e: "RxByte DOLLAR \<noteq> e" "RxByte 63 \<noteq> e" using Cons.prems by simp_all
  have inv: "rx_inv (ser m)" using Cons.prems(1) by (simp add: locked_defs)
  note i = io_step_interrupt [OF Cons.prems(1) e(2)] locked_interrupt [OF Cons.prems(1) e(1)] inv
  then show ?case using Cons.IH [OF i(2)] Cons.prems by (simp add: io_step_def)
qed simp

lemma io_await:
  assumes "locked_still m0 m" "no_query m" "await m = Some n"
  shows "locked_still m0 n \<and> input_goes_on m n \<and> length (future n) < length (future m)"
proof -
  obtain es rest where f: "future m = es # rest" and n: "n = fold interrupt_step es (m\<lparr>future := rest\<rparr>)"
    using assms(3) by (auto simp: await_def split: list.splits)
  have "locked_still m0 (m\<lparr>future := rest\<rparr>)" using assms(1) by (simp add: locked_defs f)
  from io_interrupts [OF this, of es] show ?thesis
    using assms locked_await [OF assms(1)] by (simp add: f n [symmetric] no_query_def input_goes_on_def pending_def locked_still_def [of m0 m] no_dollar_def [of m])
qed

lemma io_poll: "locked_still m0 m \<Longrightarrow> no_query m \<Longrightarrow> input_goes_on m (poll m)"
  using io_await [of m0 m] by (cases "await m") (simp_all add: poll_def input_goes_on_def)

text \<open>The executor and the line execution leave the input alone but for their polling point.\<close>

lemma locked_pass_returns:
  assumes "locked_still m0 m" "no_query m"
  shows "\<exists>ret n. realtime_pass m = Some (ret, n) \<and> locked_still m0 n \<and> input_goes_on m n"
proof -
  let ?x = "sys_rt_exec_state m"
  have x: "\<not> bit_istrue ?x EXEC_STATUS_REPORT" "\<not> bit_istrue ?x EXEC_CYCLE_STOP"
    using assms by (simp_all add: no_query_def locked_defs)
  define n where "n = (if bit_istrue ?x EXEC_HOLDS then clear_exec EXEC_HOLDS m else m)"
  have n: "locked_still m0 n" using assms(1) locked_clear by (simp add: n_def)
  have hold: "execute_holds ?x m = (?x, n)" using locked_inactive(3) [OF assms(1)] by (simp add: execute_holds_def n_def)
  define k where "k = (if bit_istrue ?x EXEC_CYCLE_START then clear_exec EXEC_CYCLE_START n else n)"
  have k: "locked_still m0 k" using n locked_clear by (simp add: k_def)
  have "state (sys n) \<noteq> STATE_IDLE" using n by (simp add: locked_defs)
  then have "execute_cycle_start ?x n = Some k"
    using locked_inactive(4) [OF n] by (simp add: execute_cycle_start_def k_def)
  then have "execute_commands ?x m = Some (if ?x = 0 then m else k)"
    using x hold by (simp add: execute_commands_def execute_status_report_def execute_cycle_stop_def)
  moreover have "close_safety_door j = j" if "locked_still m0 j" for j using that by (simp add: close_safety_door_def locked_defs)
  moreover have "execute_alarm m = Some m" using assms(1) by (simp add: execute_alarm_def locked_defs)
  moreover have "locked_still m0 (if ?x = 0 then m else k)" using k assms(1) by simp
  ultimately have "realtime_pass m = Some (if bit_istrue ?x EXEC_RESET then (True, upd_sys (abort_update (\<lambda>_. True)) m)
      else (False, if ?x = 0 then m else k))"
    using locked_inactive(2) [of m0 "if ?x = 0 then m else k"] by (simp add: realtime_pass_def)
  moreover have "input_goes_on m (upd_sys f m)" "input_goes_on m m" "input_goes_on m k" for f
    using assms(2) clear_keeps_query
    by (simp_all add: input_goes_on_def no_query_def pending_def upd_sys_def k_def n_def clear_exec_def)
  moreover have "locked_still m0 (upd_sys (abort_update f) m)" for f using assms(1) by (simp add: locked_defs upd_sys_def)
  ultimately show ?thesis using k assms(1) by auto
qed

lemma locked_realtime_returns:
  assumes "locked_still m0 m" "no_query m"
  shows "\<exists>n. protocol_execute_realtime m = Some n \<and> locked_still m0 n \<and> input_goes_on m n"
proof -
  have p: "locked_still m0 (poll m)" "input_goes_on m (poll m)" using assms by (simp_all add: locked_poll io_poll)
  then obtain ret n where n: "realtime_pass (poll m) = Some (ret, n)" "locked_still m0 n" "input_goes_on (poll m) n"
    using locked_pass_returns [of m0 "poll m"] by (auto simp: input_goes_on_def)
  moreover have "suspend (sys n) = 0" using n(2) by (simp add: locked_defs)
  ultimately show ?thesis
    using input_goes_on_trans [OF p(2) n(3)] by (simp add: protocol_execute_realtime_def suspend_loop.simps)
qed

lemma input_goes_on_same:
  "input_goes_on m n \<Longrightarrow> ser k = ser n \<Longrightarrow> future k = future n \<Longrightarrow> sys_rt_exec_state k = sys_rt_exec_state n \<Longrightarrow> input_goes_on m k"
  by (simp add: input_goes_on_def no_query_def pending_def)

lemma locked_line_returns:
  assumes "locked_still m0 m" "no_query m"
  shows "\<exists>n. protocol_execute_line lm bd m = Some n \<and> locked_still m0 n \<and> input_goes_on m n"
proof -
  obtain n where n: "protocol_execute_realtime m = Some n" "locked_still m0 n" "input_goes_on m n"
    using locked_realtime_returns [OF assms] by blast
  have "DOLLAR \<notin> set (cstring (line_buf n))"
    using n(2) set_takeWhileD [of DOLLAR "\<lambda>c. c \<noteq> 0" "line_buf n"] by (auto simp: locked_defs cstring_def)
  then have "char_at (cstring (line_buf n)) 0 \<noteq> DOLLAR"
    by (auto simp: char_at_def in_set_conv_nth)
  moreover have "state (sys n) = STATE_ALARM" using n(2) by (simp add: locked_defs)
  moreover have "locked_still m0 (emit bs n) \<and> input_goes_on m (emit bs n)" for bs
    using n locked_emit by (simp add: input_goes_on_same [OF n(3)] emit_def)
  ultimately show ?thesis using n by (auto simp: protocol_execute_line_def Let_def)
qed

lemma locked_char_returns:
  assumes "locked_still m0 m" "no_query m" "c \<noteq> DOLLAR"
  shows "\<exists>ls' n. process_char lm bd c ls m = Some (ls', n) \<and> locked_still m0 n \<and> input_goes_on m n"
proof (cases "c = 10 \<or> c = 13")
  case True
  let ?m = "put_line ((line_buf m)[unat (line_char_counter ls) := 0]) m"
  have "locked_still m0 ?m" "no_query ?m" using assms locked_put_line by (simp_all add: no_query_def put_line_def)
  from locked_line_returns [OF this, of lm bd] show ?thesis
    using True by (auto simp: process_char_def put_line_def input_goes_on_def pending_def)
next
  case False
  have "input_goes_on m m" using assms(2) by (simp add: input_goes_on_def)
  then have "input_goes_on m (snd (filter_char c ls m))"
    by (auto simp: filter_char_def Let_def put_line_def emit_def intro: input_goes_on_same)
  then show ?thesis
    using False locked_filter [OF assms(1,3), of ls] by (cases "filter_char c ls m") (simp add: process_char_def)
qed

lemma locked_serial_returns:
  "locked_still m0 m \<Longrightarrow> no_query m \<Longrightarrow>
   \<exists>ls' n. process_serial lm bd ls m = Some (ls', n) \<and> locked_still m0 n \<and> input_goes_on m n"
proof (induction "pending m" arbitrary: m ls rule: less_induct)
  case less
  let ?c = "fst (serial_read (ser m))" and ?m = "m\<lparr>ser := snd (serial_read (ser m))\<rparr>"
  note rd = locked_read [OF less.prems(1)]
  have inv: "rx_inv (ser m)" using less.prems(1) by (simp add: locked_defs)
  show ?case
  proof (cases "?c = SERIAL_NO_DATA")
    case True
    have "pending ?m \<le> pending m"
      using serial_read_step [OF inv] rx_empty_iff [OF inv]
      by (cases "rx_contents (ser m) = []") (auto simp: pending_def serial_read_def Let_def)
    then show ?thesis
      using True rd less.prems(2) by (subst process_serial.simps) (simp add: case_prod_beta Let_def input_goes_on_def no_query_def)
  next
    case False
    have ne: "rx_contents (ser m) \<noteq> []" using False rx_empty_iff [OF inv] by (auto simp: serial_read_def)
    have lt: "pending ?m < pending m" using serial_read_step(2) [OF inv ne] by (simp add: pending_def)
    have q: "no_query ?m" using less.prems(2) by (simp add: no_query_def)
    obtain ls1 n where n: "process_char lm bd ?c ls ?m = Some (ls1, n)" "locked_still m0 n" "input_goes_on ?m n"
      using locked_char_returns [OF conjunct1 [OF rd] q conjunct2 [OF rd]] by blast
    have "pending n < pending m" "no_query n" using n(3) lt by (simp_all add: input_goes_on_def)
    from less.hyps [OF this(1) n(2) this(2), of ls1] obtain ls' r where
      r: "process_serial lm bd ls1 n = Some (ls', r)" "locked_still m0 r" "input_goes_on n r" by blast
    moreover have "input_goes_on m r"
      using input_goes_on_trans [OF n(3) r(3)] lt by (simp add: input_goes_on_def)
    moreover have "process_serial lm bd ls m = Some (ls', r)"
      using False n(1) r(1) by (subst process_serial.simps) (simp add: case_prod_beta Let_def)
    ultimately show ?thesis by blast
  qed
qed

lemma locked_main_returns:
  "locked_still m0 m \<Longrightarrow> no_query m \<Longrightarrow> \<exists>r. primary_loop lm bd ls m = Some r \<and> locked_still m0 r"
proof (induction "length (future m)" arbitrary: m ls rule: less_induct)
  case less
  obtain ls' n where n: "process_serial lm bd ls m = Some (ls', n)" "locked_still m0 n" "input_goes_on m n"
    using locked_serial_returns [OF less.prems] by blast
  have "locked_still m0 (protocol_auto_cycle_start n)"
    unfolding protocol_auto_cycle_start_def using n(2) by (rule locked_raise) simp
  moreover have "input_goes_on m (protocol_auto_cycle_start n)"
    using n(3) raise_keeps_query [of "sys_rt_exec_state n" EXEC_CYCLE_START]
    by (simp add: protocol_auto_cycle_start_def input_goes_on_def no_query_def pending_def raise_exec_def)
  ultimately obtain k where k: "protocol_execute_realtime (protocol_auto_cycle_start n) = Some k" "locked_still m0 k" "input_goes_on m k"
    using locked_realtime_returns [of m0 "protocol_auto_cycle_start n"] input_goes_on_trans by (auto simp: input_goes_on_def)
  show ?case
  proof (cases "abort (sys k) \<or> await k = None")
    case True
    then show ?thesis using n(1) k by (subst primary_loop.simps) auto
  next
    case False
    then obtain j where j: "await k = Some j" by auto
    have "no_query k" using k(3) by (simp add: input_goes_on_def)
    from io_await [OF k(2) this j] k(3) have "length (future j) < length (future m)" "locked_still m0 j" "no_query j"
      by (auto simp: input_goes_on_def)
    from less.hyps [OF this, of ls'] show ?thesis
      using False n(1) k j by (subst primary_loop.simps) simp
  qed
qed

text \<open>C9: An alarm locks the g-code out.  In the alarm state with the motors at rest, as long as the host sends no
  \<open>$\<close>, the main loop works off everything that is received, whatever the lines, real-time commands, pins and
  switches are; it always comes to an end of the input or to a reset, still in the alarm state, with nothing
  planned and every motor where it was.  Status requests are left out, since a report of a position of
  a thousand metres overruns the print buffer.\<close>

theorem alarm_locks_gcode:
  assumes "locked m" and "no_dollar m" and "no_query m"
  shows "\<exists>r. primary_loop lm bd ls m = Some r \<and> state (sys r) = STATE_ALARM \<and> motion_data r = motion_data m"
proof -
  have "locked_still m m" using assms(1,2) by (simp add: locked_still_def)
  from locked_main_returns [OF this assms(3), of lm bd ls] show ?thesis
    by (auto simp: locked_still_def locked_def)
qed

definition alarm_machine :: machine where
  "alarm_machine = set_state STATE_ALARM ((zero_machine fresh_flash)
     \<lparr>future := [[RxByte 71, RxByte 49, RxByte 88, RxByte 10], [CycleStartPin], [FeedHoldPin, StepTick, LimitEdge]]\<rparr>)"

theorem alarm_locks_gcode_witness:
  "\<exists>r. primary_loop \<lparr>m_sin = id, m_cos = id, m_atan2 = (\<lambda>x y. x)\<rparr> [] new_line alarm_machine = Some r \<and> state (sys r) = STATE_ALARM \<and> position (sys r) = [0, 0, 0]"
proof -
  have lock: "locked alarm_machine" "no_dollar alarm_machine" "no_query alarm_machine"
    by (simp_all add: alarm_machine_def zero_machine_def zero_system_def upd_sys_def locked_def no_dollar_def no_query_def
      rx_inv_def serial_zero_def RX_BUFFER_SIZE_def)
  from alarm_locks_gcode [OF lock, of "\<lparr>m_sin = id, m_cos = id, m_atan2 = (\<lambda>x y. x)\<rparr>" "[]" new_line] show ?thesis
    by (auto simp: alarm_machine_def zero_machine_def zero_system_def upd_sys_def motion_data_def)
qed

end
