(* ===== verification/Board.thy ===== *)
theory Board
  imports Settings
begin

text \<open>
  The set-up of the board: the pins of the processor, its timers, the serial port and the pin
  interrupts.  The macros of \<open>cpu_map_nucleof401.h\<close> write the mode, pull-up and output registers of the
  three ports themselves; everything else goes through the library libopencm3, whose calls are kept as
  data.  A set-up function is the list of its register writes and library calls in program order.
\<close>

section \<open>Registers and library calls\<close>

datatype gpio = GPIOA | GPIOB | GPIOC

datatype reg = MODER gpio | PUPDR gpio | ODR gpio

type_synonym regs = "reg \<Rightarrow> u32"

text \<open>The constants of the library are kept by name.\<close>

datatype timer = TIM2 | TIM3 | TIM4 | TIM5

datatype irq = NVIC_TIM2_IRQ | NVIC_TIM4_IRQ | NVIC_TIM5_IRQ | NVIC_EXTI0_IRQ | NVIC_EXTI1_IRQ | NVIC_EXTI2_IRQ
  | NVIC_EXTI3_IRQ | NVIC_EXTI4_IRQ | NVIC_EXTI9_5_IRQ | NVIC_USART2_IRQ | NVIC_DMA1_STREAM5_IRQ

datatype rcc = RCC_GPIO gpio | RCC_SYSCFG | RCC_TIM timer | RCC_USART2 | RCC_DMA1

datatype gpio_mode = GPIO_MODE_INPUT | GPIO_MODE_OUTPUT | GPIO_MODE_AF | GPIO_MODE_ANALOG

datatype gpio_pull = GPIO_PUPD_NONE | GPIO_PUPD_PULLUP | GPIO_PUPD_PULLDOWN

datatype trigger = EXTI_TRIGGER_RISING | EXTI_TRIGGER_FALLING | EXTI_TRIGGER_BOTH

datatype channel = TIM_OC1 | TIM_OC2 | TIM_OC3 | TIM_OC4 | TIM_IC1 | TIM_IC2 | TIM_IC3 | TIM_IC4

datatype timer_const = TIM_CR1_CKD_CK_INT | TIM_CR1_CMS_EDGE | TIM_CR1_DIR_UP | TIM_CR2_MMS_UPDATE | TIM_OCM_PWM1 | TIM_DIER_UIE

datatype timer_call =
    timer_continuous_mode
  | timer_set_mode timer_const timer_const timer_const
  | timer_set_clock_division u32
  | timer_set_master_mode timer_const
  | timer_enable_preload
  | timer_disable_oc_output channel
  | timer_enable_oc_output channel
  | timer_ic_disable channel
  | timer_update_on_overflow
  | timer_set_oc_mode channel timer_const
  | timer_enable_oc_preload channel
  | timer_set_oc_polarity_high channel
  | timer_set_prescaler u32
  | timer_set_period u32
  | timer_enable_irq timer_const
  | timer_enable_counter
  | timer_disable_counter

datatype usart_call =
    usart_set_baudrate u32
  | usart_set_databits u32
  | usart_set_stopbits_1
  | usart_set_mode_tx_rx
  | usart_set_parity_none
  | usart_set_flow_control_none
  | usart_enable_rx_dma
  | usart_enable

datatype dma_const = DMA_SxCR_DIR_PERIPHERAL_TO_MEM | DMA_SxCR_MSIZE_8BIT | DMA_SxCR_PSIZE_8BIT | DMA_SxCR_CHSEL_4
  | DMA_SxCR_MBURST_SINGLE | DMA_SxCR_PBURST_SINGLE | DMA_TCIF

datatype address = USART2_BASE_plus u32 | Serial_rx_dma_data

datatype dma_call =
    dma_disable_stream
  | dma_stream_reset
  | dma_set_transfer_mode dma_const
  | dma_set_memory_size dma_const
  | dma_set_peripheral_size dma_const
  | dma_enable_memory_increment_mode
  | dma_disable_peripheral_increment_mode
  | dma_enable_circular_mode
  | dma_channel_select dma_const
  | dma_set_memory_burst dma_const
  | dma_set_peripheral_burst dma_const
  | dma_set_initial_target u8
  | dma_disable_double_buffer_mode
  | dma_set_dma_flow_control
  | dma_enable_direct_mode
  | dma_set_peripheral_address address
  | dma_set_memory_address address
  | dma_set_number_of_data u16
  | dma_clear_interrupt_flags dma_const
  | dma_enable_transfer_complete_interrupt
  | dma_enable_stream

text \<open>A set of pins or of external interrupt lines, in C the disjunction of their bits, is the list of
  their numbers.\<close>

datatype lib_call =
    rcc_periph_clock_enable rcc
  | rcc_periph_reset_pulse timer
  | gpio_mode_setup gpio gpio_mode gpio_pull "nat list"
  | gpio_set_af gpio nat "nat list"
  | exti_reset_request "nat list"
  | exti_select_source "nat list" gpio
  | exti_enable_request "nat list"
  | exti_set_trigger "nat list" trigger
  | nvic_enable_irq irq
  | nvic_disable_irq irq
  | nvic_clear_pending_irq irq
  | nvic_set_priority irq u8
  | timer_call timer timer_call
  | usart_call usart_call
  | dma_call dma_call

text \<open>\<open>r &= ~m\<close>, \<open>r |= m\<close> and a call.\<close>

datatype board_op = clear_bits reg u32 | set_bits reg u32 | lib lib_call

text \<open>What a call does to the registers of the ports is the library's affair.\<close>

fun exec_op :: "(lib_call \<Rightarrow> regs \<Rightarrow> regs) \<Rightarrow> board_op \<Rightarrow> regs \<Rightarrow> regs" where
  "exec_op library (clear_bits r m) s = s(r := s r AND NOT m)"
| "exec_op library (set_bits r m) s = s(r := s r OR m)"
| "exec_op library (lib c) s = library c s"

definition run_board :: "(lib_call \<Rightarrow> regs \<Rightarrow> regs) \<Rightarrow> board_op list \<Rightarrow> regs \<Rightarrow> regs" where
  "run_board library ops = fold (exec_op library) ops"

section \<open>Pins\<close>

text \<open>Every pin has a field of two bits in the mode register (0 input, 1 output, 2 alternate function) and in the
  pull-up register (0 none, 1 pull-up); the masks are the macros of the cpu map.\<close>

definition mode_bit :: "nat \<Rightarrow> u32" where "mode_bit k = push_bit (k * 2) 1"
definition mode_bits :: "nat \<Rightarrow> u32" where "mode_bits k = push_bit (k * 2) 3"

definition X_STEP_BIT :: nat where "X_STEP_BIT = 10"
definition Y_STEP_BIT :: nat where "Y_STEP_BIT = 3"
definition Z_STEP_BIT :: nat where "Z_STEP_BIT = 5"
definition Z_DIRECTION_BIT :: nat where "Z_DIRECTION_BIT = 8"
definition X_DIRECTION_BIT :: nat where "X_DIRECTION_BIT = 4"
definition Y_DIRECTION_BIT :: nat where "Y_DIRECTION_BIT = 10"
definition STEPPERS_DISABLE_BIT :: nat where "STEPPERS_DISABLE_BIT = 9"
definition X_LIMIT_BIT :: nat where "X_LIMIT_BIT = 7"
definition Y_LIMIT_BIT :: nat where "Y_LIMIT_BIT = 6"
definition Z_LIMIT_BIT :: nat where "Z_LIMIT_BIT = 0"
definition RESET_BIT :: nat where "RESET_BIT = 2"
definition FEED_HOLD_BIT :: nat where "FEED_HOLD_BIT = 1"
definition CYCLE_START_BIT :: nat where "CYCLE_START_BIT = 4"
definition SAFETY_DOOR_BIT :: nat where "SAFETY_DOOR_BIT = 3"
definition PROBE_BIT :: nat where "PROBE_BIT = 0"
definition SPINDLE_DIRECTION_BIT :: nat where "SPINDLE_DIRECTION_BIT = 5"
definition SPINDLE_PWM_BIT :: nat where "SPINDLE_PWM_BIT = 6"
definition COOLANT_FLOOD_BIT :: nat where "COOLANT_FLOOD_BIT = 1"

definition STEP_MASK_X_DDR :: u32 where "STEP_MASK_X_DDR = mode_bit X_STEP_BIT"
definition STEP_X_DDR_RESET_MASK :: u32 where "STEP_X_DDR_RESET_MASK = mode_bits X_STEP_BIT"
definition STEP_MASK_YZ_DDR :: u32 where "STEP_MASK_YZ_DDR = mode_bit Y_STEP_BIT OR mode_bit Z_STEP_BIT"
definition STEP_YZ_DDR_RESET_MASK :: u32 where "STEP_YZ_DDR_RESET_MASK = mode_bits Y_STEP_BIT OR mode_bits Z_STEP_BIT"
definition DIRECTION_MASK_Z_DDR :: u32 where "DIRECTION_MASK_Z_DDR = mode_bit Z_DIRECTION_BIT"
definition DIRECTION_Z_DDR_RESET_MASK :: u32 where "DIRECTION_Z_DDR_RESET_MASK = mode_bits Z_DIRECTION_BIT"
definition DIRECTION_MASK_XY_DDR :: u32 where "DIRECTION_MASK_XY_DDR = mode_bit X_DIRECTION_BIT OR mode_bit Y_DIRECTION_BIT"
definition DIRECTION_XY_DDR_RESET_MASK :: u32 where "DIRECTION_XY_DDR_RESET_MASK = mode_bits X_DIRECTION_BIT OR mode_bits Y_DIRECTION_BIT"
definition STEPPERS_DISABLE_MASK_DDR :: u32 where "STEPPERS_DISABLE_MASK_DDR = mode_bit STEPPERS_DISABLE_BIT"
definition LIMIT_X_PU_MASK :: u32 where "LIMIT_X_PU_MASK = mode_bit X_LIMIT_BIT"
definition LIMIT_X_PU_RESET_MASK :: u32 where "LIMIT_X_PU_RESET_MASK = mode_bits X_LIMIT_BIT"
definition LIMIT_Y_PU_MASK :: u32 where "LIMIT_Y_PU_MASK = mode_bit Y_LIMIT_BIT"
definition LIMIT_Y_PU_RESET_MASK :: u32 where "LIMIT_Y_PU_RESET_MASK = mode_bits Y_LIMIT_BIT"
definition LIMIT_Z_PU_MASK :: u32 where "LIMIT_Z_PU_MASK = mode_bit Z_LIMIT_BIT"
definition LIMIT_Z_PU_RESET_MASK :: u32 where "LIMIT_Z_PU_RESET_MASK = mode_bits Z_LIMIT_BIT"
definition RESET_CONTROL_PU_MASK :: u32 where "RESET_CONTROL_PU_MASK = mode_bit RESET_BIT"
definition RESET_CONTROL_PU_RESET_MASK :: u32 where "RESET_CONTROL_PU_RESET_MASK = mode_bits RESET_BIT"
definition FEED_HOLD_PU_MASK :: u32 where "FEED_HOLD_PU_MASK = mode_bit FEED_HOLD_BIT"
definition FEED_HOLD_PU_RESET_MASK :: u32 where "FEED_HOLD_PU_RESET_MASK = mode_bits FEED_HOLD_BIT"
definition CYCLE_START_PU_MASK :: u32 where "CYCLE_START_PU_MASK = mode_bit CYCLE_START_BIT"
definition CYCLE_START_PU_RESET_MASK :: u32 where "CYCLE_START_PU_RESET_MASK = mode_bits CYCLE_START_BIT"
definition SAFETY_DOOR_PU_MASK :: u32 where "SAFETY_DOOR_PU_MASK = mode_bit SAFETY_DOOR_BIT"
definition SAFETY_DOOR_PU_RESET_MASK :: u32 where "SAFETY_DOOR_PU_RESET_MASK = mode_bits SAFETY_DOOR_BIT"
definition PROBE_PU_MASK :: u32 where "PROBE_PU_MASK = mode_bit PROBE_BIT"
definition PROBE_PU_RESET_MASK :: u32 where "PROBE_PU_RESET_MASK = mode_bits PROBE_BIT"
definition SPINDLE_DIRECTION_MASK_DDR :: u32 where "SPINDLE_DIRECTION_MASK_DDR = mode_bit SPINDLE_DIRECTION_BIT"
definition SPINDLE_DIRECTION_DDR_RESET_MASK :: u32 where "SPINDLE_DIRECTION_DDR_RESET_MASK = mode_bits SPINDLE_DIRECTION_BIT"
definition SPINDLE_PWM_MASK_DDR :: u32 where "SPINDLE_PWM_MASK_DDR = mode_bit SPINDLE_PWM_BIT"
definition SPINDLE_PWM_DDR_RESET_MASK :: u32 where "SPINDLE_PWM_DDR_RESET_MASK = mode_bits SPINDLE_PWM_BIT"
definition COOLANT_FLOOD_DDR_MASK :: u32 where "COOLANT_FLOOD_DDR_MASK = mode_bit COOLANT_FLOOD_BIT"
definition COOLANT_FLOOD_DDR_RESET_MASK :: u32 where "COOLANT_FLOOD_DDR_RESET_MASK = mode_bits COOLANT_FLOOD_BIT"
lemmas pin_bits = X_STEP_BIT_def Y_STEP_BIT_def Z_STEP_BIT_def Z_DIRECTION_BIT_def X_DIRECTION_BIT_def Y_DIRECTION_BIT_def STEPPERS_DISABLE_BIT_def X_LIMIT_BIT_def Y_LIMIT_BIT_def Z_LIMIT_BIT_def RESET_BIT_def FEED_HOLD_BIT_def CYCLE_START_BIT_def SAFETY_DOOR_BIT_def PROBE_BIT_def SPINDLE_DIRECTION_BIT_def SPINDLE_PWM_BIT_def COOLANT_FLOOD_BIT_def

lemmas pin_masks = STEP_MASK_X_DDR_def STEP_X_DDR_RESET_MASK_def STEP_MASK_YZ_DDR_def STEP_YZ_DDR_RESET_MASK_def DIRECTION_MASK_Z_DDR_def DIRECTION_Z_DDR_RESET_MASK_def DIRECTION_MASK_XY_DDR_def DIRECTION_XY_DDR_RESET_MASK_def STEPPERS_DISABLE_MASK_DDR_def LIMIT_X_PU_MASK_def LIMIT_X_PU_RESET_MASK_def LIMIT_Y_PU_MASK_def LIMIT_Y_PU_RESET_MASK_def LIMIT_Z_PU_MASK_def LIMIT_Z_PU_RESET_MASK_def RESET_CONTROL_PU_MASK_def RESET_CONTROL_PU_RESET_MASK_def FEED_HOLD_PU_MASK_def FEED_HOLD_PU_RESET_MASK_def CYCLE_START_PU_MASK_def CYCLE_START_PU_RESET_MASK_def SAFETY_DOOR_PU_MASK_def SAFETY_DOOR_PU_RESET_MASK_def PROBE_PU_MASK_def PROBE_PU_RESET_MASK_def SPINDLE_DIRECTION_MASK_DDR_def SPINDLE_DIRECTION_DDR_RESET_MASK_def SPINDLE_PWM_MASK_DDR_def SPINDLE_PWM_DDR_RESET_MASK_def COOLANT_FLOOD_DDR_MASK_def COOLANT_FLOOD_DDR_RESET_MASK_def

section \<open>The macros of the cpu map\<close>

definition SET_GPIOS_RCCS :: "board_op list" where
  "SET_GPIOS_RCCS = [lib (rcc_periph_clock_enable (RCC_GPIO GPIOA)), lib (rcc_periph_clock_enable (RCC_GPIO GPIOB))]"

definition SET_STEP_DDR :: "board_op list" where
  "SET_STEP_DDR =
     [clear_bits (MODER GPIOA) STEP_X_DDR_RESET_MASK, clear_bits (MODER GPIOB) STEP_YZ_DDR_RESET_MASK,
      set_bits (MODER GPIOA) STEP_MASK_X_DDR, set_bits (MODER GPIOB) STEP_MASK_YZ_DDR]"

definition SET_DIRECTION_DDR :: "board_op list" where
  "SET_DIRECTION_DDR =
     [clear_bits (MODER GPIOB) DIRECTION_XY_DDR_RESET_MASK, clear_bits (MODER GPIOA) DIRECTION_Z_DDR_RESET_MASK,
      set_bits (MODER GPIOB) DIRECTION_MASK_XY_DDR, set_bits (MODER GPIOA) DIRECTION_MASK_Z_DDR]"

definition SET_LIMITS_RCC :: "board_op list" where
  "SET_LIMITS_RCC =
     [lib (rcc_periph_clock_enable (RCC_GPIO GPIOB)), lib (rcc_periph_clock_enable (RCC_GPIO GPIOC)),
      lib (rcc_periph_clock_enable RCC_SYSCFG)]"

definition SET_SYSTEM_RCC :: "board_op list" where
  "SET_SYSTEM_RCC =
     [lib (rcc_periph_clock_enable (RCC_GPIO GPIOA)), lib (rcc_periph_clock_enable (RCC_GPIO GPIOB)),
      lib (rcc_periph_clock_enable (RCC_GPIO GPIOC)), lib (rcc_periph_clock_enable RCC_SYSCFG)]"

definition SET_LIMITS_DDR :: "board_op list" where
  "SET_LIMITS_DDR =
     [clear_bits (MODER GPIOC) LIMIT_X_PU_RESET_MASK, clear_bits (MODER GPIOB) LIMIT_Y_PU_RESET_MASK,
      clear_bits (MODER GPIOB) LIMIT_Z_PU_RESET_MASK]"

definition SET_LIMITS_PU :: "board_op list" where
  "SET_LIMITS_PU =
     [clear_bits (PUPDR GPIOC) LIMIT_X_PU_RESET_MASK, clear_bits (PUPDR GPIOB) LIMIT_Y_PU_RESET_MASK,
      clear_bits (PUPDR GPIOB) LIMIT_Z_PU_RESET_MASK, set_bits (PUPDR GPIOC) LIMIT_X_PU_MASK,
      set_bits (PUPDR GPIOB) LIMIT_Y_PU_MASK, set_bits (PUPDR GPIOB) LIMIT_Z_PU_MASK]"

definition SET_CONTROLS_DDR :: "board_op list" where
  "SET_CONTROLS_DDR =
     [clear_bits (MODER GPIOB) RESET_CONTROL_PU_RESET_MASK, clear_bits (MODER GPIOA) FEED_HOLD_PU_RESET_MASK,
      clear_bits (MODER GPIOA) CYCLE_START_PU_RESET_MASK, clear_bits (MODER GPIOC) SAFETY_DOOR_PU_RESET_MASK]"

definition SET_CONTROLS_PU :: "board_op list" where
  "SET_CONTROLS_PU =
     [clear_bits (PUPDR GPIOB) RESET_CONTROL_PU_RESET_MASK, clear_bits (PUPDR GPIOA) FEED_HOLD_PU_RESET_MASK,
      clear_bits (PUPDR GPIOA) CYCLE_START_PU_RESET_MASK, clear_bits (PUPDR GPIOC) SAFETY_DOOR_PU_RESET_MASK,
      set_bits (PUPDR GPIOB) RESET_CONTROL_PU_MASK, set_bits (PUPDR GPIOA) FEED_HOLD_PU_MASK,
      set_bits (PUPDR GPIOA) CYCLE_START_PU_MASK, set_bits (PUPDR GPIOC) SAFETY_DOOR_PU_MASK]"

definition SET_SPINDLE_DIRECTION_DDR :: "board_op list" where
  "SET_SPINDLE_DIRECTION_DDR =
     [clear_bits (MODER GPIOA) SPINDLE_DIRECTION_DDR_RESET_MASK, set_bits (MODER GPIOA) SPINDLE_DIRECTION_MASK_DDR]"

definition SET_SPINDLE_PWM_DDR :: "board_op list" where
  "SET_SPINDLE_PWM_DDR = [clear_bits (MODER GPIOA) SPINDLE_PWM_DDR_RESET_MASK, set_bits (MODER GPIOA) SPINDLE_PWM_MASK_DDR]"

definition SET_PROBE_DDR :: "board_op list" where
  "SET_PROBE_DDR = [clear_bits (MODER GPIOC) PROBE_PU_RESET_MASK]"

definition SET_PROBE_PU :: "board_op list" where
  "SET_PROBE_PU = [clear_bits (PUPDR GPIOC) PROBE_PU_RESET_MASK, set_bits (PUPDR GPIOC) PROBE_PU_MASK]"

definition SET_COOLANT_FLOOD_DDR :: "board_op list" where
  "SET_COOLANT_FLOOD_DDR = [clear_bits (MODER GPIOC) COOLANT_FLOOD_DDR_RESET_MASK, set_bits (MODER GPIOC) COOLANT_FLOOD_DDR_MASK]"

definition UNSET_COOLANT_FLOOD_BIT :: "board_op list" where
  "UNSET_COOLANT_FLOOD_BIT = [clear_bits (ODR GPIOC) (push_bit COOLANT_FLOOD_BIT 1)]"

lemmas pin_macros = SET_GPIOS_RCCS_def SET_STEP_DDR_def SET_DIRECTION_DDR_def SET_LIMITS_RCC_def SET_SYSTEM_RCC_def
  SET_LIMITS_DDR_def SET_LIMITS_PU_def SET_CONTROLS_DDR_def SET_CONTROLS_PU_def SET_SPINDLE_DIRECTION_DDR_def
  SET_SPINDLE_PWM_DDR_def SET_PROBE_DDR_def SET_PROBE_PU_def SET_COOLANT_FLOOD_DDR_def UNSET_COOLANT_FLOOD_BIT_def

text \<open>The names the cpu map gives to what the firmware uses.\<close>

abbreviation (input) SPINDLE_TIMER :: timer where "SPINDLE_TIMER \<equiv> TIM3"
abbreviation (input) STEPPER_MAIN_TIMER :: timer where "STEPPER_MAIN_TIMER \<equiv> TIM4"
abbreviation (input) STEPPER_PULSE_TIMER :: timer where "STEPPER_PULSE_TIMER \<equiv> TIM2"
abbreviation (input) SW_DEBOUNCE_TIMER :: timer where "SW_DEBOUNCE_TIMER \<equiv> TIM5"
abbreviation (input) MAIN_TIMER_IRQ :: irq where "MAIN_TIMER_IRQ \<equiv> NVIC_TIM4_IRQ"
abbreviation (input) PULSE_TIMER_IRQ :: irq where "PULSE_TIMER_IRQ \<equiv> NVIC_TIM2_IRQ"
abbreviation (input) SW_DEBOUNCE_TIMER_IRQ :: irq where "SW_DEBOUNCE_TIMER_IRQ \<equiv> NVIC_TIM5_IRQ"
abbreviation (input) SERIAL_USART_IRQ :: irq where "SERIAL_USART_IRQ \<equiv> NVIC_USART2_IRQ"
abbreviation (input) SERIAL_DMA_IRQ :: irq where "SERIAL_DMA_IRQ \<equiv> NVIC_DMA1_STREAM5_IRQ"
abbreviation (input) LIMIT_INT :: irq where "LIMIT_INT \<equiv> NVIC_EXTI9_5_IRQ"
abbreviation (input) LIMIT_INT_Z :: irq where "LIMIT_INT_Z \<equiv> NVIC_EXTI0_IRQ"
abbreviation (input) RESET_CONTROL_INT :: irq where "RESET_CONTROL_INT \<equiv> NVIC_EXTI2_IRQ"
abbreviation (input) FEED_HOLD_CONTROL_INT :: irq where "FEED_HOLD_CONTROL_INT \<equiv> NVIC_EXTI1_IRQ"
abbreviation (input) CYCLE_START_CONTROL_INT :: irq where "CYCLE_START_CONTROL_INT \<equiv> NVIC_EXTI4_IRQ"
abbreviation (input) SAFETY_DOOR_CONTROL_INT :: irq where "SAFETY_DOOR_CONTROL_INT \<equiv> NVIC_EXTI3_IRQ"

definition LIMIT_INT_vect :: "nat list" where "LIMIT_INT_vect = [6, 7]"
definition LIMIT_INT_vect_Z :: "nat list" where "LIMIT_INT_vect_Z = [0]"
definition RESET_CONTROL_INT_vect :: "nat list" where "RESET_CONTROL_INT_vect = [2]"
definition FEED_HOLD_CONTROL_INT_vect :: "nat list" where "FEED_HOLD_CONTROL_INT_vect = [1]"
definition CYCLE_START_CONTROL_INT_vect :: "nat list" where "CYCLE_START_CONTROL_INT_vect = [4]"
definition SAFETY_DOOR_CONTROL_INT_vect :: "nat list" where "SAFETY_DOOR_CONTROL_INT_vect = [3]"

definition CONTROL_INT_vect :: "nat list" where
  "CONTROL_INT_vect = RESET_CONTROL_INT_vect @ FEED_HOLD_CONTROL_INT_vect @ CYCLE_START_CONTROL_INT_vect @ SAFETY_DOOR_CONTROL_INT_vect"

lemmas int_vects = LIMIT_INT_vect_def LIMIT_INT_vect_Z_def RESET_CONTROL_INT_vect_def FEED_HOLD_CONTROL_INT_vect_def
  CYCLE_START_CONTROL_INT_vect_def SAFETY_DOOR_CONTROL_INT_vect_def CONTROL_INT_vect_def

section \<open>The set-up functions\<close>

definition BAUD_RATE :: u32 where "BAUD_RATE = 115200"

definition serial_rx_dma_init :: "board_op list" where
  "serial_rx_dma_init =
     [lib (rcc_periph_clock_enable RCC_DMA1),
      lib (dma_call dma_disable_stream),
      lib (dma_call dma_stream_reset),
      lib (dma_call (dma_set_transfer_mode DMA_SxCR_DIR_PERIPHERAL_TO_MEM)),
      lib (dma_call (dma_set_memory_size DMA_SxCR_MSIZE_8BIT)),
      lib (dma_call (dma_set_peripheral_size DMA_SxCR_PSIZE_8BIT)),
      lib (dma_call dma_enable_memory_increment_mode),
      lib (dma_call dma_disable_peripheral_increment_mode),
      lib (dma_call dma_enable_circular_mode),
      lib (dma_call (dma_channel_select DMA_SxCR_CHSEL_4)),
      lib (dma_call (dma_set_memory_burst DMA_SxCR_MBURST_SINGLE)),
      lib (dma_call (dma_set_peripheral_burst DMA_SxCR_PBURST_SINGLE)),
      lib (dma_call (dma_set_initial_target 0)),
      lib (dma_call dma_disable_double_buffer_mode),
      lib (dma_call dma_set_dma_flow_control),
      lib (dma_call dma_enable_direct_mode),
      lib (dma_call (dma_set_peripheral_address (USART2_BASE_plus 4))),
      lib (dma_call (dma_set_memory_address Serial_rx_dma_data)),
      lib (dma_call (dma_set_number_of_data 1)),
      lib (dma_call (dma_clear_interrupt_flags DMA_TCIF)),
      lib (dma_call dma_enable_transfer_complete_interrupt),
      lib (dma_call dma_enable_stream),
      lib (nvic_enable_irq SERIAL_DMA_IRQ)]"

definition serial_init :: "board_op list" where
  "serial_init =
     [lib (rcc_periph_clock_enable (RCC_GPIO GPIOA)),
      lib (rcc_periph_clock_enable RCC_USART2),
      lib (gpio_mode_setup GPIOA GPIO_MODE_AF GPIO_PUPD_NONE [2, 3]),
      lib (gpio_set_af GPIOA 7 [2, 3]),
      lib (usart_call (usart_set_baudrate BAUD_RATE)),
      lib (usart_call (usart_set_databits 8)),
      lib (usart_call usart_set_stopbits_1),
      lib (usart_call usart_set_mode_tx_rx),
      lib (usart_call usart_set_parity_none),
      lib (usart_call usart_set_flow_control_none),
      lib (usart_call usart_enable_rx_dma)] @
     serial_rx_dma_init @
     [lib (usart_call usart_enable),
      lib (nvic_enable_irq SERIAL_USART_IRQ)]"

definition stepper_init :: "board_op list" where
  "stepper_init =
     SET_GPIOS_RCCS @ SET_STEP_DDR @ [set_bits (MODER GPIOA) STEPPERS_DISABLE_MASK_DDR] @ SET_DIRECTION_DDR @
     [lib (rcc_periph_clock_enable (RCC_TIM STEPPER_MAIN_TIMER)),
      lib (rcc_periph_reset_pulse STEPPER_MAIN_TIMER),
      lib (timer_call STEPPER_MAIN_TIMER timer_continuous_mode),
      lib (timer_call STEPPER_MAIN_TIMER (timer_set_mode TIM_CR1_CKD_CK_INT TIM_CR1_CMS_EDGE TIM_CR1_DIR_UP)),
      lib (timer_call STEPPER_MAIN_TIMER timer_enable_preload),
      lib (timer_call STEPPER_MAIN_TIMER (timer_disable_oc_output TIM_OC1)),
      lib (timer_call STEPPER_MAIN_TIMER (timer_disable_oc_output TIM_OC2)),
      lib (timer_call STEPPER_MAIN_TIMER (timer_disable_oc_output TIM_OC3)),
      lib (timer_call STEPPER_MAIN_TIMER (timer_disable_oc_output TIM_OC4)),
      lib (timer_call STEPPER_MAIN_TIMER (timer_ic_disable TIM_IC1)),
      lib (timer_call STEPPER_MAIN_TIMER (timer_ic_disable TIM_IC2)),
      lib (timer_call STEPPER_MAIN_TIMER (timer_ic_disable TIM_IC3)),
      lib (timer_call STEPPER_MAIN_TIMER (timer_ic_disable TIM_IC4)),
      lib (timer_call STEPPER_MAIN_TIMER timer_update_on_overflow),
      lib (rcc_periph_clock_enable (RCC_TIM STEPPER_PULSE_TIMER)),
      lib (rcc_periph_reset_pulse STEPPER_PULSE_TIMER),
      lib (timer_call STEPPER_PULSE_TIMER (timer_set_mode TIM_CR1_CKD_CK_INT TIM_CR1_CMS_EDGE TIM_CR1_DIR_UP)),
      lib (nvic_enable_irq MAIN_TIMER_IRQ),
      lib (nvic_set_priority MAIN_TIMER_IRQ 0x40),
      lib (nvic_enable_irq PULSE_TIMER_IRQ),
      lib (timer_call STEPPER_PULSE_TIMER (timer_enable_irq TIM_DIER_UIE))]"

definition system_init :: "board_op list" where
  "system_init =
     SET_SYSTEM_RCC @ SET_CONTROLS_DDR @ SET_CONTROLS_PU @
     [lib (exti_reset_request RESET_CONTROL_INT_vect), lib (exti_reset_request FEED_HOLD_CONTROL_INT_vect),
      lib (exti_reset_request CYCLE_START_CONTROL_INT_vect), lib (exti_reset_request SAFETY_DOOR_CONTROL_INT_vect),
      lib (nvic_clear_pending_irq FEED_HOLD_CONTROL_INT), lib (nvic_clear_pending_irq RESET_CONTROL_INT),
      lib (nvic_clear_pending_irq SAFETY_DOOR_CONTROL_INT), lib (nvic_clear_pending_irq CYCLE_START_CONTROL_INT),
      lib (exti_select_source RESET_CONTROL_INT_vect GPIOB), lib (exti_select_source FEED_HOLD_CONTROL_INT_vect GPIOA),
      lib (exti_select_source CYCLE_START_CONTROL_INT_vect GPIOA), lib (exti_select_source SAFETY_DOOR_CONTROL_INT_vect GPIOC),
      lib (exti_enable_request CONTROL_INT_vect), lib (exti_set_trigger CONTROL_INT_vect EXTI_TRIGGER_FALLING),
      lib (nvic_enable_irq RESET_CONTROL_INT), lib (nvic_enable_irq FEED_HOLD_CONTROL_INT),
      lib (nvic_enable_irq CYCLE_START_CONTROL_INT), lib (nvic_enable_irq SAFETY_DOOR_CONTROL_INT)]"

text \<open>The prescaler comes from the frequency of the peripheral bus, a variable of the library.\<close>

definition spindle_stop_ops :: "board_op list" where
  "spindle_stop_ops = [lib (timer_call SPINDLE_TIMER (timer_disable_oc_output TIM_OC1)), lib (timer_call SPINDLE_TIMER timer_disable_counter)]"

definition spindle_init :: "u32 \<Rightarrow> board_op list" where
  "spindle_init rcc_apb1_frequency =
     (let prescaler = rcc_apb1_frequency div 1000000 - 1 in
      SET_SPINDLE_PWM_DDR @ SET_SPINDLE_DIRECTION_DDR @
      [lib (rcc_periph_clock_enable (RCC_TIM SPINDLE_TIMER)),
       lib (rcc_periph_reset_pulse SPINDLE_TIMER),
       lib (timer_call SPINDLE_TIMER timer_continuous_mode),
       lib (timer_call SPINDLE_TIMER (timer_set_mode TIM_CR1_CKD_CK_INT TIM_CR1_CMS_EDGE TIM_CR1_DIR_UP)),
       lib (timer_call SPINDLE_TIMER (timer_set_clock_division 0)),
       lib (timer_call SPINDLE_TIMER (timer_set_master_mode TIM_CR2_MMS_UPDATE)),
       lib (timer_call SPINDLE_TIMER timer_enable_preload),
       lib (timer_call SPINDLE_TIMER (timer_set_oc_mode TIM_OC1 TIM_OCM_PWM1)),
       lib (timer_call SPINDLE_TIMER (timer_enable_oc_preload TIM_OC1)),
       lib (timer_call SPINDLE_TIMER (timer_set_oc_polarity_high TIM_OC1)),
       lib (timer_call SPINDLE_TIMER (timer_enable_oc_output TIM_OC1)),
       lib (timer_call SPINDLE_TIMER (timer_set_prescaler prescaler)),
       lib (gpio_mode_setup GPIOA GPIO_MODE_AF GPIO_PUPD_NONE [6]),
       lib (gpio_set_af GPIOA 2 [6])] @
      spindle_stop_ops)"

definition coolant_init :: "board_op list" where
  "coolant_init = [lib (rcc_periph_clock_enable (RCC_GPIO GPIOC))] @ SET_COOLANT_FLOOD_DDR @ UNSET_COOLANT_FLOOD_BIT"

definition limits_disable_ops :: "board_op list" where
  "limits_disable_ops = [lib (nvic_disable_irq LIMIT_INT), lib (nvic_disable_irq LIMIT_INT_Z)]"

definition limits_init_ops :: "settings_t \<Rightarrow> board_op list" where
  "limits_init_ops c =
     SET_LIMITS_RCC @ SET_LIMITS_DDR @ SET_LIMITS_PU @
     (if bit_istrue (flags c) BITFLAG_HARD_LIMIT_ENABLE then
        [lib (exti_reset_request LIMIT_INT_vect), lib (exti_reset_request LIMIT_INT_vect_Z),
         lib (nvic_clear_pending_irq LIMIT_INT), lib (nvic_clear_pending_irq LIMIT_INT_Z),
         lib (exti_select_source [7] GPIOC), lib (exti_select_source [6] GPIOB), lib (exti_select_source [0] GPIOB),
         lib (exti_enable_request LIMIT_INT_vect), lib (exti_set_trigger LIMIT_INT_vect EXTI_TRIGGER_FALLING),
         lib (nvic_enable_irq LIMIT_INT),
         lib (exti_enable_request LIMIT_INT_vect_Z), lib (exti_set_trigger LIMIT_INT_vect_Z EXTI_TRIGGER_FALLING),
         lib (nvic_enable_irq LIMIT_INT_Z)]
      else limits_disable_ops)"

definition probe_init :: "board_op list" where
  "probe_init = [lib (rcc_periph_clock_enable (RCC_GPIO GPIOC))] @ SET_PROBE_DDR @ SET_PROBE_PU"

definition PSC_MUL_FACTOR :: u32 where "PSC_MUL_FACTOR = 3"

definition enable_debounce_timer_ops :: "board_op list" where
  "enable_debounce_timer_ops =
     [lib (rcc_periph_clock_enable (RCC_TIM SW_DEBOUNCE_TIMER)),
      lib (rcc_periph_reset_pulse SW_DEBOUNCE_TIMER),
      lib (timer_call SW_DEBOUNCE_TIMER timer_continuous_mode),
      lib (timer_call SW_DEBOUNCE_TIMER (timer_set_mode TIM_CR1_CKD_CK_INT TIM_CR1_CMS_EDGE TIM_CR1_DIR_UP)),
      lib (timer_call SW_DEBOUNCE_TIMER timer_enable_preload),
      lib (timer_call SW_DEBOUNCE_TIMER (timer_set_prescaler (256 * PSC_MUL_FACTOR - 1))),
      lib (timer_call SW_DEBOUNCE_TIMER (timer_set_period 0x09FF)),
      lib (timer_call SW_DEBOUNCE_TIMER (timer_enable_irq TIM_DIER_UIE)),
      lib (nvic_enable_irq SW_DEBOUNCE_TIMER_IRQ),
      lib (timer_call SW_DEBOUNCE_TIMER timer_enable_counter)]"

text \<open>The order of the main program: once at power-up, and again at every reset.\<close>

definition power_up_ops :: "board_op list" where
  "power_up_ops = serial_init @ stepper_init @ system_init"

definition reset_ops :: "u32 \<Rightarrow> settings_t \<Rightarrow> board_op list" where
  "reset_ops rcc_apb1_frequency c = spindle_init rcc_apb1_frequency @ coolant_init @ limits_init_ops c @ probe_init"

text \<open>All the set-up the board sees until after the resets with these settings.\<close>

definition board_ops :: "u32 \<Rightarrow> settings_t list \<Rightarrow> board_op list" where
  "board_ops freq cs = power_up_ops @ concat (map (reset_ops freq) cs)"

lemmas setup_ops = serial_rx_dma_init_def serial_init_def stepper_init_def system_init_def spindle_stop_ops_def spindle_init_def
  coolant_init_def limits_disable_ops_def limits_init_ops_def probe_init_def power_up_ops_def reset_ops_def Let_def

end
