(* ===== verification/BoardSetup.thy ===== *)
theory BoardSetup
  imports Board
begin

text \<open>
  What the set-up of the board achieves, whatever the registers held before: every pin has its mode
  and pull-up, no peripheral is touched before its clock runs, every input line interrupts from its own
  pin, and the limit switch interrupts follow the setting that the rest of the model carries.
\<close>

section \<open>The fields of a register\<close>

definition pin_field :: "u32 \<Rightarrow> nat \<Rightarrow> u32" where
  "pin_field w n = drop_bit (2 * n) w AND 3"

lemma three_mask: "(3 :: u32) = mask 2"
  by (simp add: mask_eq_exp_minus_1)

lemma bit_pin_field: "bit (pin_field w n) i \<longleftrightarrow> i < 2 \<and> bit w (2 * n + i)"
  by (auto simp: pin_field_def three_mask bit_simps)

lemma bit_mode_bits: "bit (mode_bits k) i \<longleftrightarrow> i < 32 \<and> i div 2 = k"
  by (auto simp: mode_bits_def three_mask bit_simps)

lemma bit_mode_bit: "bit (mode_bit k) i \<longleftrightarrow> i < 32 \<and> i = k * 2"
  by (auto simp: mode_bit_def bit_simps simp del: push_bit_of_1)

lemma pin_field_clear: "pin_field (w AND NOT (mode_bits k)) n = (if n = k then 0 else pin_field w n)"
  by (rule bit_word_eqI) (auto simp: bit_pin_field bit_and_iff bit_not_iff bit_mode_bits dest: bit_imp_le_length)

lemma pin_field_set:
  "k < 16 \<Longrightarrow> pin_field (w OR mode_bit k) n = (if n = k then pin_field w n OR 1 else pin_field w n)"
  by (rule bit_word_eqI) (auto simp: bit_pin_field bit_or_iff bit_mode_bit bit_1_iff)

lemma clear_two: "w AND (NOT a AND NOT b) = (w AND NOT a) AND NOT b" for w :: u32
  by (simp add: word_bw_assocs)

lemma set_two: "w OR (a OR b) = (w OR a) OR b" for w :: u32
  by (simp add: word_bw_assocs)

lemmas pin_fields = pin_field_clear pin_field_set clear_two set_two

fun mode_value :: "gpio_mode \<Rightarrow> u32" where
  "mode_value GPIO_MODE_INPUT = 0"
| "mode_value GPIO_MODE_OUTPUT = 1"
| "mode_value GPIO_MODE_AF = 2"
| "mode_value GPIO_MODE_ANALOG = 3"

fun pull_value :: "gpio_pull \<Rightarrow> u32" where
  "pull_value GPIO_PUPD_NONE = 0"
| "pull_value GPIO_PUPD_PULLUP = 1"
| "pull_value GPIO_PUPD_PULLDOWN = 2"

text \<open>What the firmware relies on of the library: \<open>gpio_mode_setup\<close> sets the two fields of the pins it is
  given, and no other call writes the mode and pull-up registers.\<close>

definition library_ok :: "(lib_call \<Rightarrow> regs \<Rightarrow> regs) \<Rightarrow> bool" where
  "library_ok library =
     ((\<forall>g mode pull pins s r n. n < 16 \<longrightarrow> pin_field (library (gpio_mode_setup g mode pull pins) s r) n =
         (if n \<in> set pins then
            if r = MODER g then mode_value mode else if r = PUPDR g then pull_value pull else pin_field (s r) n
          else pin_field (s r) n)) \<and>
      (\<forall>c s. (\<nexists>g mode pull pins. c = gpio_mode_setup g mode pull pins) \<longrightarrow> library c s = s))"

text \<open>The pins of the board, from the comments of the cpu map.\<close>

datatype role = Output | Input_pull_up | Alternate

fun reset_role :: "gpio \<Rightarrow> nat \<Rightarrow> role option" where
  "reset_role GPIOA n = (if n = 5 then Some Output else if n = 6 then Some Alternate else None)"
| "reset_role GPIOB n = (if n \<in> {0, 6} then Some Input_pull_up else None)"
| "reset_role GPIOC n = (if n = 1 then Some Output else if n \<in> {0, 7} then Some Input_pull_up else None)"

fun start_role :: "gpio \<Rightarrow> nat \<Rightarrow> role option" where
  "start_role GPIOA n = (if n \<in> {8, 9, 10} then Some Output else if n \<in> {1, 4} then Some Input_pull_up
     else if n \<in> {2, 3} then Some Alternate else None)"
| "start_role GPIOB n = (if n \<in> {3, 4, 5, 10} then Some Output else if n = 2 then Some Input_pull_up else None)"
| "start_role GPIOC n = (if n = 3 then Some Input_pull_up else None)"

fun role_field :: "reg \<Rightarrow> role \<Rightarrow> u32 \<Rightarrow> u32" where
  "role_field (MODER g) Output w = 1"
| "role_field (MODER g) Input_pull_up w = 0"
| "role_field (MODER g) Alternate w = 2"
| "role_field (PUPDR g) Input_pull_up w = 1"
| "role_field (PUPDR g) Alternate w = 0"
| "role_field r x w = w"

fun reg_port :: "reg \<Rightarrow> gpio" where
  "reg_port (MODER g) = g" | "reg_port (PUPDR g) = g" | "reg_port (ODR g) = g"

definition put_role :: "role option \<Rightarrow> reg \<Rightarrow> u32 \<Rightarrow> u32" where
  "put_role x r w = (case x of None \<Rightarrow> w | Some y \<Rightarrow> role_field r y w)"

lemma run_board_simps:
  "run_board library [] s = s" "run_board library (x # ops) s = run_board library ops (exec_op library x s)"
  "run_board library (ops @ ops') s = run_board library ops' (run_board library ops s)"
  by (simp_all add: run_board_def)

lemma library_setup:
  assumes "library_ok library" "n < 16"
  shows "pin_field (library (gpio_mode_setup g mode pull pins) s r) n =
    (if n \<in> set pins then
       if r = MODER g then mode_value mode else if r = PUPDR g then pull_value pull else pin_field (s r) n
     else pin_field (s r) n)"
  using assms by (simp add: library_ok_def)

lemma library_other:
  assumes "library_ok library"
  shows "library (rcc_periph_clock_enable a) s = s" "library (rcc_periph_reset_pulse t) s = s" "library (gpio_set_af g k pins) s = s"
    "library (exti_reset_request ls) s = s" "library (exti_select_source ls g) s = s" "library (exti_enable_request ls) s = s"
    "library (exti_set_trigger ls tr) s = s" "library (nvic_enable_irq i) s = s" "library (nvic_disable_irq i) s = s"
    "library (nvic_clear_pending_irq i) s = s" "library (nvic_set_priority i p) s = s" "library (timer_call t tc) s = s"
    "library (usart_call uc) s = s" "library (dma_call dc) s = s"
  using assms by (simp_all add: library_ok_def)

lemma reset_fields:
  assumes "library_ok library" "n < 16" "r \<noteq> ODR g" "reg_port r = g"
  shows "pin_field (run_board library (reset_ops freq c) s r) n = put_role (reset_role g n) r (pin_field (s r) n)"
  using assms(3,4)
  by (cases r; cases g)
    (simp_all add: setup_ops pin_macros pin_masks run_board_simps library_other [OF assms(1)] library_setup [OF assms(1)] assms(2)
      pin_fields pin_bits put_role_def)

lemma start_fields:
  assumes "library_ok library" "n < 16" "r \<noteq> ODR g" "reg_port r = g" "pin_field (s (MODER GPIOA)) 9 = 0"
  shows "pin_field (run_board library power_up_ops s r) n = put_role (start_role g n) r (pin_field (s r) n)"
  using assms(3,4,5)
  by (cases r; cases g)
    (simp_all add: setup_ops pin_macros pin_masks int_vects run_board_simps library_other [OF assms(1)] library_setup [OF assms(1)]
      assms(2) pin_fields pin_bits put_role_def)

lemma put_role_twice: "put_role x r (put_role x r w) = put_role x r w"
proof (cases x)
  case (Some y)
  then show ?thesis by (cases r; cases y) (simp_all add: put_role_def)
qed (simp add: put_role_def)

definition board_role :: "gpio \<Rightarrow> nat \<Rightarrow> role option" where
  "board_role g n = (case start_role g n of None \<Rightarrow> reset_role g n | Some x \<Rightarrow> Some x)"

lemma put_board_role: "put_role (reset_role g n) r (put_role (start_role g n) r w) = put_role (board_role g n) r w"
  by (cases g) (simp_all add: put_role_def board_role_def)

lemma resets_fields:
  assumes "library_ok library" "n < 16" "r \<noteq> ODR g" "reg_port r = g" "cs \<noteq> []"
  shows "pin_field (run_board library (concat (map (reset_ops freq) cs)) s r) n = put_role (reset_role g n) r (pin_field (s r) n)"
  using assms(5)
proof (induction cs arbitrary: s rule: list_nonempty_induct)
  case (single c)
  then show ?case by (simp add: reset_fields [OF assms(1-4)])
next
  case (cons c cs)
  then show ?case by (simp add: run_board_simps) (simp add: reset_fields [OF assms(1-4)] put_role_twice)
qed


fun plain_library :: "lib_call \<Rightarrow> regs \<Rightarrow> regs" where
  "plain_library (gpio_mode_setup g mode pull pins) s =
     (\<lambda>r. if r = MODER g then fold (\<lambda>k w. (w AND NOT (mode_bits k)) OR push_bit (k * 2) (mode_value mode)) pins (s r)
          else if r = PUPDR g then fold (\<lambda>k w. (w AND NOT (mode_bits k)) OR push_bit (k * 2) (pull_value pull)) pins (s r)
          else s r)"
| "plain_library c s = s"

lemma and_three: "v AND 3 = v \<Longrightarrow> bit v i \<Longrightarrow> i < 2" for v :: u32
  by (metis bit_and_iff bit_mask_iff three_mask)

lemma pin_field_put:
  "v AND 3 = v \<Longrightarrow> n < 16 \<Longrightarrow> pin_field ((w AND NOT (mode_bits k)) OR push_bit (k * 2) v) n = (if n = k then v else pin_field w n)"
  by (rule bit_word_eqI)
    (auto simp: bit_pin_field bit_or_iff bit_and_iff bit_not_iff bit_mode_bits bit_push_bit_iff dest: and_three bit_imp_le_length)

lemma pin_field_puts:
  "v AND 3 = v \<Longrightarrow> n < 16 \<Longrightarrow> pin_field (fold (\<lambda>k w. (w AND NOT (mode_bits k)) OR push_bit (k * 2) v) ks w) n =
     (if n \<in> set ks then v else pin_field w n)"
  by (induction ks arbitrary: w) (auto simp: pin_field_put)

lemma mode_value_two: "mode_value m AND 3 = mode_value m"
  by (cases m) simp_all

lemma pull_value_two: "pull_value p AND 3 = pull_value p"
  by (cases p) simp_all

lemma plain_library_ok: "library_ok plain_library"
  unfolding library_ok_def
proof (intro conjI allI impI)
  fix c s assume "\<nexists>g mode pull pins. c = gpio_mode_setup g mode pull pins"
  then show "plain_library c s = s" by (cases c) simp_all
qed (simp add: pin_field_puts mode_value_two pull_value_two)

text \<open>From a power-up with the debug pins in their alternate function.\<close>

definition reset_regs :: regs where
  "reset_regs r = (if r = MODER GPIOA then 0xA8000000 else if r = PUPDR GPIOA then 0x64000000
     else if r = MODER GPIOB then 0x280 else if r = PUPDR GPIOB then 0x100 else 0)"


section \<open>Clocks\<close>

text \<open>A peripheral answers only while its clock is on; \<open>call_clock\<close> is the clock a library call needs for
  the registers it writes.\<close>

fun call_clock :: "lib_call \<Rightarrow> rcc option" where
  "call_clock (gpio_mode_setup g mode pull pins) = Some (RCC_GPIO g)"
| "call_clock (gpio_set_af g k pins) = Some (RCC_GPIO g)"
| "call_clock (exti_select_source ls g) = Some RCC_SYSCFG"
| "call_clock (timer_call t c) = Some (RCC_TIM t)"
| "call_clock (usart_call c) = Some RCC_USART2"
| "call_clock (dma_call c) = Some RCC_DMA1"
| "call_clock c = None"

fun op_clock :: "board_op \<Rightarrow> rcc option" where
  "op_clock (clear_bits r m) = Some (RCC_GPIO (reg_port r))"
| "op_clock (set_bits r m) = Some (RCC_GPIO (reg_port r))"
| "op_clock (lib c) = call_clock c"

fun turned_on :: "board_op \<Rightarrow> rcc list" where
  "turned_on (lib (rcc_periph_clock_enable r)) = [r]"
| "turned_on x = []"

fun clocks_on :: "rcc list \<Rightarrow> board_op list \<Rightarrow> rcc list" where
  "clocks_on on [] = on"
| "clocks_on on (x # ops) = clocks_on (turned_on x @ on) ops"

fun clocked :: "rcc list \<Rightarrow> board_op list \<Rightarrow> bool" where
  "clocked on [] = True"
| "clocked on (x # ops) =
     ((case op_clock x of None \<Rightarrow> True | Some r \<Rightarrow> r \<in> set on) \<and> clocked (turned_on x @ on) ops)"

lemma clocked_append: "clocked on (ops @ ops') = (clocked on ops \<and> clocked (clocks_on on ops) ops')"
  by (induction ops arbitrary: on) simp_all

lemma clocks_on_mono: "set on \<subseteq> set (clocks_on on ops)"
  by (induction ops arbitrary: on) fastforce+

lemma clocked_mono: "clocked on ops \<Longrightarrow> set on \<subseteq> set on' \<Longrightarrow> clocked on' ops"
proof (induction ops arbitrary: on on')
  case (Cons x ops)
  have "set (turned_on x @ on) \<subseteq> set (turned_on x @ on')" using Cons.prems(2) by auto
  then show ?case using Cons by (auto split: option.splits)
qed simp

lemma power_up_clocked: "clocked [] power_up_ops"
  by (simp add: setup_ops pin_macros)

lemma power_up_clocks: "set (clocks_on [] power_up_ops) = {RCC_GPIO GPIOA, RCC_GPIO GPIOB, RCC_GPIO GPIOC, RCC_SYSCFG,
    RCC_USART2, RCC_DMA1, RCC_TIM TIM2, RCC_TIM TIM4}"
  by (auto simp add: setup_ops pin_macros)

lemma reset_clocked: "clocked [RCC_GPIO GPIOA] (reset_ops freq c)"
  by (simp add: setup_ops pin_macros)

lemma resets_clocked: "RCC_GPIO GPIOA \<in> set on \<Longrightarrow> clocked on (concat (map (reset_ops freq) cs))"
proof (induction cs arbitrary: on)
  case (Cons c cs)
  have "clocked on (reset_ops freq c)" by (rule clocked_mono [OF reset_clocked]) (use Cons.prems in simp)
  moreover have "RCC_GPIO GPIOA \<in> set (clocks_on on (reset_ops freq c))" using Cons.prems clocks_on_mono by blast
  ultimately show ?case using Cons.IH by (simp add: clocked_append)
qed simp

text \<open>Later a limit switch may start the debounce timer, and homing and the settings switch the limit interrupts.\<close>

datatype board_event = Limit_edge | Limits_off | Limits_on settings_t

fun event_ops :: "board_event \<Rightarrow> board_op list" where
  "event_ops Limit_edge = enable_debounce_timer_ops"
| "event_ops Limits_off = limits_disable_ops"
| "event_ops (Limits_on c) = limits_init_ops c"

lemma event_clocked: "clocked on (event_ops e)"
  by (cases e) (simp_all add: enable_debounce_timer_ops_def limits_disable_ops_def limits_init_ops_def pin_macros)

lemma events_clocked: "clocked on (concat (map event_ops es))"
  by (induction es arbitrary: on) (simp_all add: clocked_append event_clocked)


section \<open>Pin interrupts\<close>

text \<open>An external interrupt line: the port it watches, whether it raises requests, and on which edge.\<close>

record exti_line =
  line_source :: "gpio option"
  line_requests :: bool
  line_trigger :: "trigger option"

record interrupt_unit =
  exti :: "nat \<Rightarrow> exti_line"
  nvic :: "irq \<Rightarrow> bool"

definition upd_lines :: "nat list \<Rightarrow> (exti_line \<Rightarrow> exti_line) \<Rightarrow> interrupt_unit \<Rightarrow> interrupt_unit" where
  "upd_lines ls f u = u\<lparr>exti := \<lambda>n. if n \<in> set ls then f (exti u n) else exti u n\<rparr>"

fun unit_op :: "board_op \<Rightarrow> interrupt_unit \<Rightarrow> interrupt_unit" where
  "unit_op (lib (exti_select_source ls g)) u = upd_lines ls (line_source_update (\<lambda>_. Some g)) u"
| "unit_op (lib (exti_enable_request ls)) u = upd_lines ls (line_requests_update (\<lambda>_. True)) u"
| "unit_op (lib (exti_set_trigger ls t)) u = upd_lines ls (line_trigger_update (\<lambda>_. Some t)) u"
| "unit_op (lib (nvic_enable_irq i)) u = u\<lparr>nvic := (nvic u)(i := True)\<rparr>"
| "unit_op (lib (nvic_disable_irq i)) u = u\<lparr>nvic := (nvic u)(i := False)\<rparr>"
| "unit_op x u = u"

definition run_unit :: "board_op list \<Rightarrow> interrupt_unit \<Rightarrow> interrupt_unit" where
  "run_unit ops = fold unit_op ops"

lemma run_unit_simps:
  "run_unit [] u = u" "run_unit (x # ops) u = run_unit ops (unit_op x u)"
  "run_unit (ops @ ops') u = run_unit ops' (run_unit ops u)"
  by (simp_all add: run_unit_def)

definition irq_of_line :: "nat \<Rightarrow> irq" where
  "irq_of_line n = (if n = 0 then NVIC_EXTI0_IRQ else if n = 1 then NVIC_EXTI1_IRQ else if n = 2 then NVIC_EXTI2_IRQ
     else if n = 3 then NVIC_EXTI3_IRQ else if n = 4 then NVIC_EXTI4_IRQ else NVIC_EXTI9_5_IRQ)"

text \<open>Pin \<open>n\<close> of port \<open>g\<close> interrupts on its falling edge.\<close>

definition interrupts_from :: "interrupt_unit \<Rightarrow> gpio \<times> nat \<Rightarrow> bool" where
  "interrupts_from u = (\<lambda>(g, n). exti u n = \<lparr>line_source = Some g, line_requests = True, line_trigger = Some EXTI_TRIGGER_FALLING\<rparr> \<and>
     nvic u (irq_of_line n))"

definition control_inputs :: "(gpio \<times> nat) list" where
  "control_inputs = [(GPIOB, RESET_BIT), (GPIOA, FEED_HOLD_BIT), (GPIOA, CYCLE_START_BIT), (GPIOC, SAFETY_DOOR_BIT)]"

definition limit_inputs :: "(gpio \<times> nat) list" where
  "limit_inputs = [(GPIOC, X_LIMIT_BIT), (GPIOB, Y_LIMIT_BIT), (GPIOB, Z_LIMIT_BIT)]"

definition inputs_follow :: "bool \<Rightarrow> interrupt_unit \<Rightarrow> bool" where
  "inputs_follow on u = (list_all (interrupts_from u) control_inputs \<and> list_all (\<lambda>p. interrupts_from u p = on) limit_inputs)"

lemmas inputs_defs = inputs_follow_def interrupts_from_def control_inputs_def limit_inputs_def irq_of_line_def upd_lines_def pin_bits

lemma start_controls: "list_all (interrupts_from (run_unit power_up_ops u)) control_inputs"
  by (simp add: setup_ops pin_macros int_vects run_unit_simps inputs_defs)

lemma limits_init_controls:
  "list_all (interrupts_from u) control_inputs \<Longrightarrow>
   inputs_follow (bit_istrue (flags c) BITFLAG_HARD_LIMIT_ENABLE) (run_unit (limits_init_ops c) u)"
  by (simp add: limits_init_ops_def limits_disable_ops_def pin_macros int_vects run_unit_simps inputs_defs)

lemma reset_controls:
  "list_all (interrupts_from u) control_inputs \<Longrightarrow>
   inputs_follow (bit_istrue (flags c) BITFLAG_HARD_LIMIT_ENABLE) (run_unit (reset_ops freq c) u)"
proof -
  assume "list_all (interrupts_from u) control_inputs"
  from limits_init_controls [OF this] show ?thesis
    by (simp add: reset_ops_def spindle_init_def spindle_stop_ops_def coolant_init_def probe_init_def pin_macros Let_def run_unit_simps)
qed

lemma resets_controls:
  "list_all (interrupts_from u) control_inputs \<Longrightarrow>
   inputs_follow (bit_istrue (flags c) BITFLAG_HARD_LIMIT_ENABLE) (run_unit (concat (map (reset_ops freq) (cs @ [c]))) u)"
proof (induction cs arbitrary: u)
  case (Cons d cs)
  have "list_all (interrupts_from (run_unit (reset_ops freq d) u)) control_inputs"
    using reset_controls [OF Cons.prems] by (simp add: inputs_follow_def)
  from Cons.IH [OF this] show ?case by (simp add: run_unit_simps)
qed (simp add: reset_controls)

text \<open>The same events on the settings of the machine, where the limit interrupts are one flag.\<close>

fun event_env :: "board_event \<Rightarrow> settings_env \<Rightarrow> settings_env" where
  "event_env Limit_edge e = e"
| "event_env Limits_off e = limits_disable e"
| "event_env (Limits_on c) e = limits_init (e\<lparr>settings := c\<rparr>)"

lemma event_follows:
  "inputs_follow (limit_irq_enabled e) u \<Longrightarrow> inputs_follow (limit_irq_enabled (event_env x e)) (run_unit (event_ops x) u)"
proof (cases x)
  case Limit_edge
  assume "inputs_follow (limit_irq_enabled e) u"
  then show ?thesis by (simp add: Limit_edge enable_debounce_timer_ops_def run_unit_simps inputs_defs)
next
  case Limits_off
  assume "inputs_follow (limit_irq_enabled e) u"
  then show ?thesis by (simp add: Limits_off limits_disable_ops_def limits_disable_def run_unit_simps inputs_defs)
next
  case (Limits_on c)
  assume "inputs_follow (limit_irq_enabled e) u"
  then have "list_all (interrupts_from u) control_inputs" by (simp add: inputs_follow_def)
  from limits_init_controls [OF this, of c] show ?thesis
    by (cases "bit_istrue (flags c) BITFLAG_HARD_LIMIT_ENABLE") (simp_all add: Limits_on limits_init_def limits_disable_def)
qed

lemma events_follow:
  "inputs_follow (limit_irq_enabled e) u \<Longrightarrow>
   inputs_follow (limit_irq_enabled (fold event_env es e)) (run_unit (concat (map event_ops es)) u)"
  by (induction es arbitrary: e u) (simp_all add: run_unit_simps event_follows)


end
