(* ===== verification/Spec2Isabelle.thy ===== *)
theory Spec2Isabelle
  imports GcodeCheck PlanQueue Safety Hold HomedAxes CheckMode LineInput LineTarget Delay AlarmLock BoardSetup
begin

text \<open>
  Verification library of the CPCBM firmware, a port of the CNC controller Grbl 0.9j to the
  STM32F401 (\<open>src/firmware/grbl_port\<close>) that drives a CoreXY machine for circuit boards.  Paths below are
  relative to \<open>common_src\<close> there, except \<open>flash.c\<close>, \<open>main.c\<close> and the cpu map, which are in
  \<open>stm32/f4/nucleo-f401re\<close>.

  \<^bold>\<open>The program.\<close>  Bytes arrive by DMA in a receive ring (\<open>serial.c\<close>).  The main loop (\<open>protocol.c\<close>)
  filters them into lines; a line is a \<open>$\<close> command (\<open>system.c\<close>) or a g-code block (\<open>gcode.c\<close>), which is
  read, checked and executed through motion control (\<open>motion_control.c\<close>).  A line motion becomes a
  block in the planner's ring (\<open>planner.c\<close>), whose entry speeds are planned ahead.  The segment
  preparation (\<open>st_prep_buffer\<close> in \<open>stepper.c\<close>) cuts the oldest block into short segments of constant
  step rate, which the timer interrupt (\<open>MAIN_TIMER_ISR\<close>) turns into steps of the motors.
  Interrupts raise flags that the real-time executor (\<open>protocol_execute_realtime\<close>) acts on at
  polling points: feed hold, cycle start, safety door, alarms, reset.  Settings live in two sectors of
  the flash (\<open>flash.c\<close>, \<open>settings.c\<close>).

  \<^bold>\<open>Theories\<close>, in the order of the code:
  \<^item> \<open>Prelude\<close>: words, the bit macros of \<open>nuts_bolts.h\<close>, rings as lists, the collections of rules.
    \<open>Float32\<close>: IEEE single and double precision over exact rationals.
    \<open>NutsBolts\<close>: \<open>read_float\<close>.  \<open>Delay\<close>: the millisecond delays.  \<open>Print\<close>: the number printers of \<open>print.c\<close>.
  \<^item> \<open>Flash\<close>: the emulated EEPROM, a byte map with the log of its primitive operations.
    \<open>Settings\<close>: \<open>settings.c\<close> and \<open>settings.h\<close>, with recovery after a power loss between any two operations.
    \<open>Serial\<close>: both byte rings with their interrupts.
  \<^item> \<open>Gcode\<close>: \<open>gcode.h\<close>, steps 2 and 3 of \<open>gc_execute_line\<close>, one definition per section.
    \<open>GcodeParse\<close> and \<open>GcodeCheck\<close>: what these steps accept.  \<open>GcodeExec\<close>: step 4.
  \<^item> \<open>System\<close>: \<open>sys\<close> and the real-time flags, the CoreXY conversions.  \<open>Planner\<close>: \<open>planner.c\<close>.
    \<open>Stepper\<close>: the step interrupt and its start and stop.  \<open>StepPrep\<close>: \<open>st_prep_buffer\<close>.
  \<^item> \<open>Machine\<close>: the whole state and the interrupts as steps on it, with \<open>probe.c\<close>, the spindle and coolant
    and \<open>mc_reset\<close>.  \<open>Report\<close>: \<open>report.c\<close>.  \<open>Protocol\<close>: the real-time executor.  \<open>Homing\<close>: \<open>limits.c\<close>.
    \<open>Motion\<close>: \<open>motion_control.c\<close>.  \<open>Command\<close>: the \<open>$\<close> commands, the line filter, the main loop, \<open>main.c\<close>.
  \<^item> \<open>Board\<close>: the set-up functions of all modules (\<open>stepper_init\<close>, \<open>system_init\<close>, \<open>serial_init\<close>, ...) with
    the pin macros of \<open>cpu_map_nucleof401.h\<close>.  Each is the list of its writes to the mode, pull-up and output
    registers and of its library calls; what a call does to the registers is a parameter.

  Each C function is a definition of the same name.  The variables of a module are the fields of a
  record, and the records extend each other in the order in which modules use each other
  (\<open>sys_env\<close>, \<open>plan_state\<close>, \<open>step_state\<close>, \<open>machine\<close>), so that a function of the planner works on any
  state that has the planner's variables.  Integers have the width of the C type and wrap, arrays are lists,
  pointers into a ring are indices, a null pointer is \<open>None\<close>.  A function that can
  fault (a write outside a buffer or the flash) or need not return has an \<open>option\<close> result; status
  codes are the numbers of the code.  A loop is a recursive function, a loop that may not end a
  \<open>partial_function\<close>, so that \<open>None\<close> stands for no return: nothing is bounded by fuel except the number of
  resets in \<open>resets\<close>, which is a parameter of the statements about it.

  \<^bold>\<open>Interrupts.\<close>  The field \<open>future\<close> of the machine lists the interrupts that arrive between one polling point
  of the main program and the next: the step and pulse timers, received bytes, the control pins, the
  limit pins and their debounce timer, changes of the probe.  A polling point (\<open>poll\<close>) takes the next group; a wait (\<open>await\<close>)
  that finds no more group is a wait that lasts forever, and the function that waits returns
  \<open>None\<close>, or the main loop the state it was left in.  The theorems hold for every \<open>future\<close>.
  The serial theorems interleave more finely, between the store and the enabling in \<open>serial_write\<close>.

  \<^bold>\<open>What is shown.\<close>
  \<^item> Motion, from the g-code target to the motors: \<open>plan_buffer_line\<close> computes exactly the steps to the target
    (\<open>LineTarget\<close>), the segments of a block have exactly its steps (\<open>SegmentSteps\<close>), the Bresenham interrupt makes
    exactly those steps (\<open>StepTrace\<close>), and the composition of the three.
  \<^item> Planning (\<open>PlanQueue\<close>): \<open>planner_recalculate\<close> refines a function on lists of blocks; no block is entered
    faster than its junction allows or than the block before it can accelerate to; discarding and
    queueing keep this.
  \<^item> Safety (\<open>Safety\<close>, \<open>AlarmLock\<close>, \<open>Hold\<close>, \<open>CheckMode\<close>): critical alarms wait for a reset and a reset ends them, an alarm
    locks the g-code out, hard and soft limits stop the machine and come back after a reset, a hold ends
    only by the operator, check mode moves nothing and always comes back.
    Homing comes back aborted or with each axis at its pull-off position (\<open>HomedAxes\<close>),
    and a whole cycle that succeeds is carried out there.
  \<^item> The board (\<open>BoardSetup\<close>): pins get their modes and pull-ups from any register contents, nothing is written
    before its clock runs, and the limit pins interrupt exactly when the machine's flag
    \<open>limit_irq_enabled\<close> says so, which is a simulation between the interrupt controller and \<open>Settings\<close>.
  \<^item> Well-formedness of every reachable state (\<open>StepInvariant\<close>, \<open>Invariant\<close>, \<open>WellFormed\<close>): indices inside
    their arrays, vectors of one component per axis, legal states.
  \<^item> Input and output: lines reach the executor as filtered (\<open>LineInput\<close>), the words of a line are accepted by a
    table whatever their order, accepted blocks use every word, bytes pass both rings in order, numbers print and read
    back, settings and coordinates survive the flash.
  \<^item> Defects, as theorems about the code as it is: the receive ring overflows silently, \<open>printFloat\<close> overruns its buffer, start-up
    lines get a wrong checksum, build info cannot be stored, an overlong line's tail is executed, and others.

  \<^bold>\<open>Interfaces.\<close>  The invariants are proved once for any predicate in locales that assume what the
  predicate survives: \<open>planner_invariant\<close>, \<open>prep_invariant\<close>, \<open>step_invariant\<close> (\<open>StepInvariant\<close>),
  \<open>realtime_invariant\<close> and its extensions up to \<open>command_invariant\<close> (\<open>Invariant\<close>; \<open>homing_invariant\<close> among
  them is what the homing cycle needs), and \<open>isr_relation\<close>
  (\<open>Safety\<close>) for relations that every interrupt respects.  They are interpreted on well-formedness, also with fixed settings, on
  what interrupts leave alone, on held and on quiet machines and on the paths of planned blocks.

  \<^bold>\<open>Bounds.\<close>  Single precision counts integers up to \<open>2\<^sup>2\<^sup>4\<close>, which bounds the length of a line in steps
  where exact steps are claimed.  A segment may not take more than \<open>2\<^sup>1\<^sup>3\<close> steps, since its count is
  shifted by up to three bits of smoothing in sixteen.  The step counters wrap at \<open>2\<^sup>3\<^sup>2\<close>.

  \<^bold>\<open>Not modelled.\<close>  The clock tree of \<open>main\<close>, the acknowledgement of interrupts and the effect of timer, serial
  port and DMA registers (their set-up is the data of \<open>Board\<close>), the branches for AVR and other boards, and
  unused options of \<open>config.h\<close>.  Real time: timer periods are values, interrupts come in any order and number; the
  bounded wait of \<open>st_prep_buffer\<close> for the segments to drain (\<open>stepper.c\<close> 1028-1029) only lets time pass
  and is left out.  The compiler may fuse multiplications and additions; each operation is rounded here.
  \<open>sin\<close>, \<open>cos\<close> and \<open>atan2\<close> of libm are parameters (\<open>libm\<close>), the build date as well.
\<close>

end
